(* ===== verification/Prelude.thy ===== *)
theory Prelude
  imports Main "HOL-Library.Word"
begin

unbundle bit_operations_syntax

text \<open>
  Shared vocabulary of the development: the machine integers and byte strings of the Rust
  crate, checked slice and index operations (a Rust slice out of range panics, so the checked
  operations return a panic value), the result types, big-endian conversions of the standard
  library, decimal and hexadecimal formatting, and the string operations of \<^verbatim>\<open>str\<close>
  that the crate uses.  A Rust \<^verbatim>\<open>String\<close> is its list of UTF-8 bytes.
\<close>

section \<open>Machine integers and bytes\<close>

type_synonym u8 = "8 word"
type_synonym u16 = "16 word"
type_synonym u32 = "32 word"
type_synonym u64 = "64 word"
type_synonym u128 = "128 word"
type_synonym bytes = "u8 list"

named_theorems slice_simps \<open>evaluation of the checked slice operations\<close>
named_theorems nopanic \<open>results that are never a panic\<close>
named_theorems be_simps \<open>big-endian conversions\<close>

lemma xor_cancel_right: "(x :: 'a::len word) XOR z = y XOR z \<longleftrightarrow> x = y"
  by (metis xor.assoc xor_self_eq xor.right_neutral)

lemma xor_cancel_left: "(z :: 'a::len word) XOR x = z XOR y \<longleftrightarrow> x = y"
  by (metis xor.commute xor_cancel_right)

lemma xor_eq_0: "(x :: 'a::len word) XOR y = 0 \<longleftrightarrow> x = y"
  by (metis xor_cancel_right xor_self_eq)

lemmas xor_cancel [simp] = xor_cancel_right xor_cancel_left xor_eq_0

lemma not_bit_ge_length: "LENGTH('a) \<le> i \<Longrightarrow> \<not> bit (w :: 'a::len word) i"
  by (meson bit_imp_le_length leD)

lemma unat_of_nat_small: "n < 2 ^ LENGTH('a) \<Longrightarrow> unat (of_nat n :: 'a::len word) = n"
  by (simp add: unat_of_nat)

lemma of_nat_word_inj:
  "m < 2 ^ LENGTH('a) \<Longrightarrow> n < 2 ^ LENGTH('a) \<Longrightarrow> (of_nat m :: 'a::len word) = of_nat n \<longleftrightarrow> m = n"
  by (metis unat_of_nat_small)

section \<open>Errors and results\<close>

text \<open>The public error type of \<^verbatim>\<open>error.rs\<close>, with the source's variants in order.\<close>

datatype trezor_error =
    Transport string
  | Thp string
  | DeviceRejected int string
  | Pairing string
  | InvalidInput string
  | Protocol string
  | TransportBusy
  | UserCanceled
  | NotImplemented string

definition not_implemented :: "string \<Rightarrow> trezor_error" where
  "not_implemented feature = NotImplemented feature"

definition thp :: "string \<Rightarrow> trezor_error" where
  "thp reason = Thp reason"

text \<open>
  What a Rust call can end in besides a value: an \<^verbatim>\<open>Err\<close> of the crate or a panic
  (slice out of range, arithmetic underflow, \<^verbatim>\<open>expect\<close> on a failure).
\<close>

datatype fault = Error trezor_error | Panic string

type_synonym 'a res = "fault + 'a"

abbreviation Err :: "trezor_error \<Rightarrow> 'a res" where
  "Err e \<equiv> Inl (Error e)"

abbreviation thp_err :: "string \<Rightarrow> 'a res" where
  "thp_err s \<equiv> Inl (Error (thp s))"

text \<open>The \<^verbatim>\<open>?\<close> operator: continue with the value, or return the fault.\<close>

definition res_bind :: "'a res \<Rightarrow> ('a \<Rightarrow> 'b res) \<Rightarrow> 'b res" where
  "res_bind m f = (case m of Inl e \<Rightarrow> Inl e | Inr a \<Rightarrow> f a)"

definition is_panic :: "'a res \<Rightarrow> bool" where
  "is_panic r = (case r of Inl (Panic _) \<Rightarrow> True | _ \<Rightarrow> False)"

definition is_err :: "'a res \<Rightarrow> bool" where
  "is_err r = (case r of Inl _ \<Rightarrow> True | Inr _ \<Rightarrow> False)"

lemma res_bind_simps [simp]:
  "res_bind (Inr a) f = f a"
  "res_bind (Inl e) f = Inl e"
  by (simp_all add: res_bind_def)

lemma res_bind_eq_Inr: "res_bind m f = Inr b \<longleftrightarrow> (\<exists>a. m = Inr a \<and> f a = Inr b)"
  by (cases m) auto

lemma is_panic_simps [simp]:
  "\<not> is_panic (Inr a)" "\<not> is_panic (Inl (Error e))" "is_panic (Inl (Panic s))"
  by (simp_all add: is_panic_def)

lemma is_panic_Inl: "is_panic (Inl f) \<longleftrightarrow> (\<exists>s. f = Panic s)"
  by (cases f) auto

lemma is_err_simps [simp]: "\<not> is_err (Inr a)" "is_err (Inl e)"
  by (simp_all add: is_err_def)

lemma nopanic_bind [nopanic]:
  "\<not> is_panic m \<Longrightarrow> (\<And>a. m = Inr a \<Longrightarrow> \<not> is_panic (f a)) \<Longrightarrow> \<not> is_panic (res_bind m f)"
  by (cases m) (auto simp: is_panic_def)

lemma nopanic_if [nopanic]:
  "(P \<Longrightarrow> \<not> is_panic a) \<Longrightarrow> (\<not> P \<Longrightarrow> \<not> is_panic b) \<Longrightarrow> \<not> is_panic (if P then a else b)"
  by simp

lemma nopanic_values [nopanic]: "\<not> is_panic (Inr a)" "\<not> is_panic (Inl (Error e))"
  by simp_all

lemma is_panic_map [simp]: "is_panic (res_bind m (\<lambda>a. Inr (g a))) \<longleftrightarrow> is_panic m"
  by (cases m) (auto simp: is_panic_def)

section \<open>Checked slices, indices and subtraction\<close>

definition slice :: "'a list \<Rightarrow> nat \<Rightarrow> nat \<Rightarrow> 'a list res" where
  "slice xs a b = (if a \<le> b \<and> b \<le> length xs then Inr (take (b - a) (drop a xs))
                   else Inl (Panic ''slice index out of range''))"

definition idx :: "'a list \<Rightarrow> nat \<Rightarrow> 'a res" where
  "idx xs i = (if i < length xs then Inr (xs ! i) else Inl (Panic ''index out of bounds''))"

definition usub :: "nat \<Rightarrow> nat \<Rightarrow> nat res" where
  "usub a b = (if b \<le> a then Inr (a - b) else Inl (Panic ''attempt to subtract with overflow''))"

lemma slice_ok [slice_simps]: "a \<le> b \<Longrightarrow> b \<le> length xs \<Longrightarrow> slice xs a b = Inr (take (b - a) (drop a xs))"
  by (simp add: slice_def)

lemma idx_ok [slice_simps]: "i < length xs \<Longrightarrow> idx xs i = Inr (xs ! i)"
  by (simp add: idx_def)

lemma usub_ok [slice_simps]: "b \<le> a \<Longrightarrow> usub a b = Inr (a - b)"
  by (simp add: usub_def)

lemma nopanic_slices [nopanic]:
  "a \<le> b \<Longrightarrow> b \<le> length xs \<Longrightarrow> \<not> is_panic (slice xs a b)"
  "i < length xs \<Longrightarrow> \<not> is_panic (idx xs i)"
  "b \<le> a \<Longrightarrow> \<not> is_panic (usub a b)"
  by (simp_all add: slice_simps)

text \<open>\<^verbatim>\<open>Vec::resize\<close>: truncate, or extend with a fill value.\<close>

definition resize :: "nat \<Rightarrow> 'a \<Rightarrow> 'a list \<Rightarrow> 'a list" where
  "resize n v xs = take n xs @ replicate (n - length xs) v"

lemma length_resize [simp]: "length (resize n v xs) = n"
  by (simp add: resize_def)

lemma resize_eq_append: "length xs \<le> n \<Longrightarrow> resize n v xs = xs @ replicate (n - length xs) v"
  by (simp add: resize_def)

section \<open>Big-endian conversions\<close>

text \<open>
  \<open>be_bytes n w\<close> is the \<open>n\<close>-byte big-endian rendering of \<open>w\<close>
  (\<^verbatim>\<open>to_be_bytes\<close> at the width of the word), and \<open>from_be\<close> is
  \<^verbatim>\<open>from_be_bytes\<close>, the fold \<^verbatim>\<open>(v << 8) | b\<close>.
\<close>

primrec be_bytes :: "nat \<Rightarrow> 'a::len word \<Rightarrow> bytes" where
  "be_bytes 0 w = []"
| "be_bytes (Suc n) w = be_bytes n (drop_bit 8 w) @ [ucast w]"

definition from_be :: "bytes \<Rightarrow> 'a::len word" where
  "from_be bs = foldl (\<lambda>v b. push_bit 8 v OR ucast b) 0 bs"

definition u16_be :: "u16 \<Rightarrow> bytes" where "u16_be = be_bytes 2"
definition u32_be :: "u32 \<Rightarrow> bytes" where "u32_be = be_bytes 4"
definition u64_be :: "u64 \<Rightarrow> bytes" where "u64_be = be_bytes 8"

lemma length_be_bytes [simp]: "length (be_bytes n w) = n"
  by (induction n arbitrary: w) auto

lemma from_be_snoc: "from_be (bs @ [b]) = push_bit 8 (from_be bs) OR ucast b"
  by (simp add: from_be_def)

lemma from_be_Nil [simp]: "from_be [] = 0"
  by (simp add: from_be_def)

lemma from_be_be_bytes: "from_be (be_bytes n w) = (take_bit (8 * n) w :: 'a::len word)"
proof (induction n arbitrary: w)
  case (Suc n)
  have "push_bit 8 (take_bit (8 * n) (drop_bit 8 w)) OR ucast (ucast w :: u8) = take_bit (8 * Suc n) w"
    by (rule bit_word_eqI) (auto simp: bit_simps)
  with Suc show ?case by (simp add: from_be_snoc)
qed simp

lemma bit_from_be_bound: "bit (from_be bs :: 'a::len word) i \<Longrightarrow> i < 8 * length bs"
proof (induction bs arbitrary: i rule: rev_induct)
  case (snoc b bs)
  then show ?case
    by (cases "i < 8") (auto simp: from_be_snoc bit_simps dest: bit_imp_le_length dest!: snoc.IH)
qed simp

lemma be_bytes_from_be:
  "8 * length bs \<le> LENGTH('a) \<Longrightarrow> be_bytes (length bs) (from_be bs :: 'a::len word) = bs"
proof (induction bs rule: rev_induct)
  case (snoc b bs)
  let ?x = "from_be bs :: 'a word"
  have "drop_bit 8 (push_bit 8 ?x OR ucast b) = ?x"
    using snoc.prems by (intro bit_word_eqI) (auto simp: bit_simps dest: bit_from_be_bound bit_imp_le_length)
  moreover have "ucast (push_bit 8 ?x OR ucast b) = b"
    using snoc.prems by (intro bit_word_eqI) (auto simp: bit_simps)
  ultimately show ?case using snoc by (simp add: from_be_snoc)
qed simp

text \<open>
  The contract of a fixed-width byte codec, on which every header parser of the crate rests:
  the width, and that encoding and decoding are inverse to each other.
\<close>

locale fixed_codec =
  fixes enc :: "'a \<Rightarrow> bytes" and dec :: "bytes \<Rightarrow> 'a" and width :: nat
  assumes len_enc: "length (enc x) = width"
    and dec_enc: "dec (enc x) = x"
    and enc_dec: "length bs = width \<Longrightarrow> enc (dec bs) = bs"
begin

lemma enc_inj: "enc x = enc y \<longleftrightarrow> x = y"
  by (metis dec_enc)

lemma dec_inj: "length bs = width \<Longrightarrow> length cs = width \<Longrightarrow> dec bs = dec cs \<longleftrightarrow> bs = cs"
  by (metis enc_dec)

lemma dec_prefix: "dec (take width (enc x @ rest)) = x"
  by (simp add: len_enc dec_enc)

lemma dec_field: "length pre = k \<Longrightarrow> dec (take width (drop k (pre @ enc x @ rest))) = x"
  by (simp add: len_enc dec_enc)

lemma drop_field: "length pre = k \<Longrightarrow> drop (k + width) (pre @ enc x @ rest) = rest"
  by (simp add: len_enc)

end

lemma be_fixed_codec:
  assumes "8 * n = LENGTH('a::len)"
  shows "fixed_codec (be_bytes n :: 'a word \<Rightarrow> bytes) from_be n"
proof
  show "from_be (be_bytes n x) = x" for x :: "'a word"
    using assms by (simp add: from_be_be_bytes)
  show "be_bytes n (from_be bs :: 'a word) = bs" if "length bs = n" for bs
    using that assms be_bytes_from_be [of bs, where 'a = 'a] by simp
qed simp

interpretation u16c: fixed_codec u16_be from_be 2
  unfolding u16_be_def by (rule be_fixed_codec) simp

interpretation u32c: fixed_codec u32_be from_be 4
  unfolding u32_be_def by (rule be_fixed_codec) simp

interpretation u64c: fixed_codec u64_be from_be 8
  unfolding u64_be_def by (rule be_fixed_codec) simp

lemmas be_len [simp] = u16c.len_enc u32c.len_enc u64c.len_enc
lemmas be_dec [simp] = u16c.dec_enc u32c.dec_enc u64c.dec_enc

text \<open>The two and four byte renderings, byte by byte, as the parsers index them.\<close>

lemma u16_be_nth [be_simps]: "from_be [u16_be w ! 0, u16_be w ! Suc 0] = w"
proof -
  have "[u16_be w ! 0, u16_be w ! Suc 0] = u16_be w"
    by (rule nth_equalityI) (auto simp: less_Suc_eq numeral_2_eq_2)
  then show ?thesis by simp
qed

lemma u32_be_nth [be_simps]:
  "from_be [u32_be w ! 0, u32_be w ! Suc 0, u32_be w ! Suc (Suc 0), u32_be w ! Suc (Suc (Suc 0))] = w"
proof -
  have "[u32_be w ! 0, u32_be w ! Suc 0, u32_be w ! Suc (Suc 0), u32_be w ! Suc (Suc (Suc 0))] = u32_be w"
    by (rule nth_equalityI) (auto simp: less_Suc_eq numeral_eq_Suc)
  then show ?thesis by simp
qed

section \<open>Formatting\<close>

text \<open>\<^verbatim>\<open>format!("{n}")\<close> and \<^verbatim>\<open>format!("{b:02x}")\<close>.\<close>

definition digit_char :: "nat \<Rightarrow> char" where
  "digit_char d = char_of (48 + d)"

fun show_nat :: "nat \<Rightarrow> string" where
  "show_nat n = (if n < 10 then [digit_char n] else show_nat (n div 10) @ [digit_char (n mod 10)])"

declare show_nat.simps [simp del]

definition hex_digit :: "nat \<Rightarrow> char" where
  "hex_digit d = (if d < 10 then char_of (48 + d) else char_of (87 + d))"

definition hex2 :: "u8 \<Rightarrow> string" where
  "hex2 b = [hex_digit (unat b div 16), hex_digit (unat b mod 16)]"

definition show_int :: "int \<Rightarrow> string" where
  "show_int i = (if i < 0 then ''-'' @ show_nat (nat (- i)) else show_nat (nat i))"

lemma show_nat_nonempty [simp]: "show_nat n \<noteq> []"
  by (subst show_nat.simps) simp

section \<open>Stateful components\<close>

text \<open>
  A component with an operation that may fail, run over a sequence of inputs; the outputs are
  kept in order.  \<open>safe_machine\<close> is the contract "an invariant that every operation keeps, and
  under which no operation panics", from which the same holds for every sequence of calls.
\<close>

fun run :: "('s \<Rightarrow> 'i \<Rightarrow> 'o \<times> 's) \<Rightarrow> 's \<Rightarrow> 'i list \<Rightarrow> 'o list \<times> 's" where
  "run step s [] = ([], s)"
| "run step s (i # is) =
     (let (out, s') = step s i; (os, s'') = run step s' is in (out # os, s''))"

locale safe_machine =
  fixes step :: "'s \<Rightarrow> 'i \<Rightarrow> 'o res \<times> 's" and start :: 's and inv :: "'s \<Rightarrow> bool"
  assumes inv_start: "inv start"
    and inv_step: "inv s \<Longrightarrow> inv (snd (step s i))"
    and step_nopanic: "inv s \<Longrightarrow> \<not> is_panic (fst (step s i))"
begin

lemma run_inv: "inv s \<Longrightarrow> inv (snd (run step s is))"
proof (induction "is" arbitrary: s)
  case (Cons i "is")
  then show ?case using inv_step [of s i] by (auto simp: split_beta)
qed simp

lemma run_nopanic: "inv s \<Longrightarrow> out \<in> set (fst (run step s is)) \<Longrightarrow> \<not> is_panic out"
proof (induction "is" arbitrary: s)
  case (Cons i "is")
  then show ?case using inv_step [of s i] step_nopanic [of s i] by (auto simp: split_beta)
qed simp

lemma run_start:
  "inv (snd (run step start is)) \<and> (\<forall>out \<in> set (fst (run step start is)). \<not> is_panic out)"
  using run_inv run_nopanic inv_start by blast

end

end
