(* ===== verification/Framing.thy ===== *)
theory Framing
  imports Prelude
begin

text \<open>
  The transport framing of \<^verbatim>\<open>thp/framing.rs\<close>: control bytes, CRC-32-IEEE, the
  segmentation of a transport payload into packets of a fixed size, and the reassembler.
\<close>

section \<open>Constants and control bytes\<close>

definition BLE_PACKET_SIZE :: nat where "BLE_PACKET_SIZE = 244"
definition USB_PACKET_SIZE :: nat where "USB_PACKET_SIZE = 64"
definition INIT_HEADER :: nat where "INIT_HEADER = 5"
definition CONT_HEADER :: nat where "CONT_HEADER = 3"
definition CRC_LEN :: nat where "CRC_LEN = 4"
definition CONTINUATION_CONTROL :: u8 where "CONTINUATION_CONTROL = 0x80"
definition CONTINUATION_MASK :: u8 where "CONTINUATION_MASK = 0x80"
definition BROADCAST_CID :: u16 where "BROADCAST_CID = 0xFFFF"

definition CHANNEL_ALLOCATION_REQUEST :: u8 where "CHANNEL_ALLOCATION_REQUEST = 0x40"
definition CHANNEL_ALLOCATION_RESPONSE :: u8 where "CHANNEL_ALLOCATION_RESPONSE = 0x41"
definition TRANSPORT_ERROR :: u8 where "TRANSPORT_ERROR = 0x42"
definition PING :: u8 where "PING = 0x43"
definition PONG :: u8 where "PONG = 0x44"
definition ACK :: u8 where "ACK = 0x20"
definition HANDSHAKE_INIT_REQUEST :: u8 where "HANDSHAKE_INIT_REQUEST = 0x00"
definition HANDSHAKE_INIT_RESPONSE :: u8 where "HANDSHAKE_INIT_RESPONSE = 0x01"
definition HANDSHAKE_COMPLETION_REQUEST :: u8 where "HANDSHAKE_COMPLETION_REQUEST = 0x02"
definition HANDSHAKE_COMPLETION_RESPONSE :: u8 where "HANDSHAKE_COMPLETION_RESPONSE = 0x03"
definition ENCRYPTED_TRANSPORT :: u8 where "ENCRYPTED_TRANSPORT = 0x04"
definition SEQ_BIT :: u8 where "SEQ_BIT = 0x10"
definition ACK_BIT :: u8 where "ACK_BIT = 0x08"
definition ACK_MASK :: u8 where "ACK_MASK = 0xF7"

lemmas header_defs = INIT_HEADER_def CONT_HEADER_def CRC_LEN_def

lemmas control_defs =
  CONTINUATION_CONTROL_def CONTINUATION_MASK_def CHANNEL_ALLOCATION_REQUEST_def
  CHANNEL_ALLOCATION_RESPONSE_def TRANSPORT_ERROR_def PING_def PONG_def ACK_def
  HANDSHAKE_INIT_REQUEST_def HANDSHAKE_INIT_RESPONSE_def HANDSHAKE_COMPLETION_REQUEST_def
  HANDSHAKE_COMPLETION_RESPONSE_def ENCRYPTED_TRANSPORT_def SEQ_BIT_def ACK_BIT_def ACK_MASK_def

definition with_seq :: "u8 \<Rightarrow> u8 \<Rightarrow> u8" where
  "with_seq base sq = (if sq \<noteq> 0 then base OR SEQ_BIT else base AND NOT SEQ_BIT)"

definition seq_of :: "u8 \<Rightarrow> u8" where
  "seq_of ctrl = drop_bit 4 (ctrl AND SEQ_BIT)"

definition is_ack :: "u8 \<Rightarrow> bool" where
  "is_ack ctrl = (ctrl AND ACK_MASK = ACK)"

definition ack_seq_of :: "u8 \<Rightarrow> u8" where
  "ack_seq_of ctrl = drop_bit 3 (ctrl AND ACK_BIT)"

definition ack_for :: "u8 \<Rightarrow> u8" where
  "ack_for sq = (if sq \<noteq> 0 then ACK OR ACK_BIT else ACK)"

section \<open>CRC-32-IEEE\<close>

text \<open>One round of the inner loop: \<^verbatim>\<open>mask = (crc & 1).wrapping_neg()\<close>, then shift and xor.\<close>

definition crc_round :: "u32 \<Rightarrow> u32" where
  "crc_round crc = (let mask = - (crc AND 1) in drop_bit 1 crc XOR (0xEDB88320 AND mask))"

definition crc_byte :: "u32 \<Rightarrow> u8 \<Rightarrow> u32" where
  "crc_byte crc byte = (crc_round ^^ 8) (crc XOR ucast byte)"

definition crc32_ieee :: "bytes \<Rightarrow> u32" where
  "crc32_ieee data = NOT (foldl crc_byte 0xFFFFFFFF data)"

section \<open>Segmentation\<close>

text \<open>The packet bytes before padding: the header, then the payload bytes.\<close>

definition crc_input :: "u8 \<Rightarrow> u16 \<Rightarrow> u16 \<Rightarrow> bytes \<Rightarrow> bytes" where
  "crc_input ctrl cid len payload = [ctrl] @ u16_be cid @ u16_be len @ payload"

text \<open>
  The continuation loop.  The source computes \<open>cont_capacity = packet_size - CONT_HEADER\<close>,
  which is positive because \<open>segment\<close> has already refused \<open>packet_size \<le> INIT_HEADER\<close>; the
  second conjunct of the guard is that fact.
\<close>

function cont_packets :: "nat \<Rightarrow> u16 \<Rightarrow> bytes \<Rightarrow> nat \<Rightarrow> bytes list res" where
  "cont_packets packet_size cid payload_with_crc cursor =
     (let cont_capacity = packet_size - CONT_HEADER in
      if cursor < length payload_with_crc \<and> 0 < cont_capacity then
        let tk = min cont_capacity (length payload_with_crc - cursor) in
        res_bind (slice payload_with_crc cursor (cursor + tk)) (\<lambda>chunk.
        let cont = resize packet_size 0 ([CONTINUATION_CONTROL] @ u16_be cid @ chunk) in
        res_bind (cont_packets packet_size cid payload_with_crc (cursor + tk)) (\<lambda>rest.
        Inr (cont # rest)))
      else Inr [])"
  by pat_completeness auto
termination
  by (relation "measure (\<lambda>(ps, cid, pwc, cursor). length pwc - cursor)") auto

declare cont_packets.simps [simp del]

definition segment :: "nat \<Rightarrow> u16 \<Rightarrow> u8 \<Rightarrow> bytes \<Rightarrow> bytes list res" where
  "segment packet_size cid init_control_byte transport_payload =
     (if packet_size \<le> INIT_HEADER then thp_err ''packet size too small for a THP header''
      else
        let len = length transport_payload + CRC_LEN in
        if \<not> len < 2 ^ 16 then thp_err ''transport payload exceeds the 16-bit length field''
        else
          let length_u16 = of_nat len :: u16;
              crc = crc32_ieee (crc_input init_control_byte cid length_u16 transport_payload);
              payload_with_crc = transport_payload @ u32_be crc;
              first_capacity = packet_size - INIT_HEADER;
              tk = min first_capacity (length payload_with_crc) in
          res_bind (slice payload_with_crc 0 tk) (\<lambda>chunk.
          let first = resize packet_size 0
                ([init_control_byte] @ u16_be cid @ u16_be length_u16 @ chunk) in
          res_bind (cont_packets packet_size cid payload_with_crc tk) (\<lambda>rest.
          Inr (first # rest))))"

section \<open>Reassembly\<close>

record reassembler =
  active :: bool
  control_byte :: u8
  rcid :: u16
  expected_len :: nat
  buf :: bytes

definition reassembler_new :: reassembler where
  "reassembler_new = \<lparr>active = False, control_byte = 0, rcid = 0, expected_len = 0, buf = []\<rparr>"

definition finish :: "reassembler \<Rightarrow> bytes \<Rightarrow> bytes res" where
  "finish r payload_with_crc =
     res_bind (usub (expected_len r) CRC_LEN) (\<lambda>split.
     res_bind (slice payload_with_crc 0 split) (\<lambda>transport_payload.
     res_bind (idx payload_with_crc split) (\<lambda>b0.
     res_bind (idx payload_with_crc (split + 1)) (\<lambda>b1.
     res_bind (idx payload_with_crc (split + 2)) (\<lambda>b2.
     res_bind (idx payload_with_crc (split + 3)) (\<lambda>b3.
     let crc_received = from_be [b0, b1, b2, b3] :: u32 in
     if crc32_ieee (crc_input (control_byte r) (rcid r) (of_nat (expected_len r)) transport_payload)
          \<noteq> crc_received
     then thp_err ''THP transport payload CRC mismatch''
     else Inr transport_payload))))))"

text \<open>The tail of \<open>push_packet\<close>: hand the buffer to \<open>finish\<close> once it is long enough.\<close>

definition complete :: "reassembler \<Rightarrow> bytes option res \<times> reassembler" where
  "complete r =
     (if expected_len r \<le> length (buf r) then
        let payload_with_crc = buf r; r' = r\<lparr>buf := [], active := False\<rparr> in
        (res_bind (finish r' payload_with_crc) (\<lambda>p. Inr (Some p)), r')
      else (Inr None, r))"

definition push_continuation :: "reassembler \<Rightarrow> bytes \<Rightarrow> bytes option res \<times> reassembler" where
  "push_continuation r packet =
     (if \<not> active r then (Inr None, r)
      else if length packet \<le> CONT_HEADER
      then (thp_err ''continuation packet shorter than its header'', r)
      else
        case res_bind (usub (expected_len r) (length (buf r))) (\<lambda>remaining.
             let avail = length packet - CONT_HEADER; tk = min remaining avail in
             slice packet CONT_HEADER (CONT_HEADER + tk)) of
          Inl e \<Rightarrow> (Inl e, r)
        | Inr chunk \<Rightarrow> complete (r\<lparr>buf := buf r @ chunk\<rparr>))"

definition push_initiation :: "reassembler \<Rightarrow> bytes \<Rightarrow> bytes option res \<times> reassembler" where
  "push_initiation r packet =
     (if length packet < INIT_HEADER
      then (thp_err ''initiation packet shorter than its header'', r)
      else
        let cid = from_be [packet ! 1, packet ! 2] :: u16;
            len = unat (from_be [packet ! 3, packet ! 4] :: u16) in
        if len < CRC_LEN then (thp_err ''THP length field smaller than the CRC trailer'', r)
        else
          let avail = length packet - INIT_HEADER; tk = min len avail in
          case slice packet INIT_HEADER (INIT_HEADER + tk) of
            Inl e \<Rightarrow> (Inl e, r)
          | Inr chunk \<Rightarrow>
              complete (r\<lparr>active := True, control_byte := packet ! 0, rcid := cid,
                          expected_len := len, buf := chunk\<rparr>))"

definition push_packet :: "reassembler \<Rightarrow> bytes \<Rightarrow> bytes option res \<times> reassembler" where
  "push_packet r packet =
     (if packet = [] then (thp_err ''empty THP packet'', r)
      else if packet ! 0 AND CONTINUATION_MASK = CONTINUATION_MASK
      then push_continuation r packet
      else push_initiation r packet)"

section \<open>Control byte laws\<close>

lemma seq_of_with_seq: "sq = 0 \<or> sq = 1 \<Longrightarrow> seq_of (with_seq base sq) = sq"
  by (auto simp: seq_of_def with_seq_def SEQ_BIT_def bit_simps intro!: bit_word_eqI)

lemma seq_of_cases: "seq_of ctrl = 0 \<or> seq_of ctrl = 1"
proof -
  have "seq_of ctrl = of_bool (bit ctrl 4)"
    by (rule bit_word_eqI) (auto simp: seq_of_def SEQ_BIT_def bit_simps)
  then show ?thesis by simp
qed

lemma ack_for_laws:
  "sq = 0 \<or> sq = 1 \<Longrightarrow> is_ack (ack_for sq) \<and> ack_seq_of (ack_for sq) = sq"
  by (auto simp: is_ack_def ack_for_def ack_seq_of_def control_defs)

section \<open>CRC detects bursts of up to four bytes\<close>

lemma crc_round_alt: "crc_round c = drop_bit 1 c XOR (if odd c then 0xEDB88320 else 0)"
proof -
  have "c AND 1 = of_bool (odd c)" by (simp add: and_one_eq mod_2_eq_odd)
  then show ?thesis by (simp add: crc_round_def)
qed

lemma crc_round_xor: "crc_round (x XOR y) = crc_round x XOR crc_round y"
proof -
  have "odd (x XOR y) \<longleftrightarrow> odd x \<noteq> odd y"
    by (simp add: even_xor_iff)
  then show ?thesis
    by (auto simp: crc_round_alt xor.assoc xor.left_commute xor.commute drop_bit_xor)
qed

lemma crc_round_0: "crc_round c = 0 \<longleftrightarrow> c = 0"
proof
  assume 0: "crc_round c = 0"
  then have "\<not> bit (crc_round c) 31" by simp
  then have "even c"
    by (auto simp: crc_round_alt bit_simps not_bit_ge_length split: if_splits)
  with 0 have "drop_bit 1 c = 0" by (simp add: crc_round_alt)
  then have "\<not> bit (drop_bit 1 c) i" for i by simp
  then have "\<not> bit c (Suc i)" for i by (simp add: bit_drop_bit_eq)
  with \<open>even c\<close> have "\<not> bit c n" for n
    by (cases n) (auto simp: bit_0)
  then show "c = 0" by (intro bit_word_eqI) simp
qed (simp add: crc_round_alt)

lemma crc_rounds_xor: "(crc_round ^^ n) (x XOR y) = (crc_round ^^ n) x XOR (crc_round ^^ n) y"
  by (induction n) (simp_all add: crc_round_xor)

lemma crc_rounds_inj: "(crc_round ^^ n) x = (crc_round ^^ n) y \<longleftrightarrow> x = y"
proof -
  have 0: "(crc_round ^^ n) z = 0 \<longleftrightarrow> z = 0" for z
    by (induction n) (simp_all add: crc_round_0)
  have "(crc_round ^^ n) x = (crc_round ^^ n) y \<longleftrightarrow> (crc_round ^^ n) (x XOR y) = 0"
    by (simp add: crc_rounds_xor)
  also have "\<dots> \<longleftrightarrow> x = y" by (simp add: 0)
  finally show ?thesis .
qed

lemma crc_rounds_shift:
  "n + m \<le> 32 \<Longrightarrow> (\<And>i. bit x i \<Longrightarrow> i < m) \<Longrightarrow> (crc_round ^^ n) (push_bit n x) = x"
proof (induction n)
  case (Suc n)
  have even: "even (push_bit (Suc n) x)"
    by (simp add: push_bit_eq_mult)
  have "drop_bit 1 (push_bit (Suc n) x) = push_bit n x"
    using Suc.prems by (intro bit_word_eqI) (auto simp: bit_simps not_bit_ge_length simp del: push_bit_Suc dest: Suc.prems(2))
  with even have "crc_round (push_bit (Suc n) x) = push_bit n x"
    by (simp add: crc_round_alt)
  moreover have "(crc_round ^^ n) (push_bit n x) = x"
    using Suc by auto
  ultimately show ?case by (simp add: funpow_swap1)
qed simp

text \<open>Up to four bytes enter the register as one little-endian word.\<close>

primrec le_word :: "bytes \<Rightarrow> u32" where
  "le_word [] = 0"
| "le_word (b # bs) = ucast b XOR push_bit 8 (le_word bs)"

lemma bit_le_word: "bit (le_word bs) i \<Longrightarrow> i < 8 * length bs"
proof (induction bs arbitrary: i)
  case (Cons b bs)
  then show ?case
    by (cases "i < 8") (auto simp: bit_simps dest: bit_imp_le_length dest!: Cons.IH)
qed simp

lemma le_word_inj:
  "length xs = length ys \<Longrightarrow> length xs \<le> 4 \<Longrightarrow> le_word xs = le_word ys \<Longrightarrow> xs = ys"
proof (induction xs ys rule: list_induct2)
  case (Cons x xs y ys)
  have low: "(ucast (le_word (b # bs)) :: u8) = b" for b bs
    by (rule bit_word_eqI) (auto simp: bit_simps)
  have high: "drop_bit 8 (le_word (b # bs)) = le_word bs" if "length bs \<le> 3" for b bs
    using that by (intro bit_word_eqI) (fastforce simp: bit_simps dest: bit_imp_le_length bit_le_word)
  from Cons have "length xs \<le> 3" "length ys \<le> 3" by auto
  then have "le_word xs = le_word ys"
    using Cons.prems(2) high [of xs x] high [of ys y] by metis
  moreover have "x = y" using Cons.prems(2) low by metis
  ultimately show ?case using Cons by simp
qed simp

lemma foldl_crc_byte:
  "length bs \<le> 4 \<Longrightarrow> foldl crc_byte s bs = (crc_round ^^ (8 * length bs)) (s XOR le_word bs)"
proof (induction bs arbitrary: s)
  case (Cons b bs)
  have "(crc_round ^^ 8) (push_bit 8 (le_word bs)) = le_word bs"
    using Cons.prems bit_le_word [of bs] by (intro crc_rounds_shift [where m = 24]) fastforce+
  then have "crc_byte s b XOR le_word bs = (crc_round ^^ 8) (s XOR le_word (b # bs))"
    by (simp add: crc_byte_def crc_rounds_xor xor.assoc)
  then show ?case
    using Cons by (simp add: funpow_add add.commute [of 8])
qed simp

lemma foldl_crc_inj_state: "foldl crc_byte s bs = foldl crc_byte t bs \<longleftrightarrow> s = t"
  by (induction bs arbitrary: s t) (auto simp: crc_byte_def crc_rounds_inj)

lemma crc32_burst:
  assumes "length a = length b" "length a \<le> 4" "a \<noteq> b"
  shows "crc32_ieee (pre @ a @ suf) \<noteq> crc32_ieee (pre @ b @ suf)"
proof -
  let ?s = "foldl crc_byte 0xFFFFFFFF pre"
  have "foldl crc_byte ?s a \<noteq> foldl crc_byte ?s b"
    using assms le_word_inj [of a b] by (auto simp: foldl_crc_byte crc_rounds_inj)
  then show ?thesis
    by (simp add: crc32_ieee_def foldl_crc_inj_state)
qed

section \<open>The reassembler's invariant\<close>

definition reasm_ok :: "reassembler \<Rightarrow> bool" where
  "reasm_ok r \<longleftrightarrow> (active r \<longrightarrow> length (buf r) < expected_len r \<and> CRC_LEN \<le> expected_len r)"

lemma finish_nopanic:
  "CRC_LEN \<le> expected_len r \<Longrightarrow> expected_len r \<le> length pwc \<Longrightarrow> \<not> is_panic (finish r pwc)"
  by (simp add: finish_def slice_simps header_defs)

lemma complete_ok:
  assumes "CRC_LEN \<le> expected_len r"
  shows "reasm_ok (snd (complete r)) \<and> \<not> is_panic (fst (complete r))"
  using assms finish_nopanic [of "r\<lparr>buf := [], active := False\<rparr>" "buf r"]
  by (auto simp: complete_def reasm_ok_def Let_def)

lemma push_continuation_ok:
  assumes "reasm_ok r"
  shows "reasm_ok (snd (push_continuation r p)) \<and> \<not> is_panic (fst (push_continuation r p))"
  using assms complete_ok by (auto simp: push_continuation_def reasm_ok_def slice_simps Let_def)

lemma push_initiation_ok:
  assumes "reasm_ok r"
  shows "reasm_ok (snd (push_initiation r p)) \<and> \<not> is_panic (fst (push_initiation r p))"
  using assms complete_ok by (auto simp: push_initiation_def Let_def slice_simps)

lemma push_packet_ok:
  "reasm_ok r \<Longrightarrow> reasm_ok (snd (push_packet r p)) \<and> \<not> is_panic (fst (push_packet r p))"
  by (simp add: push_packet_def push_continuation_ok push_initiation_ok)

interpretation reasm: safe_machine push_packet reassembler_new reasm_ok
  by unfold_locales (auto simp: push_packet_ok, simp add: reasm_ok_def reassembler_new_def)

section \<open>Segmentation, then reassembly\<close>

text \<open>The packet at \<open>cursor\<close>, and the loop unfolded once.\<close>

definition cont_packet :: "nat \<Rightarrow> u16 \<Rightarrow> bytes \<Rightarrow> bytes" where
  "cont_packet ps cid chunk = resize ps 0 ([CONTINUATION_CONTROL] @ u16_be cid @ chunk)"

lemma cont_packets_done: "length pwc \<le> c \<Longrightarrow> cont_packets ps cid pwc c = Inr []"
  by (subst cont_packets.simps) simp

lemma cont_packets_more:
  assumes "c < length pwc" "CONT_HEADER < ps"
  shows "cont_packets ps cid pwc c =
    res_bind (cont_packets ps cid pwc (c + min (ps - CONT_HEADER) (length pwc - c))) (\<lambda>rest.
    Inr (cont_packet ps cid (take (ps - CONT_HEADER) (drop c pwc)) # rest))"
  using assms by (subst cont_packets.simps) (simp add: Let_def slice_simps cont_packet_def min_def)

text \<open>Induction along the cursor of the continuation loop.\<close>

lemma cursor_induct [consumes 1, case_names stop more]:
  assumes "CONT_HEADER < ps"
    and "\<And>c. length pwc \<le> c \<Longrightarrow> P c"
    and "\<And>c. c < length pwc \<Longrightarrow> P (c + min (ps - CONT_HEADER) (length pwc - c)) \<Longrightarrow> P c"
  shows "P c"
proof (induction "length pwc - c" arbitrary: c rule: less_induct)
  case less
  show ?case
  proof (cases "c < length pwc")
    case True
    have "P (c + min (ps - CONT_HEADER) (length pwc - c))"
      by (rule less) (use True assms(1) in linarith)
    with True show ?thesis by (rule assms(3))
  qed (use assms(2) in simp)
qed

lemma cont_packets_shape:
  assumes "CONT_HEADER < ps"
  shows "\<exists>qs. cont_packets ps cid pwc c = Inr qs \<and> (\<forall>q \<in> set qs. length q = ps)"
  using assms
proof (induction c rule: cursor_induct [where pwc = pwc])
  case (more c)
  with assms show ?case by (auto simp: cont_packets_more cont_packet_def)
qed (simp add: cont_packets_done)

text \<open>Feed packets until the first completed payload or error; the rest is returned.\<close>

fun feed :: "reassembler \<Rightarrow> bytes list \<Rightarrow> bytes option res \<times> reassembler \<times> bytes list" where
  "feed r [] = (Inr None, r, [])"
| "feed r (p # ps) =
     (case push_packet r p of
        (Inr None, r') \<Rightarrow> feed r' ps
      | (out, r') \<Rightarrow> (out, r', ps))"

lemma finish_frame [simp]:
  "finish (r\<lparr>buf := b\<rparr>) p = finish r p" "finish (r\<lparr>active := a\<rparr>) p = finish r p"
  by (simp_all add: finish_def)

lemma feed_complete:
  assumes "push_packet r p = complete r1" "expected_len r1 \<le> length (buf r1)"
  shows "feed r (p # ps) =
    (res_bind (finish r1 (buf r1)) (\<lambda>p. Inr (Some p)), r1\<lparr>buf := [], active := False\<rparr>, ps)"
  using assms by (cases "finish r1 (buf r1)") (simp_all add: complete_def Let_def)

lemma push_cont_packet:
  assumes "active r" "buf r = take c pwc" "expected_len r = length pwc" "c < length pwc"
    and "CONT_HEADER < ps"
  shows "push_packet r (cont_packet ps cid (take (ps - CONT_HEADER) (drop c pwc))) =
    complete (r\<lparr>buf := take (c + min (ps - CONT_HEADER) (length pwc - c)) pwc\<rparr>)"
proof -
  let ?chunk = "take (ps - CONT_HEADER) (drop c pwc)"
  let ?p = "cont_packet ps cid ?chunk"
  have len: "length ?p = ps" by (simp add: cont_packet_def)
  have hd: "?p ! 0 = CONTINUATION_CONTROL" "?p \<noteq> []"
    using assms(5) by (auto simp: cont_packet_def resize_eq_append header_defs)
  have "take (min (length pwc - c) (ps - CONT_HEADER)) (drop CONT_HEADER ?p) = ?chunk"
    using assms(5) by (simp add: cont_packet_def resize_eq_append min_def header_defs)
  moreover have "take c pwc @ ?chunk = take (c + min (ps - CONT_HEADER) (length pwc - c)) pwc"
    using assms(4) by (simp add: take_add min_def)
  ultimately show ?thesis
    using assms hd len
    by (simp add: push_packet_def push_continuation_def Let_def slice_simps control_defs
        header_defs)
qed

lemma feed_cont_packets:
  assumes "CONT_HEADER < ps" "cont_packets ps cid pwc c = Inr qs"
    and "active r" "expected_len r = length pwc" "buf r = take c pwc" "c < length pwc"
  shows "feed r qs = (let r' = r\<lparr>buf := [], active := False\<rparr> in
    (res_bind (finish r' pwc) (\<lambda>p. Inr (Some p)), r', []))"
  using assms
proof (induction c arbitrary: qs r rule: cursor_induct [where pwc = pwc])
  case (more c)
  define c' where "c' = c + min (ps - CONT_HEADER) (length pwc - c)"
  from more.prems more.hyps assms(1) obtain rest
    where rest: "cont_packets ps cid pwc c' = Inr rest"
      and qs: "qs = cont_packet ps cid (take (ps - CONT_HEADER) (drop c pwc)) # rest"
    by (auto simp: cont_packets_more res_bind_eq_Inr c'_def)
  have push: "push_packet r (hd qs) = complete (r\<lparr>buf := take c' pwc\<rparr>)"
    using more.prems assms(1) by (simp add: qs push_cont_packet c'_def)
  show ?case
  proof (cases "c' < length pwc")
    case True
    with push more.prems have "push_packet r (hd qs) = (Inr None, r\<lparr>buf := take c' pwc\<rparr>)"
      by (simp add: complete_def)
    moreover have "feed (r\<lparr>buf := take c' pwc\<rparr>) rest = (let r' = r\<lparr>buf := [], active := False\<rparr> in
        (res_bind (finish r' pwc) (\<lambda>p. Inr (Some p)), r', []))"
      using more.IH [folded c'_def, OF rest, of "r\<lparr>buf := take c' pwc\<rparr>"] more.prems True
      by simp
    ultimately show ?thesis by (simp add: qs)
  next
    case False
    with rest have "rest = []" by (simp add: cont_packets_done)
    with False push more.prems show ?thesis
      using feed_complete [OF push, of rest] by (simp add: qs Let_def)
  qed
qed simp

text \<open>Segmenting succeeds exactly when the sizes fit, and what it returns.\<close>

definition fits :: "nat \<Rightarrow> bytes \<Rightarrow> bool" where
  "fits ps payload \<longleftrightarrow> INIT_HEADER < ps \<and> length payload + CRC_LEN < 2 ^ 16"

definition with_crc :: "u16 \<Rightarrow> u8 \<Rightarrow> bytes \<Rightarrow> bytes" where
  "with_crc cid ctrl payload =
     payload @ u32_be (crc32_ieee (crc_input ctrl cid (of_nat (length payload + CRC_LEN)) payload))"

definition first_packet :: "nat \<Rightarrow> u16 \<Rightarrow> u8 \<Rightarrow> bytes \<Rightarrow> bytes" where
  "first_packet ps cid ctrl pwc = resize ps 0
     ([ctrl] @ u16_be cid @ u16_be (of_nat (length pwc)) @ take (ps - INIT_HEADER) pwc)"

lemma length_with_crc [simp]: "length (with_crc cid ctrl payload) = length payload + CRC_LEN"
  by (simp add: with_crc_def header_defs)

lemma segment_eq:
  assumes "fits ps payload"
  shows "segment ps cid ctrl payload =
    (let pwc = with_crc cid ctrl payload in
     res_bind (cont_packets ps cid pwc (min (ps - INIT_HEADER) (length pwc))) (\<lambda>rest.
     Inr (first_packet ps cid ctrl pwc # rest)))"
  using assms
  by (simp add: segment_def fits_def Let_def slice_simps first_packet_def with_crc_def min_def
      header_defs)

lemma segment_not_fits: "\<not> fits ps payload \<Longrightarrow> is_err (segment ps cid ctrl payload)"
  by (auto simp: segment_def fits_def)

lemma fits_cont: "fits ps payload \<Longrightarrow> CONT_HEADER < ps"
  by (simp add: fits_def header_defs)

lemma segment_ok:
  assumes "fits ps payload"
  obtains packets where "segment ps cid ctrl payload = Inr packets"
    and "\<forall>p \<in> set packets. length p = ps"
proof -
  let ?pwc = "with_crc cid ctrl payload"
  obtain rest where "cont_packets ps cid ?pwc (min (ps - INIT_HEADER) (length ?pwc)) = Inr rest"
      "\<forall>q \<in> set rest. length q = ps"
    using cont_packets_shape [OF fits_cont [OF assms], of cid ?pwc] by blast
  with assms have "segment ps cid ctrl payload = Inr (first_packet ps cid ctrl ?pwc # rest)"
    by (simp add: segment_eq Let_def)
  with \<open>\<forall>q \<in> set rest. length q = ps\<close> show ?thesis
    by (intro that [of "first_packet ps cid ctrl ?pwc # rest"]) (auto simp: first_packet_def)
qed

lemma segment_nopanic [nopanic]: "\<not> is_panic (segment ps ci ctrl payload)"
proof (cases "fits ps payload")
  case True
  then obtain packets where "segment ps ci ctrl payload = Inr packets" using segment_ok by blast
  then show ?thesis by simp
qed (auto simp: segment_def fits_def)

lemma finish_with_crc:
  assumes "control_byte r = ctrl" "rcid r = cid" "expected_len r = length payload + CRC_LEN"
  shows "finish r (with_crc cid ctrl payload) = Inr payload"
  using assms
  by (simp add: finish_def slice_simps with_crc_def header_defs nth_append be_simps
      numeral_eq_Suc)

lemma push_first_packet:
  assumes "fits ps payload" "\<not> bit ctrl 7"
  shows "push_packet r (first_packet ps cid ctrl (with_crc cid ctrl payload)) =
    complete (r\<lparr>active := True, control_byte := ctrl, rcid := cid,
      expected_len := length payload + CRC_LEN,
      buf := take (ps - INIT_HEADER) (with_crc cid ctrl payload)\<rparr>)"
proof -
  let ?pwc = "with_crc cid ctrl payload"
  let ?p = "first_packet ps cid ctrl ?pwc"
  let ?h = "[ctrl] @ u16_be cid @ u16_be (of_nat (length ?pwc))"
  define fill where "fill = replicate (ps - (INIT_HEADER + min (length ?pwc) (ps - INIT_HEADER))) (0::u8)"
  have p: "?p = ?h @ take (ps - INIT_HEADER) ?pwc @ fill"
    using assms(1) unfolding first_packet_def fill_def
    by (subst resize_eq_append) (auto simp: fits_def header_defs)
  have ctrl: "\<not> ctrl AND CONTINUATION_MASK = CONTINUATION_MASK"
    using assms(2) by (auto simp: CONTINUATION_MASK_def dest: arg_cong [where f = "\<lambda>w. bit w 7"] simp: bit_simps)
  have cid: "from_be [?p ! 1, ?p ! 2] = cid"
    by (simp add: p nth_append be_simps numeral_eq_Suc)
  have "from_be [?p ! 3, ?p ! 4] = (of_nat (length ?pwc) :: u16)"
    by (simp add: p nth_append be_simps numeral_eq_Suc)
  moreover have "unat (of_nat (length ?pwc) :: u16) = length ?pwc"
    by (rule unat_of_nat_small) (use assms(1) in \<open>simp add: fits_def\<close>)
  ultimately have len: "unat (from_be [?p ! 3, ?p ! 4] :: u16) = length payload + CRC_LEN"
    by (simp only: length_with_crc)
  have plen: "length ?p = ps" by (simp add: first_packet_def)
  have "take (min (length payload + CRC_LEN) (ps - INIT_HEADER)) (drop INIT_HEADER ?p)
      = take (ps - INIT_HEADER) ?pwc"
    by (simp add: p header_defs min_def)
  then have "slice ?p INIT_HEADER (INIT_HEADER + min (length payload + CRC_LEN) (ps - INIT_HEADER))
      = Inr (take (ps - INIT_HEADER) ?pwc)"
    using assms(1) plen by (subst slice_ok) (auto simp: fits_def)
  moreover have "?p ! 0 = ctrl" "?p \<noteq> []" by (simp_all add: p)
  ultimately show ?thesis
    using assms ctrl cid len plen
    by (simp add: push_packet_def push_initiation_def Let_def fits_def header_defs)
qed

lemma feed_segment:
  assumes "fits ps payload" "\<not> bit ctrl 7" "segment ps cid ctrl payload = Inr packets"
  shows "feed r packets = (Inr (Some payload),
    r\<lparr>active := False, control_byte := ctrl, rcid := cid,
      expected_len := length payload + CRC_LEN, buf := []\<rparr>, [])"
proof -
  let ?pwc = "with_crc cid ctrl payload"
  define c where "c = min (ps - INIT_HEADER) (length ?pwc)"
  define r1 where "r1 = r\<lparr>active := True, control_byte := ctrl, rcid := cid,
      expected_len := length payload + CRC_LEN, buf := take c ?pwc\<rparr>"
  from assms obtain rest where rest: "cont_packets ps cid ?pwc c = Inr rest"
    and packets: "packets = first_packet ps cid ctrl ?pwc # rest"
    by (auto simp: segment_eq Let_def res_bind_eq_Inr c_def)
  have push: "push_packet r (first_packet ps cid ctrl ?pwc) = complete r1"
    using push_first_packet [OF assms(1,2)] by (simp add: r1_def c_def min_def)
  show ?thesis
  proof (cases "c < length ?pwc")
    case True
    have "feed r packets = feed r1 rest"
      using True push by (simp add: packets complete_def r1_def)
    also have "\<dots> = (let r' = r1\<lparr>buf := [], active := False\<rparr> in
        (res_bind (finish r' ?pwc) (\<lambda>p. Inr (Some p)), r', []))"
      by (rule feed_cont_packets [OF fits_cont [OF assms(1)] rest]) (use True in \<open>simp_all add: r1_def\<close>)
    finally show ?thesis by (simp add: Let_def r1_def finish_with_crc)
  next
    case False
    then have c: "length ?pwc \<le> c" "rest = []"
      using rest by (simp_all add: cont_packets_done)
    with feed_complete [OF push, of rest] show ?thesis
      by (simp add: packets r1_def finish_with_crc)
  qed
qed

lemma cont_packets_count:
  assumes "CONT_HEADER < ps" "cont_packets ps cid pwc c = Inr qs"
  shows "length qs = (length pwc - c + (ps - CONT_HEADER) - 1) div (ps - CONT_HEADER)"
  using assms
proof (induction c arbitrary: qs rule: cursor_induct [where pwc = pwc])
  case (stop c)
  then show ?case using assms(1) by (auto simp: cont_packets_done)
next
  case (more c)
  define k where "k = ps - CONT_HEADER"
  define c' where "c' = c + min k (length pwc - c)"
  have k: "0 < k" using assms(1) by (simp add: k_def)
  from more obtain rest where rest: "cont_packets ps cid pwc c' = Inr rest" "length qs = Suc (length rest)"
    using assms(1) by (auto simp: cont_packets_more res_bind_eq_Inr c'_def k_def)
  have IH: "length rest = (length pwc - c' + k - 1) div k"
    using more.IH rest(1) unfolding c'_def k_def by blast
  have "length pwc - c + k - 1 = (length pwc - c' + k - 1) + k \<or> length pwc - c \<le> k"
    using more.hyps by (auto simp: c'_def min_def)
  then show ?case
  proof
    assume eq: "length pwc - c + k - 1 = (length pwc - c' + k - 1) + k"
    have suc: "(n + k) div k = Suc (n div k)" for n
      using k div_add_self2 [of k n] by simp
    have "length qs = ((length pwc - c' + k - 1) + k) div k" by (simp only: suc IH rest(2))
    then show ?thesis by (simp only: eq flip: k_def)
  next
    assume le: "length pwc - c \<le> k"
    then have "length rest = 0" using IH k by (simp add: c'_def)
    moreover have "(length pwc - c + k - 1) div k = 1"
      using le more.hyps k by (intro div_nat_eqI) auto
    ultimately show ?thesis using rest by (simp only: flip: k_def)
  qed
qed

section \<open>Properties\<close>

text \<open>
  C1: a transport payload that fits is segmented into packets of exactly \<open>packet_size\<close> bytes, and
  feeding them, in order, to a reassembler in any state (a fresh one, or one in the middle of
  another message, which the new initiation packet resets) yields exactly that payload, with the
  last packet and not before, and leaves the reassembler idle.
\<close>

theorem segment_reassembles:
  assumes "fits packet_size payload" "\<not> bit ctrl 7"
  shows "\<exists>packets r'. segment packet_size cid ctrl payload = Inr packets
    \<and> (\<forall>p \<in> set packets. length p = packet_size)
    \<and> feed r packets = (Inr (Some payload), r', [])
    \<and> \<not> active r' \<and> control_byte r' = ctrl \<and> rcid r' = cid"
proof -
  obtain packets where "segment packet_size cid ctrl payload = Inr packets"
      "\<forall>p \<in> set packets. length p = packet_size"
    using segment_ok [OF assms(1)] by blast
  with feed_segment [OF assms] show ?thesis by fastforce
qed

theorem segment_reassembles_witness:
  "\<exists>packets r'. segment 7 0x1234 0x04 [1, 2, 3] = Inr packets
    \<and> (\<forall>p \<in> set packets. length p = 7)
    \<and> feed reassembler_new packets = (Inr (Some [1, 2, 3]), r', [])
    \<and> \<not> active r' \<and> control_byte r' = 0x04 \<and> rcid r' = 0x1234"
  by (rule segment_reassembles) (simp_all add: fits_def header_defs)

text \<open>
  C23: segmentation succeeds exactly when the packet size leaves room after the initiation header
  and the payload with its CRC fits the 16-bit length field, and then it produces one initiation
  packet and the least number of continuation packets that hold the rest; it never panics.
\<close>

theorem segment_total:
  "\<not> is_panic (segment packet_size cid ctrl payload)
   \<and> (is_err (segment packet_size cid ctrl payload) \<longleftrightarrow>
        packet_size \<le> 5 \<or> 65536 \<le> length payload + 4)
   \<and> (case segment packet_size cid ctrl payload of Inl _ \<Rightarrow> True | Inr packets \<Rightarrow>
        length packets = 1 + (length payload + 4 - (packet_size - 5) + (packet_size - 3) - 1)
                               div (packet_size - 3))"
proof (cases "fits packet_size payload")
  case True
  let ?pwc = "with_crc cid ctrl payload"
  define c where "c = min (packet_size - INIT_HEADER) (length ?pwc)"
  obtain packets where packets: "segment packet_size cid ctrl payload = Inr packets"
    using segment_ok [OF True] by blast
  then obtain rest where rest: "cont_packets packet_size cid ?pwc c = Inr rest"
    and "length packets = Suc (length rest)"
    by (auto simp: segment_eq [OF True] Let_def res_bind_eq_Inr c_def)
  moreover have "length ?pwc - c = length payload + 4 - (packet_size - 5)"
    by (simp add: c_def header_defs min_def)
  ultimately show ?thesis
    using packets cont_packets_count [OF fits_cont [OF True] rest] True
    by (simp add: fits_def header_defs)
next
  case False
  then show ?thesis
    by (auto simp: segment_def fits_def header_defs)
qed


text \<open>
  C21: the CRC check of the reassembler rejects every corruption confined to four consecutive bytes
  of the payload, for every header and every payload length.
\<close>

theorem crc_detects_burst:
  assumes "expected_len r = length (pre @ a @ suf) + CRC_LEN"
    and "length a = length b" "length a \<le> 4" "a \<noteq> b"
  shows "finish r ((pre @ b @ suf) @ u32_be (crc32_ieee
      (crc_input (control_byte r) (rcid r) (of_nat (expected_len r)) (pre @ a @ suf))))
    = thp_err ''THP transport payload CRC mismatch''"
proof -
  let ?h = "[control_byte r] @ u16_be (rcid r) @ u16_be (of_nat (expected_len r))"
  have "crc32_ieee ((?h @ pre) @ b @ suf) \<noteq> crc32_ieee ((?h @ pre) @ a @ suf)"
    by (rule crc32_burst) (use assms(2-4) in auto)
  then show ?thesis
    using assms(1,2)
    by (simp add: finish_def slice_simps crc_input_def header_defs nth_append be_simps numeral_eq_Suc)
qed

theorem crc_detects_burst_witness:
  "finish \<lparr>active = False, control_byte = 4, rcid = 1, expected_len = 7, buf = []\<rparr>
      (([9] @ [7, 7] @ []) @ u32_be (crc32_ieee (crc_input 4 1 7 ([9] @ [1, 2] @ []))))
    = thp_err ''THP transport payload CRC mismatch''"
  using crc_detects_burst [where pre = "[9]" and a = "[1, 2]" and b = "[7, 7]" and suf = "[]"
      and r = "\<lparr>active = False, control_byte = 4, rcid = 1, expected_len = 7, buf = []\<rparr>"]
  by (simp add: header_defs)

end
