(* ===== verification/Proto.thy ===== *)
theory Proto
  imports Prelude
begin

text \<open>
  The protobuf messages of the THP layer.  Their Rust types and codecs are generated at build
  time from \<^verbatim>\<open>proto/*.proto\<close> by \<^verbatim>\<open>prost\<close>, so the codecs are parameters: an
  encoder takes the fields the crate sets (all others are at their default), a decoder returns
  the fields the crate reads or the decode error's text.
\<close>

record thp_device_properties =
  internal_model :: string
  protocol_version_major :: u32
  protocol_version_minor :: u32
  pairing_methods :: "int list"

record failure =
  failure_code :: "int option"
  failure_message :: "string option"

record features =
  f_device_id :: "string option"
  f_model :: "string option"
  f_major_version :: u32
  f_minor_version :: u32
  f_patch_version :: u32
  f_initialized :: "bool option"

record proto =
  dec_device_properties :: "bytes \<Rightarrow> string + thp_device_properties"
  enc_noise_payload :: "bytes option \<Rightarrow> bytes"
  dec_noise_payload :: "bytes \<Rightarrow> string + bytes option"
  enc_button_ack :: bytes
  dec_failure :: "bytes \<Rightarrow> string + failure"
  enc_create_new_session :: "string option \<Rightarrow> bool option \<Rightarrow> bool option \<Rightarrow> bytes"
  enc_pairing_request :: "string \<Rightarrow> string \<Rightarrow> bytes"
  enc_select_method :: "int \<Rightarrow> bytes"
  dec_code_entry_commitment :: "bytes \<Rightarrow> string + bytes"
  enc_code_entry_challenge :: "bytes \<Rightarrow> bytes"
  dec_code_entry_cpace_trezor :: "bytes \<Rightarrow> string + bytes"
  enc_code_entry_cpace_host_tag :: "bytes \<Rightarrow> bytes \<Rightarrow> bytes"
  dec_code_entry_secret :: "bytes \<Rightarrow> string + bytes"
  enc_credential_request :: "bytes \<Rightarrow> bytes"
  dec_credential_response :: "bytes \<Rightarrow> string + bytes"
  enc_get_features :: bytes
  dec_features :: "bytes \<Rightarrow> string + features"

text \<open>A decoder's error, wrapped as the crate does: \<^verbatim>\<open>format!("<what> decode: {e}")\<close>.\<close>

definition decoded :: "string \<Rightarrow> string + 'a \<Rightarrow> 'a res" where
  "decoded what r = (case r of Inl e \<Rightarrow> thp_err (what @ e) | Inr a \<Rightarrow> Inr a)"

lemma decoded_simps [simp]: "decoded w (Inr a) = Inr a" "decoded w (Inl e) = thp_err (w @ e)"
  by (simp_all add: decoded_def)

lemma decoded_nopanic [simp, nopanic]: "\<not> is_panic (decoded w r)"
  by (simp add: decoded_def split: sum.splits)

text \<open>One concrete codec, for evaluating the definitions: a message is its fields' bytes.\<close>

definition demo_proto :: proto where
  "demo_proto = \<lparr>
     dec_device_properties = (\<lambda>b. if b = [] then Inl ''empty'' else
       Inr \<lparr>internal_model = ''T3W1'', protocol_version_major = 2, protocol_version_minor = 0, pairing_methods = [2]\<rparr>),
     enc_noise_payload = case_option [] (\<lambda>c. 1 # c),
     dec_noise_payload = (\<lambda>b. Inr (case b of [] \<Rightarrow> None | _ # c \<Rightarrow> Some c)),
     enc_button_ack = [],
     dec_failure = (\<lambda>b. case b of [] \<Rightarrow> Inl ''empty'' | c # _ \<Rightarrow> Inr \<lparr>failure_code = Some (uint c), failure_message = None\<rparr>),
     enc_create_new_session = (\<lambda>p d k. []),
     enc_pairing_request = (\<lambda>h a. []), enc_select_method = (\<lambda>m. [word_of_int m]),
     dec_code_entry_commitment = Inr, enc_code_entry_challenge = id,
     dec_code_entry_cpace_trezor = Inr, enc_code_entry_cpace_host_tag = (@),
     dec_code_entry_secret = Inr, enc_credential_request = id, dec_credential_response = Inr,
     enc_get_features = [],
     dec_features = (\<lambda>b. Inr \<lparr>f_device_id = None, f_model = None, f_major_version = 2,
       f_minor_version = 9, f_patch_version = 0, f_initialized = Some True\<rparr>)\<rparr>"

end
