(* ===== verification/Host_IO.thy ===== *)
theory Host_IO
  imports Prelude
begin

text \<open>
  The foreign side of the crate: the host's transport callbacks (\<^verbatim>\<open>transport.rs\<close>), the
  platform random source and the pairing-code prompt (\<^verbatim>\<open>thp/pairing.rs\<close>).  Their code is
  not part of the crate, so they are parameters over an abstract world \<open>'w\<close>: each call reads and
  changes the world.  Asynchronous code of the crate is a function of its state that may not
  return (\<open>None\<close>), fail (\<open>Inl\<close>) or return a value (\<open>Inr\<close>); the state survives a failure.
\<close>

section \<open>Foreign callbacks\<close>

datatype transport_error = Disconnected string | Timeout string | Io string

definition transport_error_to_string :: "transport_error \<Rightarrow> string" where
  "transport_error_to_string e = (case e of
     Disconnected reason \<Rightarrow> ''transport disconnected: '' @ reason
   | Timeout reason \<Rightarrow> ''transport timed out: '' @ reason
   | Io reason \<Rightarrow> ''transport I/O error: '' @ reason)"

definition from_transport_error :: "transport_error \<Rightarrow> trezor_error" where
  "from_transport_error e = Transport (transport_error_to_string e)"

record 'w host =
  write_chunk :: "bytes \<Rightarrow> 'w \<Rightarrow> (transport_error + unit) \<times> 'w"
  read_chunk :: "'w \<Rightarrow> (transport_error + bytes) \<times> 'w"
  getrandom :: "nat \<Rightarrow> 'w \<Rightarrow> (string + bytes) \<times> 'w"
  request_code :: "'w \<Rightarrow> string \<times> 'w"

text \<open>The smallest host: it accepts every packet, delivers none and has only zero bytes to draw.\<close>

definition demo_host :: "unit host" where
  "demo_host = \<lparr>write_chunk = (\<lambda>p w. (Inr (), w)), read_chunk = (\<lambda>w. (Inl (Io ''empty''), w)),
     getrandom = (\<lambda>n w. (Inr (replicate n 0), w)), request_code = (\<lambda>w. ([], w))\<rparr>"

section \<open>Effects\<close>

type_synonym ('s, 'a) io = "'s \<Rightarrow> ('a res \<times> 's) option"

definition io_return :: "'a \<Rightarrow> ('s, 'a) io" where
  "io_return a = (\<lambda>s. Some (Inr a, s))"

definition io_fail :: "fault \<Rightarrow> ('s, 'a) io" where
  "io_fail e = (\<lambda>s. Some (Inl e, s))"

definition io_res :: "'a res \<Rightarrow> ('s, 'a) io" where
  "io_res r = (\<lambda>s. Some (r, s))"

definition io_bind :: "('s, 'a) io \<Rightarrow> ('a \<Rightarrow> ('s, 'b) io) \<Rightarrow> ('s, 'b) io" where
  "io_bind m f = (\<lambda>s. Option.bind (m s) (\<lambda>(r, s').
     case r of Inl e \<Rightarrow> Some (Inl e, s') | Inr a \<Rightarrow> f a s'))"

definition io_get :: "('s \<Rightarrow> 'a) \<Rightarrow> ('s, 'a) io" where
  "io_get f = (\<lambda>s. Some (Inr (f s), s))"

definition io_modify :: "('s \<Rightarrow> 's) \<Rightarrow> ('s, unit) io" where
  "io_modify f = (\<lambda>s. Some (Inr (), f s))"

text \<open>
  A loop: run the body; \<open>Inl\<close> of its value goes round again (\<^verbatim>\<open>continue\<close>), \<open>Inr\<close> leaves
  with the result.  A loop that never leaves has no result.
\<close>

partial_function (option) io_loop ::
    "('x \<Rightarrow> ('s, 'x + 'a) io) \<Rightarrow> 'x \<Rightarrow> 's \<Rightarrow> ('a res \<times> 's) option" where
  "io_loop body x s =
     Option.bind (body x s) (\<lambda>(r, s').
       case r of Inl e \<Rightarrow> Some (Inl e, s')
       | Inr (Inl x') \<Rightarrow> io_loop body x' s'
       | Inr (Inr a) \<Rightarrow> Some (Inr a, s'))"

lemma io_apply [simp]:
  "io_return a s = Some (Inr a, s)"
  "io_fail e s = Some (Inl e, s)"
  "io_res r s = Some (r, s)"
  "io_get f s = Some (Inr (f s), s)"
  "io_modify g s = Some (Inr (), g s)"
  by (simp_all add: io_return_def io_fail_def io_res_def io_get_def io_modify_def)

lemma io_bind_Some:
  "m s = Some (Inr a, s') \<Longrightarrow> io_bind m f s = f a s'"
  "m s = Some (Inl e, s') \<Longrightarrow> io_bind m f s = Some (Inl e, s')"
  "m s = None \<Longrightarrow> io_bind m f s = None"
  by (simp_all add: io_bind_def)

lemma io_bind_assoc: "io_bind (io_bind m f) g = io_bind m (\<lambda>x. io_bind (f x) g)"
  by (auto simp: io_bind_def fun_eq_iff split: option.splits sum.splits bind_splits)

lemma io_bind_return [simp]: "io_bind (io_return a) f = f a"
  by (simp add: io_bind_def fun_eq_iff)

lemma io_bind_simps [simp]:
  "io_bind (io_get g) k s = k (g s) s"
  "io_bind (io_modify h) k1 s = k1 () (h s)"
  "io_bind (io_res (Inr a)) k2 s = k2 a s"
  "io_bind (io_res (Inl e)) k3 s = Some (Inl e, s)"
  "io_bind (io_fail e) k4 s = Some (Inl e, s)"
  by (simp_all add: io_bind_def)

lemma io_loop_leave: "body x s = Some (Inr (Inr a), s') \<Longrightarrow> io_loop body x s = Some (Inr a, s')"
  by (simp add: io_loop.simps)

lemma io_loop_again:
  "body x s = Some (Inr (Inl x'), s') \<Longrightarrow> io_loop body x s = io_loop body x' s'"
  by (subst io_loop.simps) simp

lemma io_loop_fail: "body x s = Some (Inl e, s') \<Longrightarrow> io_loop body x s = Some (Inl e, s')"
  by (simp add: io_loop.simps)

lemma io_loop_induct:
  assumes "io_loop body x s = Some y"
    and "\<And>f b x s y. (\<And>b x s y. f b x s = Some y \<Longrightarrow> P b x s y) \<Longrightarrow>
      Option.bind (b x s) (\<lambda>(r, s'). case r of Inl e \<Rightarrow> Some (Inl e, s')
        | Inr (Inl x') \<Rightarrow> f b x' s' | Inr (Inr a) \<Rightarrow> Some (Inr a, s')) = Some y \<Longrightarrow> P b x s y"
  shows "P body x s y"
proof -
  have "(case ((body, x), s) of (x, xa) \<Rightarrow> (case x of (x, xa) \<Rightarrow> io_loop x xa) xa) = Some y"
    using assms(1) by simp
  with io_loop.raw_induct [where P = P] assms(2)
  have "(case ((body, x), s) of (x, xa) \<Rightarrow> (case x of (x, xa) \<Rightarrow> P x xa) xa) y"
    by blast
  then show ?thesis by simp
qed

text \<open>
  Partial correctness of a loop: an invariant on the loop variable and the state that every
  round keeps, a postcondition of every round that leaves, and one of every round that fails.
\<close>

lemma io_loop_rule:
  assumes "io_loop body x s = Some (r, t)" and "I x s"
    and "\<And>x s x' s'. I x s \<Longrightarrow> body x s = Some (Inr (Inl x'), s') \<Longrightarrow> I x' s'"
    and "\<And>x s a s'. I x s \<Longrightarrow> body x s = Some (Inr (Inr a), s') \<Longrightarrow> Q (Inr a) s'"
    and "\<And>x s e s'. I x s \<Longrightarrow> body x s = Some (Inl e, s') \<Longrightarrow> Q (Inl e) s'"
  shows "Q r t"
proof -
  have "body = body \<longrightarrow> I x s \<longrightarrow> Q (fst (r, t)) (snd (r, t))"
    using assms(1)
  proof (rule io_loop_induct [where P = "\<lambda>b x s rt. b = body \<longrightarrow> I x s \<longrightarrow> Q (fst rt) (snd rt)"])
    fix f b x s rt
    assume "\<And>b x s rt. f b x s = Some rt \<Longrightarrow> b = body \<longrightarrow> I x s \<longrightarrow> Q (fst rt) (snd rt)"
      and "Option.bind (b x s) (\<lambda>(r, s'). case r of Inl e \<Rightarrow> Some (Inl e, s')
        | Inr (Inl x') \<Rightarrow> f b x' s' | Inr (Inr a) \<Rightarrow> Some (Inr a, s')) = Some rt"
    then show "b = body \<longrightarrow> I x s \<longrightarrow> Q (fst rt) (snd rt)"
      using assms(3-5) by (fastforce split: bind_splits sum.splits)
  qed
  with assms(2) show ?thesis by simp
qed

section \<open>Weakest liberal preconditions\<close>

text \<open>
  \<open>wlp m Q s\<close>: if the operation \<open>m\<close> started in \<open>s\<close> returns, its result and final state satisfy
  \<open>Q\<close>.  It is the form of every statement about an arbitrary transport, which may make a loop wait
  for ever.
\<close>

named_theorems wlp_simps \<open>weakest liberal preconditions of the effects\<close>

definition wlp :: "('s, 'a) io \<Rightarrow> ('a res \<Rightarrow> 's \<Rightarrow> bool) \<Rightarrow> 's \<Rightarrow> bool" where
  "wlp m Q s = (case m s of None \<Rightarrow> True | Some (r, s') \<Rightarrow> Q r s')"

lemma wlp_effects [wlp_simps]:
  "wlp (io_return a) Q1 s \<longleftrightarrow> Q1 (Inr a) s"
  "wlp (io_fail e) Q2 s \<longleftrightarrow> Q2 (Inl e) s"
  "wlp (io_res r) Q3 s \<longleftrightarrow> Q3 r s"
  "wlp (io_get f) Q4 s \<longleftrightarrow> Q4 (Inr (f s)) s"
  "wlp (io_modify g) Q5 s \<longleftrightarrow> Q5 (Inr ()) (g s)"
  by (simp_all add: wlp_def)

lemma wlp_bind [wlp_simps]:
  "wlp (io_bind m f) Q s \<longleftrightarrow>
   wlp m (\<lambda>r s'. case r of Inl e \<Rightarrow> Q (Inl e) s' | Inr a \<Rightarrow> wlp (f a) Q s') s"
  by (auto simp: wlp_def io_bind_def split: option.splits sum.splits)

lemma wlp_if [wlp_simps]: "wlp (if b then m else m') Q s \<longleftrightarrow> (if b then wlp m Q s else wlp m' Q s)"
  by simp

lemma wlp_conseq: "wlp m Q s \<Longrightarrow> (\<And>r s'. Q r s' \<Longrightarrow> R r s') \<Longrightarrow> wlp m R s"
  by (auto simp: wlp_def split: option.splits)

lemma wlp_conj: "wlp m Q s \<Longrightarrow> wlp m R s \<Longrightarrow> wlp m (\<lambda>r s'. Q r s' \<and> R r s') s"
  by (auto simp: wlp_def split: option.splits)

lemma wlp_loop:
  assumes "I x s"
    and "\<And>x s. I x s \<Longrightarrow> wlp (body x) (\<lambda>r s'. case r of Inl e \<Rightarrow> Q (Inl e) s'
      | Inr (Inl x') \<Rightarrow> I x' s' | Inr (Inr a) \<Rightarrow> Q (Inr a) s') s"
  shows "wlp (io_loop body x) Q s"
  unfolding wlp_def
proof (clarsimp split: option.splits)
  fix r t assume run: "io_loop body x s = Some (r, t)"
  show "Q r t"
    by (rule io_loop_rule [where I = I, OF run assms(1)]) (use assms(2) in \<open>force simp: wlp_def\<close>)+
qed

end
