(* ===== verification/Channel.thy ===== *)
theory Channel
  imports Framing Proto Host_IO
begin

text \<open>The channel-allocation layer of \<^verbatim>\<open>thp/channel.rs\<close>.\<close>

definition ALLOCATION_NONCE_LEN :: nat where "ALLOCATION_NONCE_LEN = 8"

record channel_allocation =
  ca_cid :: u16
  ca_device_properties_raw :: bytes
  ca_device_properties :: thp_device_properties

text \<open>The platform random source; a failure is the \<^verbatim>\<open>expect("platform RNG")\<close> panic.\<close>

definition random_bytes :: "'w host \<Rightarrow> nat \<Rightarrow> ('c \<times> 'w, bytes) io" where
  "random_bytes H n = (\<lambda>(c, w). case getrandom H n w of
     (Inl _, w') \<Rightarrow> Some (Inl (Panic ''platform RNG''), (c, w'))
   | (Inr b, w') \<Rightarrow> Some (Inr b, (c, w')))"

definition random_allocation_nonce :: "'w host \<Rightarrow> ('c \<times> 'w, bytes) io" where
  "random_allocation_nonce H = random_bytes H ALLOCATION_NONCE_LEN"

definition build_allocation_request :: "bytes \<Rightarrow> bytes" where
  "build_allocation_request nonce = nonce"

definition parse_allocation_response :: "proto \<Rightarrow> bytes \<Rightarrow> bytes \<Rightarrow> channel_allocation res" where
  "parse_allocation_response P sent_nonce payload =
     (if length payload < ALLOCATION_NONCE_LEN + 2
      then thp_err ''channel allocation response too short''
      else if take ALLOCATION_NONCE_LEN payload \<noteq> sent_nonce
      then thp_err ''channel allocation nonce mismatch''
      else
        let cid = from_be [payload ! ALLOCATION_NONCE_LEN, payload ! (ALLOCATION_NONCE_LEN + 1)];
            raw = drop (ALLOCATION_NONCE_LEN + 2) payload in
        res_bind (decoded ''device properties decode failed: '' (dec_device_properties P raw)) (\<lambda>props.
        Inr \<lparr>ca_cid = cid, ca_device_properties_raw = raw, ca_device_properties = props\<rparr>))"

text \<open>The device's answer (as the source's tests build it): nonce, channel id, properties.\<close>

definition build_response :: "bytes \<Rightarrow> u16 \<Rightarrow> bytes \<Rightarrow> bytes" where
  "build_response nonce cid props = nonce @ u16_be cid @ props"

lemma parse_build_response:
  assumes "length nonce = 8" "dec_device_properties P props = Inr d"
  shows "parse_allocation_response P nonce (build_response nonce cid props) =
    Inr \<lparr>ca_cid = cid, ca_device_properties_raw = props, ca_device_properties = d\<rparr>"
proof -
  have "from_be [u16_be cid ! 0, u16_be cid ! Suc 0] = cid" by (rule u16_be_nth)
  then show ?thesis
    using assms by (simp add: parse_allocation_response_def build_response_def nth_append Let_def
        ALLOCATION_NONCE_LEN_def)
qed

lemma parse_allocation_response_sound:
  assumes "parse_allocation_response P nonce payload = Inr a"
  shows "payload = build_response nonce (ca_cid a) (ca_device_properties_raw a)
    \<and> length nonce = 8 \<and> dec_device_properties P (ca_device_properties_raw a) = Inr (ca_device_properties a)"
proof -
  from assms have len: "8 + 2 \<le> length payload" and nonce: "take 8 payload = nonce"
    by (auto simp: parse_allocation_response_def ALLOCATION_NONCE_LEN_def split: if_splits)
  then obtain x y rest where rest: "drop 8 payload = x # y # rest"
    by (metis (no_types, opaque_lifting) Suc_le_length_iff add_2_eq_Suc' add_diff_cancel_left'
        diff_le_mono length_drop numeral_2_eq_2 plus_1_eq_Suc)
  with nonce have p: "payload = nonce @ [x, y] @ rest"
    by (metis append_Cons append_Nil append_take_drop_id)
  have "length nonce = 8" using len nonce by auto
  with assms p show ?thesis
    using u16c.enc_dec [of "[x, y]"]
    by (auto simp: parse_allocation_response_def build_response_def ALLOCATION_NONCE_LEN_def
        nth_append Let_def decoded_def split: if_splits sum.splits)
qed

section \<open>Properties\<close>

text \<open>
  C30: an allocation response is accepted exactly when it is the sent nonce, a two-byte channel id
  and properties that decode; the channel id and the raw properties are returned unchanged.
\<close>

theorem allocation_response_spec:
  "parse_allocation_response P nonce payload = Inr a \<longleftrightarrow>
     length nonce = 8
     \<and> payload = build_response nonce (ca_cid a) (ca_device_properties_raw a)
     \<and> dec_device_properties P (ca_device_properties_raw a) = Inr (ca_device_properties a)"
  using parse_allocation_response_sound [of P nonce payload a]
    parse_build_response [of nonce P "ca_device_properties_raw a" "ca_device_properties a" "ca_cid a"]
  by auto

end
