(* ===== verification/Aead.thy ===== *)
theory Aead
  imports Prelude
begin

text \<open>
  The cryptographic primitives the crate takes from third-party crates (\<^verbatim>\<open>aes-gcm\<close>,
  \<^verbatim>\<open>sha2\<close>, \<^verbatim>\<open>hmac\<close>, \<^verbatim>\<open>x25519-dalek\<close>) are the fields of a parameter
  record; \<^verbatim>\<open>thp/aead.rs\<close> wraps the first.  The documented behaviour the crate relies on
  is stated as predicates over that record, used as hypotheses.
\<close>

record crypto =
  aes_gcm_encrypt :: "bytes \<Rightarrow> bytes \<Rightarrow> bytes \<Rightarrow> bytes \<Rightarrow> bytes option"
  aes_gcm_decrypt :: "bytes \<Rightarrow> bytes \<Rightarrow> bytes \<Rightarrow> bytes \<Rightarrow> bytes option"
  sha256 :: "bytes \<Rightarrow> bytes"
  sha512 :: "bytes \<Rightarrow> bytes"
  hmac_mac :: "bytes \<Rightarrow> bytes \<Rightarrow> bytes"
  dalek_dh :: "bytes \<Rightarrow> bytes \<Rightarrow> bytes"
  dalek_public :: "bytes \<Rightarrow> bytes"

definition aead_seal :: "crypto \<Rightarrow> bytes \<Rightarrow> bytes \<Rightarrow> bytes \<Rightarrow> bytes \<Rightarrow> bytes res" where
  "aead_seal C key iv aad plaintext =
     (case aes_gcm_encrypt C key iv aad plaintext of
        Some ct \<Rightarrow> Inr ct
      | None \<Rightarrow> Inl (Panic ''AES-GCM encryption is infallible for valid inputs''))"

definition aead_open :: "crypto \<Rightarrow> bytes \<Rightarrow> bytes \<Rightarrow> bytes \<Rightarrow> bytes \<Rightarrow> bytes res" where
  "aead_open C key iv aad ciphertext =
     (case aes_gcm_decrypt C key iv aad ciphertext of
        Some pt \<Rightarrow> Inr pt
      | None \<Rightarrow> thp_err ''AES-GCM authentication failed'')"

text \<open>
  AES-256-GCM as documented: for a 32-byte key, a 12-byte nonce and inputs under the
  \<open>2\<^sup>3\<^sup>6\<close>-byte limit, encryption succeeds, adds a 16-byte tag, and decrypts to the plaintext.
\<close>

definition aead_correct :: "crypto \<Rightarrow> bool" where
  "aead_correct C \<longleftrightarrow> (\<forall>key iv aad m. length key = 32 \<and> length iv = 12 \<and>
     length aad < 2 ^ 36 \<and> length m < 2 ^ 36 \<longrightarrow>
     (\<exists>ct. aes_gcm_encrypt C key iv aad m = Some ct \<and> length ct = length m + 16
       \<and> aes_gcm_decrypt C key iv aad ct = Some m))"

lemma aead_round_trip:
  assumes "aead_correct C" "length key = 32" "length iv = 12" "length aad < 2 ^ 36" "length m < 2 ^ 36"
  obtains ct where "aead_seal C key iv aad m = Inr ct" "length ct = length m + 16"
    and "aead_open C key iv aad ct = Inr m"
proof -
  from assms obtain ct where "aes_gcm_encrypt C key iv aad m = Some ct" "length ct = length m + 16"
      "aes_gcm_decrypt C key iv aad ct = Some m"
    unfolding aead_correct_def by blast
  then show ?thesis by (intro that [of ct]) (simp_all add: aead_seal_def aead_open_def)
qed

lemma aead_open_nopanic [simp, nopanic]: "\<not> is_panic (aead_open C key iv aad ct)"
  by (simp add: aead_open_def split: option.splits)

text \<open>
  The lengths and the Diffie-Hellman law of RFC 7748: scalar multiplications commute, and the
  public key is the multiple of a fixed base point.
\<close>

definition hash_lengths :: "crypto \<Rightarrow> bool" where
  "hash_lengths C \<longleftrightarrow> (\<forall>m. length (sha256 C m) = 32) \<and> (\<forall>m. length (sha512 C m) = 64)
     \<and> (\<forall>k m. length (hmac_mac C k m) = 32)"

definition dh_laws :: "crypto \<Rightarrow> bool" where
  "dh_laws C \<longleftrightarrow> (\<forall>a p. length (dalek_dh C a p) = 32)
     \<and> (\<forall>a b p. dalek_dh C a (dalek_dh C b p) = dalek_dh C b (dalek_dh C a p))
     \<and> (\<exists>base. \<forall>a. dalek_public C a = dalek_dh C a base)"

lemma dh_public: "dh_laws C \<Longrightarrow> dalek_dh C a (dalek_public C b) = dalek_dh C b (dalek_public C a)"
  unfolding dh_laws_def by metis

lemma dh_lengths: "dh_laws C \<Longrightarrow> length (dalek_dh C a p) = 32"
  "dh_laws C \<Longrightarrow> length (dalek_public C a) = 32"
  unfolding dh_laws_def by metis+

lemma dh_commute: "dh_laws C \<Longrightarrow> dalek_dh C a (dalek_dh C b p) = dalek_dh C b (dalek_dh C a p)"
  unfolding dh_laws_def by metis

section \<open>A concrete instance\<close>

text \<open>
  A small executable instance that meets the hypotheses (a checksum tag, a checksum hash and
  bytewise addition as the group), for evaluating the model on concrete inputs.
\<close>

definition demo_tag :: "bytes \<Rightarrow> bytes" where
  "demo_tag m = replicate 15 0 @ [sum_list m]"

definition demo_dh :: "bytes \<Rightarrow> bytes \<Rightarrow> bytes" where
  "demo_dh a p = map2 (+) (resize 32 0 a) (resize 32 0 p)"

definition demo_crypto :: crypto where
  "demo_crypto = \<lparr>
     aes_gcm_encrypt = (\<lambda>key iv aad m. Some (m @ demo_tag (key @ iv @ aad @ m))),
     aes_gcm_decrypt = (\<lambda>key iv aad c.
       let m = take (length c - 16) c in
       if c = m @ demo_tag (key @ iv @ aad @ m) then Some m else None),
     sha256 = (\<lambda>m. replicate 31 7 @ [sum_list m]),
     sha512 = (\<lambda>m. replicate 63 7 @ [sum_list m]),
     hmac_mac = (\<lambda>k m. replicate 31 5 @ [sum_list k + 3 * sum_list m]),
     dalek_dh = demo_dh,
     dalek_public = (\<lambda>a. demo_dh a [9])\<rparr>"

lemma length_demo [simp]: "length (demo_tag m) = 16" "length (demo_dh a p) = 32"
  by (simp_all add: demo_tag_def demo_dh_def)

lemma demo_aead_correct: "aead_correct demo_crypto"
  by (simp add: aead_correct_def demo_crypto_def)

lemma demo_hash_lengths: "hash_lengths demo_crypto"
  by (simp add: hash_lengths_def demo_crypto_def)

lemma demo_dh_laws: "dh_laws demo_crypto"
proof -
  have "resize 32 0 (demo_dh a p) = demo_dh a p" for a p
    by (simp add: resize_def)
  then have "demo_dh a (demo_dh b p) = demo_dh b (demo_dh a p)" for a b p
    by (intro nth_equalityI) (simp_all add: demo_dh_def add.left_commute)
  then show ?thesis by (auto simp: dh_laws_def demo_crypto_def)
qed

end
