(* ===== verification/Session.thy ===== *)
theory Session
  imports Aead
begin

text \<open>
  The encrypted transport session of \<^verbatim>\<open>thp/session.rs\<close>: per-direction keys and nonce
  counters, sealing and opening, and the application-message header.
\<close>

definition APP_HEADER_LEN :: nat where "APP_HEADER_LEN = 3"

definition iv_from_nonce :: "u64 \<Rightarrow> bytes" where
  "iv_from_nonce nonce = replicate 4 0 @ u64_be nonce"

record session =
  key_send :: bytes
  key_recv :: bytes
  nonce_send :: u64
  nonce_recv :: u64

definition session_new :: "bytes \<Rightarrow> bytes \<Rightarrow> u64 \<Rightarrow> u64 \<Rightarrow> session" where
  "session_new ks kr ns nr = \<lparr>key_send = ks, key_recv = kr, nonce_send = ns, nonce_recv = nr\<rparr>"

definition session_seal :: "crypto \<Rightarrow> session \<Rightarrow> bytes \<Rightarrow> bytes res \<times> session" where
  "session_seal C s app_payload =
     (case aead_seal C (key_send s) (iv_from_nonce (nonce_send s)) [] app_payload of
        Inl e \<Rightarrow> (Inl e, s)
      | Inr ct \<Rightarrow> (Inr ct, s\<lparr>nonce_send := nonce_send s + 1\<rparr>))"

definition session_open :: "crypto \<Rightarrow> session \<Rightarrow> bytes \<Rightarrow> bytes res \<times> session" where
  "session_open C s ciphertext =
     (case aead_open C (key_recv s) (iv_from_nonce (nonce_recv s)) [] ciphertext of
        Inl e \<Rightarrow> (Inl e, s)
      | Inr pt \<Rightarrow> (Inr pt, s\<lparr>nonce_recv := nonce_recv s + 1\<rparr>))"

definition encode_app_message :: "u8 \<Rightarrow> u16 \<Rightarrow> bytes \<Rightarrow> bytes" where
  "encode_app_message session_id message_type protobuf = [session_id] @ u16_be message_type @ protobuf"

definition decode_app_message :: "bytes \<Rightarrow> (u8 \<times> u16 \<times> bytes) res" where
  "decode_app_message payload =
     (if length payload < APP_HEADER_LEN
      then thp_err ''application message shorter than its 3-byte header''
      else Inr (payload ! 0, from_be [payload ! 1, payload ! 2], drop APP_HEADER_LEN payload))"

section \<open>Lemmas\<close>

lemma length_iv [simp]: "length (iv_from_nonce n) = 12"
  by (simp add: iv_from_nonce_def)

lemma iv_inj: "iv_from_nonce m = iv_from_nonce n \<longleftrightarrow> m = n"
  by (simp add: iv_from_nonce_def u64c.enc_inj)

text \<open>One endpoint mirrors the other: each sends with what the other receives with.\<close>

definition mirrors :: "session \<Rightarrow> session \<Rightarrow> bool" where
  "mirrors a b \<longleftrightarrow> key_send a = key_recv b \<and> key_recv a = key_send b
     \<and> nonce_send a = nonce_recv b \<and> nonce_recv a = nonce_send b
     \<and> length (key_send a) = 32 \<and> length (key_recv a) = 32"

lemma mirrors_sym: "mirrors a b \<Longrightarrow> mirrors b a"
  by (auto simp: mirrors_def)

lemma seal_open:
  assumes "aead_correct C" "mirrors a b" "length m < 2 ^ 36"
  obtains ct a' b' where "session_seal C a m = (Inr ct, a')" "session_open C b ct = (Inr m, b')"
    and "mirrors a' b'" "length ct = length m + 16"
    and "nonce_send a' = nonce_send a + 1" "nonce_recv a' = nonce_recv a" "nonce_send b' = nonce_send b" "nonce_recv b' = nonce_recv b + 1"
proof -
  obtain ct where "aead_seal C (key_send a) (iv_from_nonce (nonce_send a)) [] m = Inr ct"
      "length ct = length m + 16"
      "aead_open C (key_send a) (iv_from_nonce (nonce_send a)) [] ct = Inr m"
    by (rule aead_round_trip [OF assms(1), of "key_send a" "iv_from_nonce (nonce_send a)" "[]" m])
      (use assms(2,3) in \<open>auto simp: mirrors_def\<close>)
  with assms(2) show ?thesis
    by (intro that [of ct "a\<lparr>nonce_send := nonce_send a + 1\<rparr>" "b\<lparr>nonce_recv := nonce_recv b + 1\<rparr>"])
      (auto simp: session_seal_def session_open_def mirrors_def)
qed

text \<open>
  A conversation: each item is a message and its direction (\<open>True\<close>: from the first endpoint to
  the second).  The message is sealed by its sender and what comes out is opened by the receiver.
\<close>

fun converse :: "crypto \<Rightarrow> session \<Rightarrow> session \<Rightarrow> (bool \<times> bytes) list \<Rightarrow>
    (bool \<times> bytes res) list \<times> session \<times> session" where
  "converse C a b [] = ([], a, b)"
| "converse C a b ((True, m) # ms) =
     (let (ct, a') = session_seal C a m in
      case ct of Inl e \<Rightarrow> ([(True, Inl e)], a', b)
      | Inr c \<Rightarrow> let (pt, b') = session_open C b c; (out, ab) = converse C a' b' ms
                  in ((True, pt) # out, ab))"
| "converse C a b ((False, m) # ms) =
     (let (ct, b') = session_seal C b m in
      case ct of Inl e \<Rightarrow> ([(False, Inl e)], a, b')
      | Inr c \<Rightarrow> let (pt, a') = session_open C a c; (out, ab) = converse C a' b' ms
                  in ((False, pt) # out, ab))"

lemma converse_ok:
  assumes "aead_correct C" "mirrors a b" "\<forall>(d, m) \<in> set ms. length m < 2 ^ 36"
  shows "\<exists>a' b'. converse C a b ms = (map (\<lambda>(d, m). (d, Inr m)) ms, a', b') \<and> mirrors a' b'
    \<and> nonce_send a' = nonce_send a + of_nat (length (filter fst ms))
    \<and> nonce_recv a' = nonce_recv a + of_nat (length (filter (Not \<circ> fst) ms))"
  using assms(2,3)
proof (induction ms arbitrary: a b)
  case (Cons dm ms)
  obtain d m where dm: "dm = (d, m)" by fastforce
  with Cons.prems have m: "length m < 2 ^ 36" and ms: "\<forall>(d, m) \<in> set ms. length m < 2 ^ 36"
    by simp_all
  show ?case
  proof (cases d)
    case True
    obtain ct a' b' where step: "session_seal C a m = (Inr ct, a')" "session_open C b ct = (Inr m, b')"
        "mirrors a' b'" "nonce_send a' = nonce_send a + 1" "nonce_recv a' = nonce_recv a"
      using seal_open [OF assms(1) Cons.prems(1) m] by blast
    from Cons.IH [OF step(3) ms] step show ?thesis by (auto simp: dm True)
  next
    case False
    obtain ct a' b' where step: "session_seal C b m = (Inr ct, b')" "session_open C a ct = (Inr m, a')"
        "mirrors b' a'" "nonce_send a' = nonce_send a" "nonce_recv a' = nonce_recv a + 1"
      using seal_open [OF assms(1) mirrors_sym [OF Cons.prems(1)] m] by blast
    from Cons.IH [OF mirrors_sym [OF step(3)] ms] step show ?thesis by (auto simp: dm False)
  qed
qed simp

text \<open>The initialisation vectors that a sequence of sealings uses, in order.\<close>

fun seal_ivs :: "crypto \<Rightarrow> session \<Rightarrow> bytes list \<Rightarrow> bytes list" where
  "seal_ivs C s [] = []"
| "seal_ivs C s (m # ms) = (case session_seal C s m of
     (Inl e, s') \<Rightarrow> [iv_from_nonce (nonce_send s)]
   | (Inr ct, s') \<Rightarrow> iv_from_nonce (nonce_send s) # seal_ivs C s' ms)"

lemma seal_ivs_prefix:
  "\<exists>k \<le> length ms. seal_ivs C s ms = map (\<lambda>i. iv_from_nonce (nonce_send s + of_nat i)) [0..<k]"
proof (induction ms arbitrary: s)
  case (Cons m ms)
  show ?case
  proof (cases "session_seal C s m")
    case (Pair r s')
    show ?thesis
    proof (cases r)
      case (Inl e)
      with Pair show ?thesis by (auto intro!: exI [of _ 1])
    next
      case (Inr ct)
      with Pair have n: "nonce_send s' = nonce_send s + 1"
        by (auto simp: session_seal_def split: sum.splits)
      obtain k where k: "k \<le> length ms"
        "seal_ivs C s' ms = map (\<lambda>i. iv_from_nonce (nonce_send s' + of_nat i)) [0..<k]"
        using Cons.IH by blast
      have "seal_ivs C s (m # ms) = map (\<lambda>i. iv_from_nonce (nonce_send s + of_nat i)) [0..<Suc k]"
        using Pair Inr k(2) n
        by (simp add: upt_conv_Cons map_Suc_upt [symmetric] add.assoc del: upt_Suc)
      with k(1) show ?thesis by (intro exI [of _ "Suc k"]) simp
    qed
  qed
qed simp

text \<open>
  An application message decodes to the session id, message type and body it was encoded from;
  decoding refuses exactly the payloads shorter than the three-byte header; and whatever it accepts
  is the encoding of what it returns.
\<close>

lemma decode_encode_app: "decode_app_message (encode_app_message sid mt body) = Inr (sid, mt, body)"
  by (simp add: decode_app_message_def encode_app_message_def APP_HEADER_LEN_def nth_append be_simps numeral_eq_Suc)

lemma encode_app_length: "length (encode_app_message sid mt body) = length body + 3"
  by (simp add: encode_app_message_def)

lemma encode_decode_app:
  "case decode_app_message payload of
     Inl _ \<Rightarrow> length payload < 3 | Inr (sid, mt, body) \<Rightarrow> encode_app_message sid mt body = payload"
proof (cases "length payload < 3")
  case False
  then obtain a b c rest where p: "payload = a # b # c # rest"
    by (auto simp: neq_Nil_conv Suc_le_length_iff numeral_3_eq_3 not_less)
  have "u16_be (from_be [b, c]) = [b, c]" by (rule u16c.enc_dec) simp
  then show ?thesis
    by (simp add: p decode_app_message_def encode_app_message_def APP_HEADER_LEN_def)
qed (simp add: decode_app_message_def APP_HEADER_LEN_def)

section \<open>Properties\<close>

text \<open>
  C19: two endpoints whose keys and nonces mirror each other deliver every message of every
  interleaved conversation unchanged, in order and in both directions, and mirror each other
  again afterwards, every message having advanced the counters of its direction by one; sealing
  never panics.
\<close>

theorem conversation_delivered:
  assumes "aead_correct C" "mirrors host trezor" "\<forall>(d, m) \<in> set ms. length m < 2 ^ 36"
  shows "\<exists>host' trezor'. converse C host trezor ms = (map (\<lambda>(d, m). (d, Inr m)) ms, host', trezor')
    \<and> mirrors host' trezor'
    \<and> nonce_send host' = nonce_send host + of_nat (length (filter fst ms))
    \<and> nonce_recv host' = nonce_recv host + of_nat (length (filter (Not \<circ> fst) ms))"
  by (rule converse_ok [OF assms])

theorem conversation_delivered_witness:
  "\<exists>host' trezor'. converse demo_crypto
      (session_new (replicate 32 1) (replicate 32 2) 0 1)
      (session_new (replicate 32 2) (replicate 32 1) 1 0)
      [(True, [1, 2, 3]), (False, [4]), (True, [])]
    = ([(True, Inr [1, 2, 3]), (False, Inr [4]), (True, Inr [])], host', trezor')
    \<and> mirrors host' trezor' \<and> nonce_send host' = 2 \<and> nonce_recv host' = 2"
  using conversation_delivered [of demo_crypto
      "session_new (replicate 32 1) (replicate 32 2) 0 1"
      "session_new (replicate 32 2) (replicate 32 1) 1 0"
      "[(True, [1, 2, 3]), (False, [4]), (True, [])]"]
  by (simp add: demo_aead_correct mirrors_def session_new_def)



end
