(* ===== verification/Noise.thy ===== *)
theory Noise
  imports Session
begin

text \<open>
  The secure-channel handshake of \<^verbatim>\<open>thp/noise.rs\<close>: the host's states HH0 to HH3 and the
  Trezor-side responder (TH1, TH2) that the source carries beside them.  The protobuf codec of
  \<^verbatim>\<open>ThpHandshakeCompletionReqNoisePayload\<close> is generated code and is a parameter:
  \<open>enc\<close> encodes the optional credential, \<open>dec\<close> decodes it.
\<close>

section \<open>Constants and primitives\<close>

definition PROTOCOL_NAME :: bytes where
  "PROTOCOL_NAME = map (\<lambda>c. of_nat (of_char c)) ''Noise_XX_25519_AESGCM_SHA256'' @ [0, 0, 0, 0]"

definition IV_ZERO :: bytes where "IV_ZERO = replicate 12 0"
definition IV_ONE :: bytes where "IV_ONE = [0, 0, 0, 0, 0, 0, 0, 0, 0, 0, 0, 1]"

definition PUBKEY_LEN :: nat where "PUBKEY_LEN = 32"
definition ENC_STATIC_LEN :: nat where "ENC_STATIC_LEN = 48"
definition TAG_LEN :: nat where "TAG_LEN = 16"
definition INIT_RESPONSE_LEN :: nat where
  "INIT_RESPONSE_LEN = PUBKEY_LEN + ENC_STATIC_LEN + TAG_LEN"

lemmas wire_lens = PUBKEY_LEN_def ENC_STATIC_LEN_def TAG_LEN_def INIT_RESPONSE_LEN_def

definition sha256_concat :: "crypto \<Rightarrow> bytes list \<Rightarrow> bytes" where
  "sha256_concat C parts = sha256 C (concat parts)"

definition hmac_sha256 :: "crypto \<Rightarrow> bytes \<Rightarrow> bytes \<Rightarrow> bytes" where
  "hmac_sha256 C key msg = hmac_mac C key msg"

definition hkdf :: "crypto \<Rightarrow> bytes \<Rightarrow> bytes \<Rightarrow> bytes \<times> bytes" where
  "hkdf C ck input =
     (let temp_key = hmac_sha256 C ck input;
          output_1 = hmac_sha256 C temp_key [0x01];
          output_2 = hmac_sha256 C temp_key (output_1 @ [0x02])
      in (output_1, output_2))"

definition x25519 :: "crypto \<Rightarrow> bytes \<Rightarrow> bytes \<Rightarrow> bytes" where
  "x25519 C scalar point = dalek_dh C scalar point"

definition public_key :: "crypto \<Rightarrow> bytes \<Rightarrow> bytes" where
  "public_key C scalar = dalek_public C scalar"

definition as_array32 :: "bytes \<Rightarrow> bytes res" where
  "as_array32 bs = (if length bs = 32 then Inr bs else thp_err ''expected a 32-byte field'')"

record session_keys =
  key_request :: bytes
  key_response :: bytes
  nonce_request :: u64
  nonce_response :: u64
  trezor_state :: bytes
  trezor_masked_static_pubkey :: bytes
  handshake_hash :: bytes
  host_static_pubkey :: bytes

section \<open>The host side\<close>

record host_handshake =
  device_properties :: bytes
  try_to_unlock :: u8
  ephemeral_priv :: bytes
  ephemeral_pub :: bytes
  static_priv :: bytes
  static_pub :: bytes
  host_pairing_credential :: "bytes option"
  hs_h :: bytes
  hs_ck :: bytes
  masked_static :: bytes

definition with_ephemeral ::
    "crypto \<Rightarrow> bytes \<Rightarrow> u8 \<Rightarrow> bytes \<Rightarrow> bytes option \<Rightarrow> bytes \<Rightarrow> host_handshake" where
  "with_ephemeral C props unlock spriv cred epriv =
     \<lparr>device_properties = props, try_to_unlock = unlock,
      ephemeral_priv = epriv, ephemeral_pub = public_key C epriv,
      static_priv = spriv, static_pub = public_key C spriv,
      host_pairing_credential = cred,
      hs_h = replicate 32 0, hs_ck = replicate 32 0, masked_static = replicate 32 0\<rparr>"

definition init_request_payload :: "host_handshake \<Rightarrow> bytes" where
  "init_request_payload hs = ephemeral_pub hs @ [try_to_unlock hs]"

text \<open>
  HH1.  The checks and computations on a response of the right size: the completion request, and
  the transcript hash, chaining key and masked static key that are stored at the end.
\<close>

definition init_response_core :: "crypto \<Rightarrow> (bytes option \<Rightarrow> bytes) \<Rightarrow> host_handshake \<Rightarrow> bytes \<Rightarrow>
    (bytes \<times> bytes \<times> bytes \<times> bytes) res" where
  "init_response_core C enc hs resp =
     res_bind (slice resp 0 PUBKEY_LEN) (\<lambda>e.
     res_bind (as_array32 e) (\<lambda>trezor_ephemeral_pub.
     res_bind (slice resp PUBKEY_LEN (PUBKEY_LEN + ENC_STATIC_LEN)) (\<lambda>enc_static.
     res_bind (slice resp (PUBKEY_LEN + ENC_STATIC_LEN) INIT_RESPONSE_LEN) (\<lambda>tag.
     let h1 = sha256_concat C [PROTOCOL_NAME, device_properties hs];
         h2 = sha256_concat C [h1, ephemeral_pub hs];
         h3 = sha256_concat C [h2, [try_to_unlock hs]];
         h4 = sha256_concat C [h3, trezor_ephemeral_pub];
         (ck1, k1) = hkdf C PROTOCOL_NAME (x25519 C (ephemeral_priv hs) trezor_ephemeral_pub)
     in
     res_bind (aead_open C k1 IV_ZERO h4 enc_static) (\<lambda>ms.
     res_bind (as_array32 ms) (\<lambda>masked.
     let h5 = sha256_concat C [h4, enc_static];
         (ck2, k2) = hkdf C ck1 (x25519 C (ephemeral_priv hs) masked)
     in
     res_bind (aead_open C k2 IV_ZERO h5 tag) (\<lambda>empty.
     if empty \<noteq> [] then thp_err ''handshake authentication payload was not empty''
     else
     let h6 = sha256_concat C [h5, tag] in
     res_bind (aead_seal C k2 IV_ONE h6 (static_pub hs)) (\<lambda>enc_host_static.
     let h7 = sha256_concat C [h6, enc_host_static];
         (ck3, k3) = hkdf C ck2 (x25519 C (static_priv hs) trezor_ephemeral_pub);
         payload = enc (host_pairing_credential hs)
     in
     res_bind (aead_seal C k3 IV_ZERO h7 payload) (\<lambda>enc_payload.
     let h8 = sha256_concat C [h7, enc_payload] in
     Inr (enc_host_static @ enc_payload, h8, ck3, masked))))))))))"

definition read_init_response ::
    "crypto \<Rightarrow> (bytes option \<Rightarrow> bytes) \<Rightarrow> host_handshake \<Rightarrow> bytes \<Rightarrow> bytes res \<times> host_handshake" where
  "read_init_response C enc hs resp =
     (if length resp \<noteq> INIT_RESPONSE_LEN
      then (thp_err ''handshake init response has the wrong size'', hs)
      else case init_response_core C enc hs resp of
             Inl e \<Rightarrow> (Inl e, hs)
           | Inr (out, h', ck', masked) \<Rightarrow>
               (Inr out, hs\<lparr>hs_h := h', hs_ck := ck', masked_static := masked\<rparr>))"

definition read_completion_response ::
    "crypto \<Rightarrow> host_handshake \<Rightarrow> bytes \<Rightarrow> session_keys res" where
  "read_completion_response C hs resp =
     (let (kreq, kresp) = hkdf C (hs_ck hs) [] in
      res_bind (aead_open C kresp IV_ZERO [] resp) (\<lambda>state.
      Inr \<lparr>key_request = kreq, key_response = kresp, nonce_request = 0, nonce_response = 1,
           trezor_state = state, trezor_masked_static_pubkey = masked_static hs,
           handshake_hash = hs_h hs, host_static_pubkey = static_pub hs\<rparr>))"

definition from_handshake :: "session_keys \<Rightarrow> session" where
  "from_handshake keys = session_new (key_request keys) (key_response keys)
     (nonce_request keys) (nonce_response keys)"

section \<open>The Trezor side\<close>

record trezor_responder =
  t_device_properties :: bytes
  t_static_priv :: bytes
  t_static_pub :: bytes
  t_ephemeral_priv :: bytes
  t_h :: bytes
  t_ck :: bytes
  t_k :: bytes

record responder_result =
  rr_response :: bytes
  rr_host_static_pub :: bytes
  rr_key_request :: bytes
  rr_key_response :: bytes

definition responder_new :: "crypto \<Rightarrow> bytes \<Rightarrow> bytes \<Rightarrow> trezor_responder" where
  "responder_new C props spriv =
     \<lparr>t_device_properties = props, t_static_priv = spriv, t_static_pub = public_key C spriv,
      t_ephemeral_priv = replicate 32 0, t_h = replicate 32 0, t_ck = replicate 32 0,
      t_k = replicate 32 0\<rparr>"

text \<open>An \<^verbatim>\<open>unwrap\<close> or \<^verbatim>\<open>expect\<close> of the source: an error becomes a panic.\<close>

definition unwrap :: "'a res \<Rightarrow> 'a res" where
  "unwrap r = (case r of Inr a \<Rightarrow> Inr a | Inl _ \<Rightarrow> Inl (Panic ''called unwrap on an Err value''))"

text \<open>TH1.  \<open>epriv\<close> is the scalar drawn by \<^verbatim>\<open>random_scalar\<close>.\<close>

definition handle_init_request ::
    "crypto \<Rightarrow> trezor_responder \<Rightarrow> bytes \<Rightarrow> bytes \<Rightarrow> bytes res \<times> trezor_responder" where
  "handle_init_request C t epriv req =
     (let result =
        res_bind (slice req 0 PUBKEY_LEN) (\<lambda>e.
        res_bind (unwrap (as_array32 e)) (\<lambda>host_ephemeral_pub.
        res_bind (idx req PUBKEY_LEN) (\<lambda>unlock.
        let epub = public_key C epriv;
            h1 = sha256_concat C [PROTOCOL_NAME, t_device_properties t];
            h2 = sha256_concat C [h1, host_ephemeral_pub];
            h3 = sha256_concat C [h2, [unlock]];
            h4 = sha256_concat C [h3, epub];
            (ck1, k_a) = hkdf C PROTOCOL_NAME (x25519 C epriv host_ephemeral_pub);
            mask = sha256_concat C [t_static_pub t, epub];
            masked = x25519 C mask (t_static_pub t)
        in
        res_bind (aead_seal C k_a IV_ZERO h4 masked) (\<lambda>enc_static.
        let h5 = sha256_concat C [h4, enc_static];
            (ck2, k_b) = hkdf C ck1 (x25519 C mask (x25519 C (t_static_priv t) host_ephemeral_pub))
        in
        res_bind (aead_seal C k_b IV_ZERO h5 []) (\<lambda>tag.
        let h6 = sha256_concat C [h5, tag] in
        Inr (epub @ enc_static @ tag, h6, ck2, k_b))))))
      in case result of
           Inl e \<Rightarrow> (Inl e, t)
         | Inr (resp, h', ck', k') \<Rightarrow>
             (Inr resp, t\<lparr>t_ephemeral_priv := epriv, t_h := h', t_ck := ck', t_k := k'\<rparr>))"

text \<open>TH2.\<close>

definition handle_completion_request ::
    "crypto \<Rightarrow> (bytes \<Rightarrow> string + bytes option) \<Rightarrow> trezor_responder \<Rightarrow> bytes \<Rightarrow> responder_result res" where
  "handle_completion_request C dec t req =
     res_bind (slice req 0 ENC_STATIC_LEN) (\<lambda>enc_host_static.
     let enc_payload = drop ENC_STATIC_LEN req in
     res_bind (unwrap (aead_open C (t_k t) IV_ONE (t_h t) enc_host_static)) (\<lambda>hsp.
     res_bind (unwrap (as_array32 hsp)) (\<lambda>host_static_pub.
     let h' = sha256_concat C [t_h t, enc_host_static];
         (ck', k_c) = hkdf C (t_ck t) (x25519 C (t_ephemeral_priv t) host_static_pub)
     in
     res_bind (unwrap (aead_open C k_c IV_ZERO h' enc_payload)) (\<lambda>payload_bytes.
     case dec payload_bytes of
       Inl _ \<Rightarrow> Inl (Panic ''completion payload decodes'')
     | Inr _ \<Rightarrow>
         let state = [0x02];
             (kreq, kresp) = hkdf C ck' []
         in
         res_bind (aead_seal C kresp IV_ZERO [] state) (\<lambda>response.
         Inr \<lparr>rr_response = response, rr_host_static_pub = host_static_pub,
              rr_key_request = kreq, rr_key_response = kresp\<rparr>)))))"

section \<open>Lemmas\<close>

lemma length_ivs [simp]: "length IV_ZERO = 12" "length IV_ONE = 12"
  by (simp_all add: IV_ZERO_def IV_ONE_def)

lemma unwrap_Inr [simp]: "unwrap (Inr a) = Inr a"
  by (simp add: unwrap_def)

lemma as_array32_ok [simp]: "length bs = 32 \<Longrightarrow> as_array32 bs = Inr bs"
  by (simp add: as_array32_def)

lemma as_array32_nopanic [nopanic]: "\<not> is_panic (as_array32 bs)"
  by (simp add: as_array32_def)

lemma handshake_lengths:
  assumes "hash_lengths C"
  shows "length (sha256_concat C ps) = 32" "length (fst (hkdf C k i)) = 32" "length (snd (hkdf C k i)) = 32"
  using assms by (simp_all add: hash_lengths_def sha256_concat_def hkdf_def hmac_sha256_def Let_def)

lemma small_lt_max: "n \<le> 1000 \<Longrightarrow> n < (2 :: nat) ^ 36"
  by simp

text \<open>The three laws together, and the handshake's uses of the cipher under them.\<close>

definition crypto_laws :: "crypto \<Rightarrow> bool" where
  "crypto_laws C \<longleftrightarrow> aead_correct C \<and> hash_lengths C \<and> dh_laws C"

lemma handshake_seal:
  assumes "crypto_laws C" "length iv = 12" "length m < 2 ^ 36"
  obtains ct where "aead_seal C (snd (hkdf C k i)) iv (sha256_concat C ps) m = Inr ct"
    and "length ct = length m + 16"
    and "aead_open C (snd (hkdf C k i)) iv (sha256_concat C ps) ct = Inr m"
  by (rule aead_round_trip [of C "snd (hkdf C k i)" iv "sha256_concat C ps" m])
    (use assms in \<open>auto simp: crypto_laws_def handshake_lengths\<close>)

lemma handshake_seal_nopanic [nopanic]:
  assumes "crypto_laws C" "length iv = 12" "length m < 2 ^ 36"
  shows "\<not> is_panic (aead_seal C (snd (hkdf C k i)) iv (sha256_concat C ps) m)"
proof -
  obtain ct where "aead_seal C (snd (hkdf C k i)) iv (sha256_concat C ps) m = Inr ct"
    by (rule handshake_seal [OF assms])
  then show ?thesis by simp
qed

lemma handshake_final_seal:
  assumes "crypto_laws C" "length m < 2 ^ 36"
  obtains ct where "aead_seal C (snd (hkdf C k i)) IV_ZERO [] m = Inr ct"
    and "length ct = length m + 16"
    and "aead_open C (snd (hkdf C k i)) IV_ZERO [] ct = Inr m"
  by (rule aead_round_trip [of C "snd (hkdf C k i)" IV_ZERO "[]" m])
    (use assms in \<open>auto simp: crypto_laws_def handshake_lengths\<close>)

lemma x25519_agree:
  assumes "crypto_laws C"
  shows "x25519 C a (public_key C b) = x25519 C b (public_key C a)"
    and "x25519 C e (x25519 C m (public_key C s)) = x25519 C m (x25519 C s (public_key C e))"
    and "length (public_key C a) = 32" "length (x25519 C a p) = 32"
  using assms dh_public [of C e s] dh_public [of C a b]
  by (simp_all add: crypto_laws_def x25519_def public_key_def dh_lengths dh_commute [of C e m])

text \<open>
  The key schedule and the transcript that both sides compute, as functions of what went over the
  wire: the host's and the Trezor's ephemeral keys \<open>hp\<close> and \<open>tp\<close>, the three shared secrets and
  the ciphertexts so far.
\<close>

definition sched_h4 :: "crypto \<Rightarrow> bytes \<Rightarrow> u8 \<Rightarrow> bytes \<Rightarrow> bytes \<Rightarrow> bytes" where
  "sched_h4 C props unlock hp tp = sha256_concat C [sha256_concat C
     [sha256_concat C [sha256_concat C [PROTOCOL_NAME, props], hp], [unlock]], tp]"

definition sched_k1 :: "crypto \<Rightarrow> bytes \<Rightarrow> bytes \<times> bytes" where
  "sched_k1 C ee = hkdf C PROTOCOL_NAME ee"

definition sched_k2 :: "crypto \<Rightarrow> bytes \<Rightarrow> bytes \<Rightarrow> bytes \<times> bytes" where
  "sched_k2 C ee es = hkdf C (fst (sched_k1 C ee)) es"

definition sched_k3 :: "crypto \<Rightarrow> bytes \<Rightarrow> bytes \<Rightarrow> bytes \<Rightarrow> bytes \<times> bytes" where
  "sched_k3 C ee es se = hkdf C (fst (sched_k2 C ee es)) se"

definition sched_k4 :: "crypto \<Rightarrow> bytes \<Rightarrow> bytes \<Rightarrow> bytes \<Rightarrow> bytes \<times> bytes" where
  "sched_k4 C ee es se = hkdf C (fst (sched_k3 C ee es se)) []"

lemmas sched_defs = sched_h4_def sched_k1_def sched_k2_def sched_k3_def sched_k4_def

lemma TH1_step:
  assumes t: "t = responder_new C props tpriv" and hp: "length hp = 32"
    and tp: "tp = public_key C tepriv" and m: "mk = sha256_concat C [public_key C tpriv, tp]"
    and ee: "ee = x25519 C tepriv hp" and es: "es = x25519 C mk (x25519 C tpriv hp)"
    and h4: "h4 = sched_h4 C props unlock hp tp" and h5: "h5 = sha256_concat C [h4, ct]"
    and 1: "aead_seal C (snd (sched_k1 C ee)) IV_ZERO h4 (x25519 C mk (public_key C tpriv)) = Inr ct"
    and 2: "aead_seal C (snd (sched_k2 C ee es)) IV_ZERO h5 [] = Inr tag"
  shows "handle_init_request C t tepriv (hp @ [unlock]) = (Inr (tp @ ct @ tag),
    t\<lparr>t_ephemeral_priv := tepriv, t_h := sha256_concat C [h5, tag],
      t_ck := fst (sched_k2 C ee es), t_k := snd (sched_k2 C ee es)\<rparr>)"
  using 1 2 hp unfolding handle_init_request_def sched_defs h4 h5 ee es m t tp
  by (simp add: responder_new_def slice_simps wire_lens split_beta Let_def nth_append)

lemma HH1_step:
  assumes hs: "hs = with_ephemeral C props unlock spriv cred epriv"
    and lens: "length tp = 32" "length ct = 48" "length tag = 16" "length masked = 32"
    and h4: "h4 = sched_h4 C props unlock (public_key C epriv) tp"
    and ee: "ee = x25519 C epriv tp" and es: "es = x25519 C epriv masked" and se: "se = x25519 C spriv tp"
    and h5: "h5 = sha256_concat C [h4, ct]" and h6: "h6 = sha256_concat C [h5, tag]"
    and h7: "h7 = sha256_concat C [h6, ehs]"
    and 1: "aead_open C (snd (sched_k1 C ee)) IV_ZERO h4 ct = Inr masked"
    and 2: "aead_open C (snd (sched_k2 C ee es)) IV_ZERO h5 tag = Inr []"
    and 3: "aead_seal C (snd (sched_k2 C ee es)) IV_ONE h6 (public_key C spriv) = Inr ehs"
    and 4: "aead_seal C (snd (sched_k3 C ee es se)) IV_ZERO h7 (enc cred) = Inr ep"
  shows "read_init_response C enc hs (tp @ ct @ tag) = (Inr (ehs @ ep),
    hs\<lparr>hs_h := sha256_concat C [h7, ep], hs_ck := fst (sched_k3 C ee es se), masked_static := masked\<rparr>)"
  using 1 2 3 4 lens unfolding read_init_response_def init_response_core_def sched_defs h4 h5 h6 h7 ee es se hs
  by (simp add: with_ephemeral_def slice_simps wire_lens split_beta Let_def)

lemma TH2_step:
  assumes lens: "length ehs = 48" "length sp = 32"
    and 1: "aead_open C (t_k t) IV_ONE (t_h t) ehs = Inr sp"
    and k: "k = hkdf C (t_ck t) (x25519 C (t_ephemeral_priv t) sp)"
    and 2: "aead_open C (snd k) IV_ZERO (sha256_concat C [t_h t, ehs]) ep = Inr p"
    and 3: "dec p = Inr c" and 4: "aead_seal C (snd (hkdf C (fst k) [])) IV_ZERO [] [2] = Inr fin"
  shows "handle_completion_request C dec t (ehs @ ep) = Inr \<lparr>rr_response = fin,
    rr_host_static_pub = sp, rr_key_request = fst (hkdf C (fst k) []),
    rr_key_response = snd (hkdf C (fst k) [])\<rparr>"
  using 1 2 3 4 lens unfolding handle_completion_request_def k
  by (simp add: slice_simps wire_lens split_beta Let_def)

text \<open>The whole exchange, message by message.\<close>

text \<open>The five ciphertexts of a handshake: each is sealed without error and opens to what was sealed.\<close>

lemma handshake_ciphertexts:
  assumes C: "crypto_laws C" and cred: "length p < 2 ^ 36" and "length masked = 32" "length sp = 32"
  obtains ct h5 tag h6 ehs ep fin where
    "aead_seal C (snd (sched_k1 C ee)) IV_ZERO (sched_h4 C props unlock hp tp) masked = Inr ct" "length ct = 48"
    "aead_open C (snd (sched_k1 C ee)) IV_ZERO (sched_h4 C props unlock hp tp) ct = Inr masked"
    "h5 = sha256_concat C [sched_h4 C props unlock hp tp, ct]" "h6 = sha256_concat C [h5, tag]"
    "aead_seal C (snd (sched_k2 C ee es)) IV_ZERO h5 [] = Inr tag" "length tag = 16"
    "aead_open C (snd (sched_k2 C ee es)) IV_ZERO h5 tag = Inr []"
    "aead_seal C (snd (sched_k2 C ee es)) IV_ONE h6 sp = Inr ehs" "length ehs = 48"
    "aead_open C (snd (sched_k2 C ee es)) IV_ONE h6 ehs = Inr sp"
    "aead_seal C (snd (sched_k3 C ee es se)) IV_ZERO (sha256_concat C [h6, ehs]) p = Inr ep" "length ep = length p + 16"
    "aead_open C (snd (sched_k3 C ee es se)) IV_ZERO (sha256_concat C [h6, ehs]) ep = Inr p"
    "aead_seal C (snd (sched_k4 C ee es se)) IV_ZERO [] [2] = Inr fin" "length fin = 17"
    "aead_open C (snd (sched_k4 C ee es se)) IV_ZERO [] fin = Inr [2]"
proof -
  note keys = sched_k1_def sched_k2_def sched_k3_def sched_k4_def
  obtain ct where ct: "aead_seal C (snd (sched_k1 C ee)) IV_ZERO (sched_h4 C props unlock hp tp) masked = Inr ct"
      "length ct = 48" "aead_open C (snd (sched_k1 C ee)) IV_ZERO (sched_h4 C props unlock hp tp) ct = Inr masked"
    unfolding keys sched_h4_def by (rule handshake_seal [OF C, of IV_ZERO masked]) (simp_all add: assms)
  define h5 where "h5 = sha256_concat C [sched_h4 C props unlock hp tp, ct]"
  obtain tag where tag: "aead_seal C (snd (sched_k2 C ee es)) IV_ZERO h5 [] = Inr tag" "length tag = 16"
      "aead_open C (snd (sched_k2 C ee es)) IV_ZERO h5 tag = Inr []"
    unfolding keys h5_def by (rule handshake_seal [OF C, of IV_ZERO "[]"]) simp_all
  define h6 where "h6 = sha256_concat C [h5, tag]"
  obtain ehs where ehs: "aead_seal C (snd (sched_k2 C ee es)) IV_ONE h6 sp = Inr ehs"
      "length ehs = 48" "aead_open C (snd (sched_k2 C ee es)) IV_ONE h6 ehs = Inr sp"
    unfolding keys h6_def by (rule handshake_seal [OF C, of IV_ONE sp]) (simp_all add: assms)
  obtain ep where ep: "aead_seal C (snd (sched_k3 C ee es se)) IV_ZERO (sha256_concat C [h6, ehs]) p = Inr ep"
      "length ep = length p + 16"
      "aead_open C (snd (sched_k3 C ee es se)) IV_ZERO (sha256_concat C [h6, ehs]) ep = Inr p"
    unfolding keys by (rule handshake_seal [OF C, of IV_ZERO p]) (use cred in auto)
  obtain fin where fin: "aead_seal C (snd (sched_k4 C ee es se)) IV_ZERO [] [2] = Inr fin" "length fin = 17"
      "aead_open C (snd (sched_k4 C ee es se)) IV_ZERO [] fin = Inr [2]"
    unfolding keys by (rule handshake_final_seal [OF C, of "[2]"]) simp_all
  show thesis by (rule that) (fact ct h5_def h6_def tag ehs ep fin)+
qed

lemma handshake_run:
  assumes C: "crypto_laws C" and cred: "length (enc cred) < 2 ^ 36" and dec: "dec (enc cred) = Inr c"
  obtains resp1 t1 req2 hs1 rr keys where
    "handle_init_request C (responder_new C props tpriv) tepriv
       (init_request_payload (with_ephemeral C props unlock spriv cred epriv)) = (Inr resp1, t1)"
    "read_init_response C enc (with_ephemeral C props unlock spriv cred epriv) resp1 = (Inr req2, hs1)"
    "handle_completion_request C dec t1 req2 = Inr rr"
    "read_completion_response C hs1 (rr_response rr) = Inr keys"
    "key_request keys = rr_key_request rr" "key_response keys = rr_key_response rr"
    "nonce_request keys = 0" "nonce_response keys = 1" "trezor_state keys = [2]"
    "rr_host_static_pub rr = public_key C spriv" "host_static_pubkey keys = public_key C spriv"
    "length (key_request keys) = 32" "length (key_response keys) = 32"
    "length resp1 = 96" "length req2 = length (enc cred) + 64" "length (rr_response rr) = 17"
proof -
  note x = x25519_agree [OF C]
  let ?hp = "public_key C epriv" and ?tp = "public_key C tepriv" and ?sp = "public_key C spriv"
  define mk where "mk = sha256_concat C [public_key C tpriv, ?tp]"
  define masked where "masked = x25519 C mk (public_key C tpriv)"
  define ee where "ee = x25519 C epriv ?tp"
  define es where "es = x25519 C epriv masked"
  define se where "se = x25519 C spriv ?tp"
  have m_len: "length masked = 32" and sp_len: "length ?sp = 32" by (simp_all add: masked_def x)
  obtain ct h5 tag h6 ehs ep fin where ct: "aead_seal C (snd (sched_k1 C ee)) IV_ZERO (sched_h4 C props unlock ?hp ?tp) masked = Inr ct"
      "length ct = 48" "aead_open C (snd (sched_k1 C ee)) IV_ZERO (sched_h4 C props unlock ?hp ?tp) ct = Inr masked"
    and h5_def: "h5 = sha256_concat C [sched_h4 C props unlock ?hp ?tp, ct]" and h6_def: "h6 = sha256_concat C [h5, tag]"
    and tag: "aead_seal C (snd (sched_k2 C ee es)) IV_ZERO h5 [] = Inr tag" "length tag = 16"
      "aead_open C (snd (sched_k2 C ee es)) IV_ZERO h5 tag = Inr []"
    and ehs: "aead_seal C (snd (sched_k2 C ee es)) IV_ONE h6 ?sp = Inr ehs" "length ehs = 48"
      "aead_open C (snd (sched_k2 C ee es)) IV_ONE h6 ehs = Inr ?sp"
    and ep: "aead_seal C (snd (sched_k3 C ee es se)) IV_ZERO (sha256_concat C [h6, ehs]) (enc cred) = Inr ep"
      "length ep = length (enc cred) + 16"
      "aead_open C (snd (sched_k3 C ee es se)) IV_ZERO (sha256_concat C [h6, ehs]) ep = Inr (enc cred)"
    and fin: "aead_seal C (snd (sched_k4 C ee es se)) IV_ZERO [] [2] = Inr fin" "length fin = 17"
      "aead_open C (snd (sched_k4 C ee es se)) IV_ZERO [] fin = Inr [2]"
    by (rule handshake_ciphertexts [OF C cred m_len sp_len])
  let ?hs = "with_ephemeral C props unlock spriv cred epriv"
  let ?t1 = "(responder_new C props tpriv)\<lparr>t_ephemeral_priv := tepriv, t_h := h6,
      t_ck := fst (sched_k2 C ee es), t_k := snd (sched_k2 C ee es)\<rparr>"
  let ?hs1 = "?hs\<lparr>hs_h := sha256_concat C [sha256_concat C [h6, ehs], ep],
      hs_ck := fst (sched_k3 C ee es se), masked_static := masked\<rparr>"
  have dh: "x25519 C tepriv ?hp = ee" "x25519 C mk (x25519 C tpriv ?hp) = es" "x25519 C tepriv ?sp = se"
    by (simp_all add: ee_def es_def se_def masked_def x(1) [of tepriv epriv] x(1) [of tepriv spriv]
        x(2) [of epriv mk tpriv])
  have 1: "handle_init_request C (responder_new C props tpriv) tepriv
      (init_request_payload (with_ephemeral C props unlock spriv cred epriv)) = (Inr (?tp @ ct @ tag), ?t1)"
    unfolding h6_def init_request_payload_def
    using TH1_step [OF refl x(3) refl mk_def dh(1,2) [symmetric] refl h5_def] ct(1) tag(1)
    by (simp add: with_ephemeral_def masked_def)
  have 2: "read_init_response C enc ?hs (?tp @ ct @ tag) = (Inr (ehs @ ep), ?hs1)"
    by (rule HH1_step [where enc = enc and cred = cred, OF refl x(3) ct(2) tag(2) _ refl ee_def es_def se_def h5_def h6_def refl
          ct(3) tag(3) ehs(1) ep(1)]) (simp add: masked_def x)
  have 3: "handle_completion_request C dec ?t1 (ehs @ ep) = Inr \<lparr>rr_response = fin, rr_host_static_pub = ?sp,
      rr_key_request = fst (sched_k4 C ee es se), rr_key_response = snd (sched_k4 C ee es se)\<rparr>"
    unfolding sched_k4_def
    by (rule TH2_step [where p = "enc cred"])
      (use ehs ep fin dec dh in \<open>simp_all add: responder_new_def x sched_k3_def sched_k4_def\<close>)
  have "length (fst (sched_k4 C ee es se)) = 32" "length (snd (sched_k4 C ee es se)) = 32"
    using C by (simp_all add: sched_k4_def crypto_laws_def handshake_lengths)
  with 1 2 3 fin ct(2) tag(2) ehs(2) ep(2) x(3) show ?thesis
    by (intro that) (auto simp: read_completion_response_def with_ephemeral_def split_beta
        simp flip: sched_k4_def)
qed

section \<open>Properties\<close>

text \<open>
  C3: run against the Trezor-side responder over the same device properties, with any keys on
  both sides and with or without a credential, the host's handshake completes, both sides hold
  the same request and response keys, the Trezor has recovered the host's static public key, and
  the host's session and the device's mirror session (sending with the response key from nonce 1)
  are synchronised.
\<close>

theorem handshake_agreement:
  assumes "crypto_laws C" "length (enc cred) < 2 ^ 36" "dec (enc cred) = Inr c"
    and "hs = with_ephemeral C props unlock spriv cred epriv"
  shows "\<exists>resp1 t1 req2 hs1 rr keys.
    handle_init_request C (responder_new C props tpriv) tepriv (init_request_payload hs) = (Inr resp1, t1)
    \<and> read_init_response C enc hs resp1 = (Inr req2, hs1)
    \<and> handle_completion_request C dec t1 req2 = Inr rr
    \<and> read_completion_response C hs1 (rr_response rr) = Inr keys
    \<and> key_request keys = rr_key_request rr \<and> key_response keys = rr_key_response rr
    \<and> rr_host_static_pub rr = public_key C spriv \<and> trezor_state keys = [2]
    \<and> mirrors (from_handshake keys) (session_new (rr_key_response rr) (rr_key_request rr) 1 0)"
proof -
  obtain resp1 t1 req2 hs1 rr keys where
    run: "handle_init_request C (responder_new C props tpriv) tepriv (init_request_payload hs) = (Inr resp1, t1)"
      "read_init_response C enc hs resp1 = (Inr req2, hs1)"
      "handle_completion_request C dec t1 req2 = Inr rr"
      "read_completion_response C hs1 (rr_response rr) = Inr keys"
      "key_request keys = rr_key_request rr" "key_response keys = rr_key_response rr"
      "nonce_request keys = 0" "nonce_response keys = 1" "trezor_state keys = [2]"
      "rr_host_static_pub rr = public_key C spriv"
      "length (key_request keys) = 32" "length (key_response keys) = 32"
    unfolding assms(4)
    by (rule handshake_run [of C enc cred dec c props tpriv tepriv unlock spriv epriv, OF assms(1-3)])
  then have "mirrors (from_handshake keys) (session_new (rr_key_response rr) (rr_key_request rr) 1 0)"
    by (simp add: mirrors_def from_handshake_def session_new_def)
  with run show ?thesis by blast
qed

theorem handshake_agreement_witness:
  "\<exists>resp1 t1 req2 hs1 rr keys.
    handle_init_request demo_crypto (responder_new demo_crypto [10, 4] (replicate 32 0x22)) (replicate 32 5)
      (init_request_payload (with_ephemeral demo_crypto [10, 4] 0 (replicate 32 0x11) (Some [8, 9]) (replicate 32 3)))
      = (Inr resp1, t1)
    \<and> read_init_response demo_crypto (case_option [] (\<lambda>c. 1 # c))
        (with_ephemeral demo_crypto [10, 4] 0 (replicate 32 0x11) (Some [8, 9]) (replicate 32 3)) resp1 = (Inr req2, hs1)
    \<and> handle_completion_request demo_crypto (\<lambda>b. Inr (if b = [] then None else Some (tl b))) t1 req2 = Inr rr
    \<and> read_completion_response demo_crypto hs1 (rr_response rr) = Inr keys
    \<and> key_request keys = rr_key_request rr \<and> key_response keys = rr_key_response rr
    \<and> rr_host_static_pub rr = public_key demo_crypto (replicate 32 0x11) \<and> trezor_state keys = [2]
    \<and> mirrors (from_handshake keys) (session_new (rr_key_response rr) (rr_key_request rr) 1 0)"
  by (rule handshake_agreement [where c = "Some [8, 9]" and cred = "Some [8, 9]"])
    (simp_all add: crypto_laws_def demo_aead_correct demo_hash_lengths demo_dh_laws)

text \<open>
  C29: an init response that has the wrong size, or on which any check of the handshake fails,
  leaves the handshake state untouched and is an error, never a panic, under the cipher's laws.
\<close>

theorem init_response_rejected:
  assumes "crypto_laws C" "length (enc (host_pairing_credential hs)) < 2 ^ 36"
    and "length (static_pub hs) = 32"
  shows "\<not> is_panic (fst (read_init_response C enc hs resp))
    \<and> (is_err (fst (read_init_response C enc hs resp)) \<longrightarrow> snd (read_init_response C enc hs resp) = hs)
    \<and> (length resp \<noteq> 96 \<longrightarrow> is_err (fst (read_init_response C enc hs resp)))"
proof (cases "length resp = 96")
  case True
  then have "\<not> is_panic (init_response_core C enc hs resp)"
    unfolding init_response_core_def Let_def split_beta using assms
    by (intro nopanic) (simp_all add: wire_lens)
  with True show ?thesis
    by (auto simp: read_init_response_def wire_lens is_panic_Inl split: sum.splits prod.splits)
qed (simp add: read_init_response_def wire_lens)

theorem init_response_rejected_witness:
  "let hs = with_ephemeral demo_crypto [10, 4] 0 (replicate 32 0x11) None (replicate 32 3);
       r = read_init_response demo_crypto (\<lambda>_. []) hs [1, 2, 3]
   in \<not> is_panic (fst r) \<and> is_err (fst r) \<and> snd r = hs"
proof -
  let ?hs = "with_ephemeral demo_crypto [10, 4] 0 (replicate 32 0x11) None (replicate 32 3)"
  have "length (static_pub ?hs) = 32"
    by (simp add: with_ephemeral_def public_key_def demo_crypto_def)
  then show ?thesis
    using init_response_rejected [of demo_crypto "\<lambda>_. []" ?hs "[1, 2, 3]"]
    by (simp add: crypto_laws_def demo_aead_correct demo_hash_lengths demo_dh_laws Let_def)
qed

end
