(* ===== verification/Connection.thy ===== *)
theory Connection
  imports Channel Noise
begin

text \<open>
  The connection driver of \<^verbatim>\<open>thp/connection.rs\<close>: framed reads and writes over the host's
  transport, the Alternating Bit Protocol, channel allocation, the handshake exchange and
  application messages.  The state of an operation is the \<^verbatim>\<open>Connection\<close> and the world
  behind its transport.
\<close>

section \<open>State\<close>

definition MSG_SUCCESS :: u16 where "MSG_SUCCESS = 2"
definition MSG_FAILURE :: u16 where "MSG_FAILURE = 3"
definition MSG_BUTTON_REQUEST :: u16 where "MSG_BUTTON_REQUEST = 26"
definition MSG_BUTTON_ACK :: u16 where "MSG_BUTTON_ACK = 27"
definition MSG_CREATE_NEW_SESSION :: u16 where "MSG_CREATE_NEW_SESSION = 1000"
definition MANAGEMENT_SESSION_ID :: u8 where "MANAGEMENT_SESSION_ID = 0"
definition SEEDED_SESSION_ID :: u8 where "SEEDED_SESSION_ID = 1"
definition CONTINUATION_BIT :: u8 where "CONTINUATION_BIT = 0x80"
definition MAX_ALLOC_READS :: nat where "MAX_ALLOC_READS = 8"

record connection =
  packet_size :: nat
  cid :: u16
  send_seq :: u8
  recv_seq :: u8
  conn_session :: "session option"
  active_session_id :: u8
  seeded_with :: "(string option \<times> bool) option"
  pending_data :: "(u8 \<times> bytes) option"

type_synonym ('w, 'a) cio = "(connection \<times> 'w, 'a) io"

definition connection_new :: "nat \<Rightarrow> connection" where
  "connection_new ps = \<lparr>packet_size = ps, cid = BROADCAST_CID, send_seq = 0, recv_seq = 0,
     conn_session = None, active_session_id = MANAGEMENT_SESSION_ID, seeded_with = None,
     pending_data = None\<rparr>"

definition seeded_key :: "connection \<Rightarrow> (string option \<times> bool) option" where
  "seeded_key c = seeded_with c"

definition set_session :: "session \<Rightarrow> ('w, unit) cio" where
  "set_session s = io_modify (\<lambda>(c, w). (c\<lparr>conn_session := Some s\<rparr>, w))"

definition conn :: "(connection \<Rightarrow> 'a) \<Rightarrow> ('w, 'a) cio" where
  "conn f = io_get (\<lambda>(c, w). f c)"

definition update :: "(connection \<Rightarrow> connection) \<Rightarrow> ('w, unit) cio" where
  "update f = io_modify (\<lambda>(c, w). (f c, w))"

section \<open>Transport errors and failures\<close>

definition em_dash :: string where "em_dash = [CHR 0xE2, CHR 0x80, CHR 0x94]"

definition decode_transport_error :: "bytes \<Rightarrow> trezor_error" where
  "decode_transport_error payload =
     (let code = (case payload of [] \<Rightarrow> 0 | b # _ \<Rightarrow> b) in
      if code = 1 then TransportBusy
      else
        let detail =
          (if code = 2 then ''the channel is unallocated '' @ em_dash @
             '' the device released it; reconnect to allocate a new one''
           else if code = 3 then
             ''decryption failed (bad authentication tag); the channel must be re-established''
           else if code = 5 then ''the device is locked '' @ em_dash @
             '' unlock your Trezor (enter your PIN on the device) and retry''
           else ''unrecognized THP transport error'')
        in thp (''THP transport error '' @ show_nat (unat code) @ '': '' @ detail))"

definition decode_failure :: "proto \<Rightarrow> bytes \<Rightarrow> trezor_error" where
  "decode_failure P body =
     (case dec_failure P body of
        Inr f \<Rightarrow>
          let code = case_option 0 id (failure_code f);
              reason = case_option [] id (failure_message f)
          in if code = 4 then UserCanceled else DeviceRejected code reason
      | Inl _ \<Rightarrow> thp ''device returned an undecodable Failure'')"

section \<open>Raw framed messages\<close>

definition write_one :: "'w host \<Rightarrow> bytes \<Rightarrow> ('w, unit) cio" where
  "write_one H packet = (\<lambda>(c, w). case write_chunk H packet w of
     (Inl e, w') \<Rightarrow> Some (Err (from_transport_error e), (c, w'))
   | (Inr _, w') \<Rightarrow> Some (Inr (), (c, w')))"

definition read_one :: "'w host \<Rightarrow> ('w, bytes) cio" where
  "read_one H = (\<lambda>(c, w). case read_chunk H w of
     (Inl e, w') \<Rightarrow> Some (Err (from_transport_error e), (c, w'))
   | (Inr b, w') \<Rightarrow> Some (Inr b, (c, w')))"

fun write_packets :: "'w host \<Rightarrow> bytes list \<Rightarrow> ('w, unit) cio" where
  "write_packets H [] = io_return ()"
| "write_packets H (p # ps) = io_bind (write_one H p) (\<lambda>_. write_packets H ps)"

definition write_framed :: "'w host \<Rightarrow> u8 \<Rightarrow> bytes \<Rightarrow> ('w, unit) cio" where
  "write_framed H ctrl payload =
     io_bind (conn (\<lambda>c. segment (packet_size c) (cid c) ctrl payload)) (\<lambda>seg.
     io_bind (io_res seg) (\<lambda>packets.
     write_packets H packets))"

definition read_framed_body ::
    "'w host \<Rightarrow> reassembler \<times> u8 \<Rightarrow> ('w, (reassembler \<times> u8) + (u8 \<times> bytes)) cio" where
  "read_framed_body H = (\<lambda>(reasm, ctrl).
     io_bind (read_one H) (\<lambda>chunk.
     if chunk = [] then io_return (Inl (reasm, ctrl))
     else
       let ctrl' = (if chunk ! 0 AND CONTINUATION_BIT = 0 then chunk ! 0 else ctrl) in
       case push_packet reasm chunk of
         (Inl e, reasm') \<Rightarrow> io_fail e
       | (Inr None, reasm') \<Rightarrow> io_return (Inl (reasm', ctrl'))
       | (Inr (Some payload), reasm') \<Rightarrow>
           if ctrl' = TRANSPORT_ERROR then io_fail (Error (decode_transport_error payload))
           else io_return (Inr (ctrl', payload))))"

definition read_framed :: "'w host \<Rightarrow> ('w, u8 \<times> bytes) cio" where
  "read_framed H = io_loop (read_framed_body H) (reassembler_new, 0)"

section \<open>Alternating Bit Protocol\<close>

definition send_ack :: "'w host \<Rightarrow> u8 \<Rightarrow> ('w, unit) cio" where
  "send_ack H acked_seq = write_framed H (ack_for acked_seq) []"

definition send_data_body :: "'w host \<Rightarrow> unit \<Rightarrow> ('w, unit + unit) cio" where
  "send_data_body H = (\<lambda>_.
     io_bind (read_framed H) (\<lambda>(rctrl, rpayload).
     if is_ack rctrl then
       io_bind (conn send_seq) (\<lambda>sq.
       if ack_seq_of rctrl = sq then
         io_bind (update (\<lambda>c. c\<lparr>send_seq := send_seq c XOR 1\<rparr>)) (\<lambda>_. io_return (Inr ()))
       else io_return (Inl ()))
     else
       io_bind (update (\<lambda>c. c\<lparr>send_seq := send_seq c XOR 1\<rparr>)) (\<lambda>_.
       let sq = seq_of rctrl in
       io_bind (send_ack H sq) (\<lambda>_.
       io_bind (update (\<lambda>c. if sq = recv_seq c
          then c\<lparr>recv_seq := recv_seq c XOR 1, pending_data := Some (rctrl, rpayload)\<rparr> else c)) (\<lambda>_.
       io_return (Inr ()))))))"

definition send_data :: "'w host \<Rightarrow> u8 \<Rightarrow> bytes \<Rightarrow> ('w, unit) cio" where
  "send_data H base_ctrl payload =
     io_bind (conn (\<lambda>c. with_seq base_ctrl (send_seq c))) (\<lambda>ctrl.
     io_bind (write_framed H ctrl payload) (\<lambda>_.
     io_loop (send_data_body H) ()))"

definition recv_data_body :: "'w host \<Rightarrow> unit \<Rightarrow> ('w, unit + (u8 \<times> bytes)) cio" where
  "recv_data_body H = (\<lambda>_.
     io_bind (read_framed H) (\<lambda>(ctrl, payload).
     if is_ack ctrl then io_return (Inl ())
     else
       let sq = seq_of ctrl in
       io_bind (send_ack H sq) (\<lambda>_.
       io_bind (conn recv_seq) (\<lambda>rs.
       if sq = rs then
         io_bind (update (\<lambda>c. c\<lparr>recv_seq := recv_seq c XOR 1\<rparr>)) (\<lambda>_.
         io_return (Inr (ctrl, payload)))
       else io_return (Inl ())))))"

definition recv_data :: "'w host \<Rightarrow> ('w, u8 \<times> bytes) cio" where
  "recv_data H =
     io_bind (conn pending_data) (\<lambda>pending.
     case pending of
       Some frame \<Rightarrow> io_bind (update (\<lambda>c. c\<lparr>pending_data := None\<rparr>)) (\<lambda>_. io_return frame)
     | None \<Rightarrow> io_loop (recv_data_body H) ())"

section \<open>Allocation and handshake\<close>

fun allocate_reads :: "'w host \<Rightarrow> proto \<Rightarrow> bytes \<Rightarrow> nat \<Rightarrow> ('w, channel_allocation) cio" where
  "allocate_reads H P nonce 0 =
     io_fail (Error (thp ''no matching channel allocation response received''))"
| "allocate_reads H P nonce (Suc n) =
     io_bind (read_framed H) (\<lambda>(ctrl, payload).
     if ctrl = CHANNEL_ALLOCATION_RESPONSE then
       case parse_allocation_response P nonce payload of
         Inr allocation \<Rightarrow>
           io_bind (update (\<lambda>c. c\<lparr>cid := ca_cid allocation, send_seq := 0, recv_seq := 0,
             pending_data := None\<rparr>)) (\<lambda>_.
           io_return allocation)
       | Inl (Panic s) \<Rightarrow> io_fail (Panic s)
       | Inl (Error _) \<Rightarrow> allocate_reads H P nonce n
     else allocate_reads H P nonce n)"

definition allocate :: "'w host \<Rightarrow> proto \<Rightarrow> ('w, channel_allocation) cio" where
  "allocate H P =
     io_bind (random_allocation_nonce H) (\<lambda>nonce.
     io_bind (update (\<lambda>c. c\<lparr>cid := BROADCAST_CID\<rparr>)) (\<lambda>_.
     io_bind (write_framed H CHANNEL_ALLOCATION_REQUEST (build_allocation_request nonce)) (\<lambda>_.
     allocate_reads H P nonce MAX_ALLOC_READS)))"

definition random_scalar :: "'w host \<Rightarrow> ('w, bytes) cio" where
  "random_scalar H = random_bytes H 32"

definition host_handshake_new ::
    "'w host \<Rightarrow> crypto \<Rightarrow> bytes \<Rightarrow> u8 \<Rightarrow> bytes \<Rightarrow> bytes option \<Rightarrow> ('w, host_handshake) cio" where
  "host_handshake_new H C props unlock spriv cred =
     io_bind (random_scalar H) (\<lambda>epriv.
     io_return (with_ephemeral C props unlock spriv cred epriv))"

definition handshake :: "'w host \<Rightarrow> crypto \<Rightarrow> proto \<Rightarrow> bytes \<Rightarrow> bytes \<Rightarrow> bytes option \<Rightarrow>
    ('w, session_keys) cio" where
  "handshake H C P device_properties_raw host_static_priv credential =
     io_bind (host_handshake_new H C device_properties_raw 0 host_static_priv credential) (\<lambda>hs.
     io_bind (send_data H HANDSHAKE_INIT_REQUEST (init_request_payload hs)) (\<lambda>_.
     io_bind (recv_data H) (\<lambda>(_, init_resp).
     let (r, hs') = read_init_response C (enc_noise_payload P) hs init_resp in
     io_bind (io_res r) (\<lambda>completion.
     io_bind (send_data H HANDSHAKE_COMPLETION_REQUEST completion) (\<lambda>_.
     io_bind (recv_data H) (\<lambda>(_, comp_resp).
     io_res (read_completion_response C hs' comp_resp)))))))"

section \<open>Application messages\<close>

definition NO_SESSION :: fault where
  "NO_SESSION = Error (thp ''no encrypted session established'')"

definition send_app :: "'w host \<Rightarrow> crypto \<Rightarrow> u16 \<Rightarrow> bytes \<Rightarrow> ('w, unit) cio" where
  "send_app H C message_type protobuf =
     io_bind (conn active_session_id) (\<lambda>session_id.
     io_bind (conn conn_session) (\<lambda>so.
     case so of
       None \<Rightarrow> io_fail NO_SESSION
     | Some s \<Rightarrow>
         let (r, s') = session_seal C s (encode_app_message session_id message_type protobuf) in
         io_bind (update (\<lambda>c. c\<lparr>conn_session := Some s'\<rparr>)) (\<lambda>_.
         io_bind (io_res r) (\<lambda>ct.
         send_data H ENCRYPTED_TRANSPORT ct))))"

definition recv_app :: "'w host \<Rightarrow> crypto \<Rightarrow> ('w, u16 \<times> bytes) cio" where
  "recv_app H C =
     io_bind (recv_data H) (\<lambda>(_, ct).
     io_bind (conn conn_session) (\<lambda>so.
     case so of
       None \<Rightarrow> io_fail NO_SESSION
     | Some s \<Rightarrow>
         let (r, s') = session_open C s ct in
         io_bind (update (\<lambda>c. c\<lparr>conn_session := Some s'\<rparr>)) (\<lambda>_.
         io_bind (io_res r) (\<lambda>pt.
         io_bind (io_res (decode_app_message pt)) (\<lambda>(_, message_type, body).
         io_return (message_type, body))))))"

definition transceive_body ::
    "'w host \<Rightarrow> crypto \<Rightarrow> proto \<Rightarrow> unit \<Rightarrow> ('w, unit + (u16 \<times> bytes)) cio" where
  "transceive_body H C P = (\<lambda>_.
     io_bind (recv_app H C) (\<lambda>(rt, rp).
     if rt = MSG_BUTTON_REQUEST then
       io_bind (send_app H C MSG_BUTTON_ACK (enc_button_ack P)) (\<lambda>_. io_return (Inl ()))
     else if rt = MSG_FAILURE then io_fail (Error (decode_failure P rp))
     else io_return (Inr (rt, rp))))"

definition transceive :: "'w host \<Rightarrow> crypto \<Rightarrow> proto \<Rightarrow> u16 \<Rightarrow> bytes \<Rightarrow> ('w, u16 \<times> bytes) cio" where
  "transceive H C P message_type protobuf =
     io_bind (send_app H C message_type protobuf) (\<lambda>_.
     io_loop (transceive_body H C P) ())"

definition transceive_on ::
    "'w host \<Rightarrow> crypto \<Rightarrow> proto \<Rightarrow> u8 \<Rightarrow> u16 \<Rightarrow> bytes \<Rightarrow> ('w, u16 \<times> bytes) cio" where
  "transceive_on H C P session_id message_type protobuf =
     io_bind (update (\<lambda>c. c\<lparr>active_session_id := session_id\<rparr>)) (\<lambda>_.
     transceive H C P message_type protobuf)"

definition create_seeded_session ::
    "'w host \<Rightarrow> crypto \<Rightarrow> proto \<Rightarrow> string option \<Rightarrow> bool \<Rightarrow> ('w, unit) cio" where
  "create_seeded_session H C P passphrase on_device =
     io_bind (update (\<lambda>c. c\<lparr>active_session_id := SEEDED_SESSION_ID\<rparr>)) (\<lambda>_.
     io_bind (transceive H C P MSG_CREATE_NEW_SESSION
       (enc_create_new_session P passphrase (Some on_device) (Some False))) (\<lambda>(rt, _).
     if rt \<noteq> MSG_SUCCESS then
       io_fail (Error (thp (''expected Success after ThpCreateNewSession, got message type '' @ show_nat (unat rt))))
     else update (\<lambda>c. c\<lparr>seeded_with := Some (passphrase, on_device)\<rparr>)))"

section \<open>Behaviour on an arbitrary transport\<close>

lemma wlp_conn [wlp_simps]:
  "wlp (conn f) Q1 (c, w) \<longleftrightarrow> Q1 (Inr (f c)) (c, w)"
  "wlp (update g) Q2 (c, w) \<longleftrightarrow> Q2 (Inr ()) (g c, w)"
  by (simp_all add: conn_def update_def wlp_simps)

text \<open>Reads and writes leave the connection alone and never panic.\<close>

lemma wlp_read_one:
  "(\<And>r w'. \<not> is_panic r \<Longrightarrow> Q r (c, w')) \<Longrightarrow> wlp (read_one H) Q (c, w)"
  by (auto simp: wlp_def read_one_def split: option.splits sum.splits prod.splits)

lemma wlp_write_one:
  "(\<And>r w'. \<not> is_panic r \<Longrightarrow> Q r (c, w')) \<Longrightarrow> wlp (write_one H p) Q (c, w)"
  by (auto simp: wlp_def write_one_def split: option.splits sum.splits prod.splits)

lemma wlp_write_packets:
  "(\<And>r w'. \<not> is_panic r \<Longrightarrow> Q r (c, w')) \<Longrightarrow> wlp (write_packets H ps) Q (c, w)"
proof (induction ps arbitrary: w)
  case (Cons p ps)
  then show ?case
    by (auto simp: wlp_simps is_panic_Inl split: sum.splits intro!: wlp_write_one Cons.IH)
qed (simp add: wlp_simps)

lemma wlp_write_framed:
  assumes "\<And>r w'. \<not> is_panic r \<Longrightarrow> Q r (c, w')"
  shows "wlp (write_framed H ctrl p) Q (c, w)"
  using segment_nopanic [of "packet_size c" "cid c" ctrl p]
  by (auto simp: write_framed_def wlp_simps is_panic_Inl split: sum.splits intro!: wlp_write_packets assms)

lemma wlp_read_framed:
  assumes "\<And>r w'. \<not> is_panic r \<Longrightarrow> (\<And>ctrl p. r = Inr (ctrl, p) \<Longrightarrow> ctrl \<noteq> TRANSPORT_ERROR) \<Longrightarrow> Q r (c, w')"
  shows "wlp (read_framed H) Q (c, w)"
  unfolding read_framed_def
proof (rule wlp_loop [where I = "\<lambda>x s. fst s = c \<and> reasm_ok (fst x)"])
  fix x :: "reassembler \<times> u8" and s :: "connection \<times> 'a"
  assume I: "fst s = c \<and> reasm_ok (fst x)"
  then have ok: "reasm_ok (snd (push_packet (fst x) chunk))" "fst (push_packet (fst x) chunk) \<noteq> Inl (Panic t)" for chunk t
    using push_packet_ok [of "fst x" chunk] by auto
  obtain w where s: "s = (c, w)" using I by (cases s) auto
  show "wlp (read_framed_body H x) (\<lambda>r s'. case r of Inl e \<Rightarrow> Q (Inl e) s'
      | Inr (Inl x') \<Rightarrow> fst s' = c \<and> reasm_ok (fst x') | Inr (Inr a) \<Rightarrow> Q (Inr a) s') s"
    unfolding read_framed_body_def s split_beta wlp_simps
    using I [unfolded s] ok
    by (intro wlp_read_one)
      (auto simp: wlp_simps Let_def is_panic_Inl s split: sum.splits option.splits prod.splits intro!: assms)
qed (simp add: reasm.inv_start)

lemma wlp_send_ack:
  "(\<And>r w'. \<not> is_panic r \<Longrightarrow> Q r (c, w')) \<Longrightarrow> wlp (send_ack H sq) Q (c, w)"
  unfolding send_ack_def by (rule wlp_write_framed)

lemma wlp_recv_data:
  assumes "\<And>f w'. pending_data c = Some f \<Longrightarrow> Q (Inr f) (c\<lparr>pending_data := None\<rparr>, w')"
    and "\<And>ctrl p w'. pending_data c = None \<Longrightarrow> \<not> is_ack ctrl \<Longrightarrow> ctrl \<noteq> TRANSPORT_ERROR \<Longrightarrow>
      seq_of ctrl = recv_seq c \<Longrightarrow> Q (Inr (ctrl, p)) (c\<lparr>recv_seq := recv_seq c XOR 1\<rparr>, w')"
    and "\<And>e w'. Q (Err e) (c, w')"
  shows "wlp (recv_data H) Q (c, w)"
proof (cases "pending_data c")
  case (Some f)
  then show ?thesis using assms(1) by (simp add: recv_data_def wlp_simps)
next
  case None
  have err: "\<not> is_panic (Inl e :: 'x res) \<Longrightarrow> Q (Inl e) (c, w')" for e w'
    using assms(3) by (cases e) auto
  have "wlp (io_loop (recv_data_body H) ()) Q (c, w)"
  proof (rule wlp_loop [where I = "\<lambda>x s. fst s = c"])
    fix x and s :: "connection \<times> 'a"
    assume "fst s = c"
    then obtain w where s: "s = (c, w)" by (cases s) auto
    show "wlp (recv_data_body H x) (\<lambda>r s'. case r of Inl e \<Rightarrow> Q (Inl e) s'
        | Inr (Inl x') \<Rightarrow> fst s' = c | Inr (Inr a) \<Rightarrow> Q (Inr a) s') s"
      unfolding recv_data_body_def s wlp_simps
      by (rule wlp_read_framed)
        (auto simp: wlp_simps Let_def split: sum.splits intro!: wlp_send_ack err assms(2) None)
  qed simp
  with None show ?thesis by (simp add: recv_data_def wlp_simps)
qed

text \<open>What the Alternating Bit Protocol never touches.\<close>

definition same_channel :: "connection \<Rightarrow> connection \<Rightarrow> bool" where
  "same_channel c c' \<longleftrightarrow> packet_size c' = packet_size c \<and> cid c' = cid c
     \<and> conn_session c' = conn_session c \<and> active_session_id c' = active_session_id c
     \<and> seeded_with c' = seeded_with c"

lemma wlp_send_data:
  assumes "\<And>c' w'. same_channel c c' \<Longrightarrow> send_seq c' = send_seq c XOR 1 \<Longrightarrow> Q (Inr ()) (c', w')"
    and "\<And>e c' w'. same_channel c c' \<Longrightarrow> Q (Err e) (c', w')"
  shows "wlp (send_data H base p) Q (c, w)"
proof -
  have err: "\<not> is_panic (Inl e :: 'x res) \<Longrightarrow> same_channel c c' \<Longrightarrow> Q (Inl e) (c', w')" for e c' w'
    using assms(2) by (cases e) auto
  have "wlp (io_loop (send_data_body H) ()) Q (c, w)" for w
  proof (rule wlp_loop [where I = "\<lambda>x s. fst s = c"])
    fix x and s :: "connection \<times> 'a"
    assume "fst s = c"
    then obtain w where s: "s = (c, w)" by (cases s) auto
    show "wlp (send_data_body H x) (\<lambda>r s'. case r of Inl e \<Rightarrow> Q (Inl e) s'
        | Inr (Inl x') \<Rightarrow> fst s' = c | Inr (Inr a) \<Rightarrow> Q (Inr a) s') s"
      unfolding send_data_body_def s wlp_simps
      by (rule wlp_read_framed)
        (auto simp: wlp_simps Let_def same_channel_def split: sum.splits intro!: wlp_send_ack err assms(1))
  qed simp
  then show ?thesis
    by (auto simp: send_data_def wlp_simps same_channel_def split: sum.splits intro!: wlp_write_framed err)
qed

text \<open>What application messages keep: everything but the sequence bits and the session's nonces.\<close>

definition same_wallet :: "connection \<Rightarrow> connection \<Rightarrow> bool" where
  "same_wallet c c' \<longleftrightarrow> packet_size c' = packet_size c \<and> cid c' = cid c
     \<and> active_session_id c' = active_session_id c \<and> seeded_with c' = seeded_with c
     \<and> (conn_session c' = None \<longleftrightarrow> conn_session c = None)"

lemma same_wallet_refl: "same_wallet c c"
  by (simp add: same_wallet_def)

lemma same_wallet_trans: "same_wallet c c' \<Longrightarrow> same_wallet c' c'' \<Longrightarrow> same_wallet c c''"
  by (simp add: same_wallet_def)

lemma wlp_send_app:
  assumes "\<And>r c' w'. same_wallet c c' \<Longrightarrow> Q r (c', w')"
  shows "wlp (send_app H C mt pb) Q (c, w)"
  using assms
  by (auto simp: send_app_def wlp_simps same_wallet_def same_channel_def split_beta Let_def
      split: option.splits sum.splits intro!: wlp_send_data)

lemma wlp_recv_app:
  assumes "\<And>r c' w'. same_wallet c c' \<Longrightarrow> Q r (c', w')"
  shows "wlp (recv_app H C) Q (c, w)"
  using assms
  by (auto simp: recv_app_def wlp_simps same_wallet_def split_beta Let_def
      split: option.splits sum.splits intro!: wlp_recv_data)

lemma wlp_transceive:
  assumes "\<And>rt rp c' w'. same_wallet c c' \<Longrightarrow> rt \<noteq> MSG_BUTTON_REQUEST \<Longrightarrow> rt \<noteq> MSG_FAILURE \<Longrightarrow>
      Q (Inr (rt, rp)) (c', w')"
    and "\<And>e c' w'. same_wallet c c' \<Longrightarrow> Q (Inl e) (c', w')"
  shows "wlp (transceive H C P mt pb) Q (c, w)"
proof -
  have "wlp (io_loop (transceive_body H C P) ()) Q (c', w')" if "same_wallet c c'" for c' w'
  proof (rule wlp_loop [where I = "\<lambda>x s. same_wallet c (fst s)"])
    fix x and s :: "connection \<times> 'a"
    assume s: "same_wallet c (fst s)"
    show "wlp (transceive_body H C P x) (\<lambda>r s'. case r of Inl e \<Rightarrow> Q (Inl e) s'
        | Inr (Inl x') \<Rightarrow> same_wallet c (fst s') | Inr (Inr a) \<Rightarrow> Q (Inr a) s') s"
    proof (cases s)
      case (Pair c1 w1)
      have c: "same_wallet c c2" if "same_wallet c1 c2" for c2
        using s that same_wallet_trans by (simp add: Pair)
      show ?thesis
        unfolding Pair transceive_body_def wlp_simps
      proof (rule wlp_recv_app, goal_cases)
        case (1 r c2 w2)
        note c2 = c [OF 1]
        have "wlp (send_app H C m b) (\<lambda>r s'. case r of Inl e \<Rightarrow> Q (Inl e) s' | Inr _ \<Rightarrow> same_wallet c (fst s')) (c2, w2)" for m b
          by (rule wlp_send_app) (use c2 same_wallet_trans assms(2) in \<open>auto split: sum.splits\<close>)
        then have "wlp (io_bind (send_app H C m b) (\<lambda>_. io_return (Inl ()))) (\<lambda>r s'. case r of Inl e \<Rightarrow> Q (Inl e) s'
            | Inr (Inl x') \<Rightarrow> same_wallet c (fst s') | Inr (Inr a) \<Rightarrow> Q (Inr a) s') (c2, w2)" for m b
          unfolding wlp_simps by (rule wlp_conseq) (auto split: sum.splits)
        with c2 assms show ?case by (cases r) (auto simp: wlp_effects)
      qed
    qed
  qed (use that in simp)
  then show ?thesis
    by (auto simp: transceive_def wlp_simps split: sum.splits intro!: wlp_send_app assms(2))
qed

lemma wlp_transceive_on:
  assumes "\<And>rt rp c' w'. same_wallet (c\<lparr>active_session_id := sid\<rparr>) c' \<Longrightarrow> rt \<noteq> MSG_BUTTON_REQUEST \<Longrightarrow>
      rt \<noteq> MSG_FAILURE \<Longrightarrow> Q (Inr (rt, rp)) (c', w')"
    and "\<And>e c' w'. same_wallet (c\<lparr>active_session_id := sid\<rparr>) c' \<Longrightarrow> Q (Inl e) (c', w')"
  shows "wlp (transceive_on H C P sid mt pb) Q (c, w)"
  using assms by (auto simp: transceive_on_def wlp_simps intro!: wlp_transceive)

lemma wlp_create_seeded_session:
  assumes "\<And>c' w'. same_wallet (c\<lparr>active_session_id := SEEDED_SESSION_ID, seeded_with := Some (pass, on_dev)\<rparr>) c' \<Longrightarrow>
      Q (Inr ()) (c', w')"
    and "\<And>e c' w'. same_wallet (c\<lparr>active_session_id := SEEDED_SESSION_ID\<rparr>) c' \<Longrightarrow> Q (Inl e) (c', w')"
  shows "wlp (create_seeded_session H C P pass on_dev) Q (c, w)"
  unfolding create_seeded_session_def wlp_simps
  by (auto simp: wlp_simps split_beta intro!: wlp_transceive assms)
    (auto simp: same_wallet_def)

section \<open>Properties\<close>


text \<open>
  C32: whatever the transport delivers, the reply \<open>transceive_on\<close> returns is neither a button request
  (those are acknowledged and waited out) nor a failure (those become errors); the exchange runs on
  the requested session id and never changes the channel or the wallet the connection is seeded with.
\<close>

theorem transceive_on_any_transport:
  "case transceive_on H C P sid mt pb (c, w) of None \<Rightarrow> True | Some (r, (c', w')) \<Rightarrow>
     active_session_id c' = sid \<and> seeded_with c' = seeded_with c \<and> cid c' = cid c
     \<and> packet_size c' = packet_size c
     \<and> (case r of Inr (rt, rp) \<Rightarrow> rt \<noteq> MSG_BUTTON_REQUEST \<and> rt \<noteq> MSG_FAILURE | Inl _ \<Rightarrow> True)"
proof -
  have "wlp (transceive_on H C P sid mt pb) (\<lambda>r s. same_wallet (c\<lparr>active_session_id := sid\<rparr>) (fst s)
      \<and> (case r of Inr a \<Rightarrow> fst a \<noteq> MSG_BUTTON_REQUEST \<and> fst a \<noteq> MSG_FAILURE | Inl _ \<Rightarrow> True)) (c, w)"
    by (rule wlp_transceive_on) simp_all
  then show ?thesis by (auto simp: wlp_def same_wallet_def split: option.splits sum.splits)
qed

text \<open>
  Whatever the transport delivers, a connection is marked as seeded with a wallet (passphrase and
  on-device flag) exactly by a \<open>create_seeded_session\<close> of that wallet that succeeded; a failed one
  keeps the previous mark.
\<close>

lemma create_seeded_session_marks:
  "case create_seeded_session H C P pass on_dev (c, w) of None \<Rightarrow> True | Some (r, (c', w')) \<Rightarrow>
     active_session_id c' = SEEDED_SESSION_ID \<and> cid c' = cid c
     \<and> seeded_key c' = (case r of Inr _ \<Rightarrow> Some (pass, on_dev) | Inl _ \<Rightarrow> seeded_key c)"
proof -
  have "wlp (create_seeded_session H C P pass on_dev) (\<lambda>r s. active_session_id (fst s) = SEEDED_SESSION_ID
      \<and> cid (fst s) = cid c \<and> seeded_key (fst s) = (case r of Inr _ \<Rightarrow> Some (pass, on_dev) | Inl _ \<Rightarrow> seeded_key c)) (c, w)"
    by (rule wlp_create_seeded_session) (simp_all add: same_wallet_def seeded_key_def)
  then show ?thesis by (auto simp: wlp_def split: option.splits)
qed

text \<open>
  A device \<open>Failure\<close> becomes \<open>UserCanceled\<close> exactly for code 4 (\<open>ActionCancelled\<close>); every other
  decodable failure, \<open>PinCancelled\<close> (code 6) included, becomes \<open>DeviceRejected\<close> with its code and
  message, a missing code counting as 0.
\<close>

lemma decode_failure_codes:
  "(decode_failure P body = UserCanceled \<longleftrightarrow> (\<exists>m. dec_failure P body = Inr \<lparr>failure_code = Some 4, failure_message = m\<rparr>))
   \<and> (decode_failure P body = DeviceRejected code reason \<longleftrightarrow> code \<noteq> 4 \<and>
        (\<exists>f. dec_failure P body = Inr f \<and> code = case_option 0 id (failure_code f)
           \<and> reason = case_option [] id (failure_message f)))"
proof -
  have "(case_option 0 id co = (4::int)) \<longleftrightarrow> co = Some 4" for co
    by (cases co) auto
  moreover have "failure_code f = Some 4 \<longleftrightarrow> (\<exists>m. f = \<lparr>failure_code = Some 4, failure_message = m\<rparr>)" for f
    by (cases f) auto
  ultimately show ?thesis
    by (auto simp: decode_failure_def thp_def Let_def split: sum.splits)
qed

end
