(* ===== verification/Link.thy ===== *)
theory Link
  imports Connection
begin

text \<open>
  The Alternating Bit Protocol of \<^verbatim>\<open>thp/connection.rs\<close> at the level of whole frames.
  The specification functions say what \<^verbatim>\<open>recv_data\<close> and the waiting loop of
  \<^verbatim>\<open>send_data\<close> do to a queue of arriving frames; the locale \<open>frame_link\<close> is the
  contract of a transport that delivers frames in order, and in it the connection's operations
  are proved to implement the specification.
\<close>

type_synonym frame = "u8 \<times> bytes"

section \<open>Specification\<close>

text \<open>
  \<open>abp_recv c fs = Some (r, c', rest, acks)\<close>: with the frames \<open>fs\<close> arriving, a receive ends
  with \<open>r\<close>, leaves \<open>rest\<close> in the queue and has acknowledged the sequence bits \<open>acks\<close>, in order.
  \<open>None\<close>: the frames at hand do not decide the receive.
\<close>

fun abp_recv :: "connection \<Rightarrow> frame list \<Rightarrow> (frame res \<times> connection \<times> frame list \<times> u8 list) option" where
  "abp_recv c [] = None"
| "abp_recv c ((ctrl, p) # fs) =
     (if ctrl = TRANSPORT_ERROR then Some (Err (decode_transport_error p), c, fs, [])
      else if is_ack ctrl then abp_recv c fs
      else if seq_of ctrl = recv_seq c
      then Some (Inr (ctrl, p), c\<lparr>recv_seq := recv_seq c XOR 1\<rparr>, fs, [seq_of ctrl])
      else map_option (\<lambda>(r, c', rest, acks). (r, c', rest, seq_of ctrl # acks)) (abp_recv c fs))"

text \<open>
  The wait for an acknowledgement: a matching one ends it, another is skipped, and a data frame
  counts as an implicit acknowledgement; it is acknowledged itself and stashed when fresh.
\<close>

definition stash :: "connection \<Rightarrow> frame \<Rightarrow> connection" where
  "stash c f = (let c' = c\<lparr>send_seq := send_seq c XOR 1\<rparr> in
     if seq_of (fst f) = recv_seq c
     then c'\<lparr>recv_seq := recv_seq c XOR 1, pending_data := Some f\<rparr> else c')"

fun abp_await :: "connection \<Rightarrow> frame list \<Rightarrow> (unit res \<times> connection \<times> frame list \<times> u8 list) option" where
  "abp_await c [] = None"
| "abp_await c ((ctrl, p) # fs) =
     (if ctrl = TRANSPORT_ERROR then Some (Err (decode_transport_error p), c, fs, [])
      else if is_ack ctrl then
        if ack_seq_of ctrl = send_seq c
        then Some (Inr (), c\<lparr>send_seq := send_seq c XOR 1\<rparr>, fs, [])
        else abp_await c fs
      else Some (Inr (), stash c (ctrl, p), fs, [seq_of ctrl]))"

section \<open>The contract of a frame transport\<close>

text \<open>
  \<open>link fs d w\<close>: in the world \<open>w\<close> the frames \<open>fs\<close> are on their way to the host and the device is
  in state \<open>d\<close>.  A frame written by the host makes the device \<open>react\<close>: it changes state and sends
  frames (\<open>None\<close>: it rejects the frame).  An acknowledgement is \<open>noted\<close> and answered by nothing.
\<close>

locale frame_link =
  fixes H :: "'w host"
    and react :: "frame \<Rightarrow> 'd \<Rightarrow> (frame list \<times> 'd) option"
    and noted :: "u8 \<Rightarrow> 'd \<Rightarrow> 'd"
    and link :: "frame list \<Rightarrow> 'd \<Rightarrow> 'w \<Rightarrow> bool"
  assumes read_next: "link ((ctrl, p) # fs) d w \<Longrightarrow> ctrl \<noteq> TRANSPORT_ERROR \<Longrightarrow>
      \<exists>w'. read_framed H (c, w) = Some (Inr (ctrl, p), (c, w')) \<and> link fs d w'"
    and read_error: "link ((TRANSPORT_ERROR, p) # fs) d w \<Longrightarrow>
      \<exists>w'. read_framed H (c, w) = Some (Err (decode_transport_error p), (c, w')) \<and> link fs d w'"
    and write_frame: "link fs d w \<Longrightarrow> fits (packet_size c) p \<Longrightarrow> \<not> bit ctrl 7 \<Longrightarrow>
      react (ctrl, p) d = Some (out, d') \<Longrightarrow>
      \<exists>w'. write_framed H ctrl p (c, w) = Some (Inr (), (c, w')) \<and> link (fs @ out) d' w'"
    and react_ack: "react (ack_for sq, []) d = Some ([], noted sq d)"
begin

text \<open>The device after it has seen acknowledgements.\<close>

abbreviation noted_all :: "u8 list \<Rightarrow> 'd \<Rightarrow> 'd" where
  "noted_all acks d \<equiv> foldl (\<lambda>d sq. noted sq d) d acks"

lemma send_ack_step:
  assumes "link fs d w" "INIT_HEADER < packet_size c"
  shows "\<exists>w'. send_ack H sq (c, w) = Some (Inr (), (c, w')) \<and> link fs (noted sq d) w'"
proof -
  have "\<not> bit (ack_for sq) 7" by (simp add: ack_for_def control_defs)
  moreover have "fits (packet_size c) []" using assms(2) by (simp add: fits_def header_defs)
  ultimately show ?thesis
    using write_frame [OF assms(1) _ _ react_ack] unfolding send_ack_def by fastforce
qed

lemma recv_loop_refines:
  assumes "abp_recv c fs = Some (r, c', rest, acks)" "link fs d w" "INIT_HEADER < packet_size c"
  shows "\<exists>w'. io_loop (recv_data_body H) () (c, w) = Some (r, (c', w')) \<and> link rest (noted_all acks d) w'"
  using assms
proof (induction c fs arbitrary: d w acks r c' rest rule: abp_recv.induct)
  case (2 c ctrl p fs)
  show ?case
  proof (cases "ctrl = TRANSPORT_ERROR")
    case True
    with read_error [of p fs d w c] 2(4) obtain w' where
      "read_framed H (c, w) = Some (Err (decode_transport_error p), (c, w'))" "link fs d w'" by auto
    with True 2(3) show ?thesis by (auto intro!: io_loop_fail simp: recv_data_body_def io_bind_Some)
  next
    case False
    with read_next 2 obtain w' where
      rd: "read_framed H (c, w) = Some (Inr (ctrl, p), (c, w'))" "link fs d w'" by blast
    show ?thesis
    proof (cases "is_ack ctrl")
      case True
      with rd have "recv_data_body H () (c, w) = Some (Inr (Inl ()), (c, w'))"
        by (simp add: recv_data_body_def io_bind_Some)
      with 2 False True rd show ?thesis by (auto simp: io_loop_again)
    next
      case data: False
      obtain w'' where ack: "send_ack H (seq_of ctrl) (c, w') = Some (Inr (), (c, w''))"
          "link fs (noted (seq_of ctrl) d) w''"
        using send_ack_step [OF rd(2), of c "seq_of ctrl"] 2(5) by auto
      show ?thesis
      proof (cases "seq_of ctrl = recv_seq c")
        case True
        with rd data ack have "recv_data_body H () (c, w) =
            Some (Inr (Inr (ctrl, p)), (c\<lparr>recv_seq := recv_seq c XOR 1\<rparr>, w''))"
          by (simp add: recv_data_body_def io_bind_Some conn_def update_def Let_def)
        with 2 False data True ack show ?thesis by (auto simp: io_loop_leave)
      next
        case old: False
        with rd data ack have "recv_data_body H () (c, w) = Some (Inr (Inl ()), (c, w''))"
          by (simp add: recv_data_body_def io_bind_Some conn_def Let_def)
        moreover obtain acks' where "acks = seq_of ctrl # acks'" "abp_recv c fs = Some (r, c', rest, acks')"
          using 2 False data old by auto
        ultimately show ?thesis
          using "2.IH"(2) [OF False data old _ ack(2)] 2(5) by (auto simp: io_loop_again)
      qed
    qed
  qed
qed simp

lemma recv_data_refines:
  assumes "abp_recv c fs = Some (r, c', rest, acks)" "link fs d w" "INIT_HEADER < packet_size c"
    and "pending_data c = None"
  shows "\<exists>w'. recv_data H (c, w) = Some (r, (c', w')) \<and> link rest (noted_all acks d) w'"
  using recv_loop_refines [OF assms(1-3)] assms(4) by (simp add: recv_data_def conn_def)

lemma recv_data_pending:
  assumes "pending_data c = Some f"
  shows "recv_data H (c, w) = Some (Inr f, (c\<lparr>pending_data := None\<rparr>, w))"
  using assms by (simp add: recv_data_def conn_def update_def)

lemma await_refines:
  assumes "abp_await c fs = Some (r, c', rest, acks)" "link fs d w" "INIT_HEADER < packet_size c"
  shows "\<exists>w'. io_loop (send_data_body H) () (c, w) = Some (r, (c', w')) \<and> link rest (noted_all acks d) w'"
  using assms
proof (induction c fs arbitrary: d w rule: abp_await.induct)
  case (2 c ctrl p fs)
  show ?case
  proof (cases "ctrl = TRANSPORT_ERROR")
    case True
    with read_error [of p fs d w c] 2(3) obtain w' where
      "read_framed H (c, w) = Some (Err (decode_transport_error p), (c, w'))" "link fs d w'" by auto
    with True 2(2) show ?thesis by (auto intro!: io_loop_fail simp: send_data_body_def io_bind_Some)
  next
    case False
    with read_next 2 obtain w' where
      rd: "read_framed H (c, w) = Some (Inr (ctrl, p), (c, w'))" "link fs d w'" by blast
    show ?thesis
    proof (cases "is_ack ctrl")
      case ack: True
      show ?thesis
      proof (cases "ack_seq_of ctrl = send_seq c")
        case True
        with rd ack have "send_data_body H () (c, w) =
            Some (Inr (Inr ()), (c\<lparr>send_seq := send_seq c XOR 1\<rparr>, w'))"
          by (simp add: send_data_body_def io_bind_Some conn_def update_def)
        with 2 False ack True rd show ?thesis by (auto simp: io_loop_leave)
      next
        case stale: False
        with rd ack have "send_data_body H () (c, w) = Some (Inr (Inl ()), (c, w'))"
          by (simp add: send_data_body_def io_bind_Some conn_def)
        with 2 False ack stale rd show ?thesis by (auto simp: io_loop_again)
      qed
    next
      case data: False
      obtain w'' where "send_ack H (seq_of ctrl) (c\<lparr>send_seq := send_seq c XOR 1\<rparr>, w') =
          Some (Inr (), (c\<lparr>send_seq := send_seq c XOR 1\<rparr>, w''))" "link fs (noted (seq_of ctrl) d) w''"
        using send_ack_step [OF rd(2), of "c\<lparr>send_seq := send_seq c XOR 1\<rparr>" "seq_of ctrl"] 2(4) by auto
      with rd data have "send_data_body H () (c, w) = Some (Inr (Inr ()), (stash c (ctrl, p), w''))"
        by (simp add: send_data_body_def io_bind_Some update_def Let_def stash_def)
      with 2 False data \<open>link fs (noted (seq_of ctrl) d) w''\<close> show ?thesis
        by (auto simp: io_loop_leave)
    qed
  qed
qed simp

lemma send_data_refines:
  assumes "link fs d w" "fits (packet_size c) p" "\<not> bit base 7"
    and "react (with_seq base (send_seq c), p) d = Some (out, d')"
    and "abp_await c (fs @ out) = Some (r, c', rest, acks)"
  shows "\<exists>w'. send_data H base p (c, w) = Some (r, (c', w')) \<and> link rest (noted_all acks d') w'"
proof -
  let ?ctrl = "with_seq base (send_seq c)"
  have "\<not> bit ?ctrl 7" using assms(3) by (simp add: with_seq_def control_defs bit_simps)
  then obtain w1 where "write_framed H ?ctrl p (c, w) = Some (Inr (), (c, w1))" "link (fs @ out) d' w1"
    using write_frame [OF assms(1,2) _ assms(4)] by blast
  moreover from this have "\<exists>w'. io_loop (send_data_body H) () (c, w1) = Some (r, (c', w')) \<and> link rest (noted_all acks d') w'"
    using await_refines [OF assms(5)] assms(2) by (simp add: fits_def)
  ultimately show ?thesis by (simp add: send_data_def conn_def io_bind_Some)
qed

text \<open>One request and its reply, acknowledged on both sides, with both sequence bits in step.\<close>

lemma exchange:
  assumes "link [] d w" "fits (packet_size c) p" "\<not> bit base 7"
    and "send_seq c = s" "recv_seq c = s" "s = 0 \<or> s = 1" "pending_data c = None"
    and "react (with_seq base s, p) d = Some ([(ack_for s, []), (rctrl, rp)], d')"
    and "\<not> is_ack rctrl" "rctrl \<noteq> TRANSPORT_ERROR" "seq_of rctrl = s"
  obtains w1 w2 where "send_data H base p (c, w) = Some (Inr (), (c\<lparr>send_seq := s XOR 1\<rparr>, w1))"
    and "recv_data H (c\<lparr>send_seq := s XOR 1\<rparr>, w1) =
      Some (Inr (rctrl, rp), (c\<lparr>send_seq := s XOR 1, recv_seq := s XOR 1\<rparr>, w2))"
    and "link [] (noted s d') w2"
proof -
  let ?c1 = "c\<lparr>send_seq := s XOR 1\<rparr>"
  have "ack_for s \<noteq> TRANSPORT_ERROR" by (simp add: ack_for_def control_defs)
  then have "abp_await c ([] @ [(ack_for s, []), (rctrl, rp)]) = Some (Inr (), ?c1, [(rctrl, rp)], [])"
    using ack_for_laws [OF assms(6)] assms(4) by simp
  then obtain w1 where 1: "send_data H base p (c, w) = Some (Inr (), (?c1, w1))" "link [(rctrl, rp)] d' w1"
    using send_data_refines [OF assms(1,2,3)] assms(4,8) by fastforce
  have "abp_recv ?c1 [(rctrl, rp)] = Some (Inr (rctrl, rp), ?c1\<lparr>recv_seq := s XOR 1\<rparr>, [], [s])"
    using assms by simp
  then obtain w2 where "recv_data H (?c1, w1) = Some (Inr (rctrl, rp), (?c1\<lparr>recv_seq := s XOR 1\<rparr>, w2))"
      "link [] (noted s d') w2"
    using recv_data_refines [OF _ 1(2)] assms(2,7) by (fastforce simp: fits_def)
  with 1 that show ?thesis by simp
qed

end

end
