(* ===== verification/Mock_Device.thy ===== *)
theory Mock_Device
  imports Link
begin

text \<open>
  The in-memory devices of the tests of \<^verbatim>\<open>thp/connection.rs\<close>: a transport that
  reassembles what the host writes, hands each complete message to the device, and returns the
  packets the device queued.  The transport is proved to satisfy the frame-link contract for
  every device that does not answer acknowledgements, and the contract's theorems are then the
  properties of the connection driver.
\<close>

section \<open>The transport\<close>

text \<open>
  A device handles one message in its state \<open>'d\<close>: it sends frames (channel id, control byte,
  payload) and changes state, or panics.
\<close>

type_synonym 'd handler = "u8 \<Rightarrow> bytes \<Rightarrow> 'd \<Rightarrow> ((u16 \<times> u8 \<times> bytes) list \<times> 'd) res"

record 'd mock_inner =
  mk_reasm :: reassembler
  last_init_ctrl :: u8
  outbox :: "bytes list"
  device :: 'd
  entropy :: "bytes list"
  codes :: "string list"

definition enqueue :: "u16 \<times> u8 \<times> bytes \<Rightarrow> bytes list \<Rightarrow> bytes list res" where
  "enqueue = (\<lambda>(cid, ctrl, payload) out.
     res_bind (unwrap (segment BLE_PACKET_SIZE cid ctrl payload)) (\<lambda>packets. Inr (out @ packets)))"

fun enqueue_all :: "(u16 \<times> u8 \<times> bytes) list \<Rightarrow> bytes list \<Rightarrow> bytes list res" where
  "enqueue_all [] out = Inr out"
| "enqueue_all (f # fs) out = res_bind (enqueue f out) (enqueue_all fs)"

definition deliver :: "'d handler \<Rightarrow> u8 \<Rightarrow> bytes \<Rightarrow> 'd mock_inner \<Rightarrow> 'd mock_inner res" where
  "deliver h ctrl payload m =
     res_bind (h ctrl payload (device m)) (\<lambda>(frames, d).
     res_bind (enqueue_all frames (outbox m)) (\<lambda>out.
     Inr (m\<lparr>device := d, outbox := out\<rparr>)))"

text \<open>
  \<^verbatim>\<open>write_chunk\<close> of the mock.  A panic of the mock (a failed \<^verbatim>\<open>unwrap\<close> of the
  test code) ends the test; here the host sees it as an I/O error.
\<close>

definition mock_write :: "'d handler \<Rightarrow> bytes \<Rightarrow> 'd mock_inner \<Rightarrow> (transport_error + unit) \<times> 'd mock_inner" where
  "mock_write h data m =
     (if data = [] then (Inr (), m)
      else
        let (ctrl, m1) = (if data ! 0 AND CONTINUATION_BIT = 0
                          then (data ! 0, m\<lparr>last_init_ctrl := data ! 0\<rparr>)
                          else (last_init_ctrl m, m)) in
        case push_packet (mk_reasm m1) data of
          (Inl _, r) \<Rightarrow> (Inl (Io ''THP channel error''), m1\<lparr>mk_reasm := r\<rparr>)
        | (Inr None, r) \<Rightarrow> (Inr (), m1\<lparr>mk_reasm := r\<rparr>)
        | (Inr (Some payload), r) \<Rightarrow>
            (case deliver h ctrl payload (m1\<lparr>mk_reasm := r\<rparr>) of
               Inl _ \<Rightarrow> (Inl (Io ''mock device panicked''), m1\<lparr>mk_reasm := r\<rparr>)
             | Inr m2 \<Rightarrow> (Inr (), m2)))"

definition mock_read :: "'d mock_inner \<Rightarrow> (transport_error + bytes) \<times> 'd mock_inner" where
  "mock_read m = (case outbox m of
     [] \<Rightarrow> (Inl (Io ''mock device has no queued data''), m)
   | p # ps \<Rightarrow> (Inr p, m\<lparr>outbox := ps\<rparr>))"

text \<open>The random source and the code prompt of a test run answer from given lists.\<close>

definition mock_random :: "nat \<Rightarrow> 'd mock_inner \<Rightarrow> (string + bytes) \<times> 'd mock_inner" where
  "mock_random n m = (case entropy m of
     [] \<Rightarrow> (Inl ''no entropy'', m)
   | e # es \<Rightarrow> (Inr (resize n 0 e), m\<lparr>entropy := es\<rparr>))"

definition mock_code :: "'d mock_inner \<Rightarrow> string \<times> 'd mock_inner" where
  "mock_code m = (case codes m of [] \<Rightarrow> ([], m) | s # ss \<Rightarrow> (s, m\<lparr>codes := ss\<rparr>))"

definition mock_host :: "'d handler \<Rightarrow> 'd mock_inner host" where
  "mock_host h = \<lparr>write_chunk = mock_write h, read_chunk = mock_read,
     getrandom = mock_random, request_code = mock_code\<rparr>"

section \<open>Packets of a frame\<close>

inductive packed :: "frame list \<Rightarrow> bytes list \<Rightarrow> bool" where
  none: "packed [] []"
| frame: "fits BLE_PACKET_SIZE p \<Longrightarrow> \<not> bit ctrl 7 \<Longrightarrow> segment BLE_PACKET_SIZE ci ctrl p = Inr packets \<Longrightarrow>
    packed fs qs \<Longrightarrow> packed ((ctrl, p) # fs) (packets @ qs)"

inductive_cases packed_ConsE: "packed ((ctrl, p) # fs) qs"

lemma packed_append: "packed fs ps \<Longrightarrow> packed gs qs \<Longrightarrow> packed (fs @ gs) (ps @ qs)"
  by (induction rule: packed.induct) (auto intro: packed.intros)

text \<open>The control byte a reader tracks along the packets.\<close>

definition track :: "u8 \<Rightarrow> bytes \<Rightarrow> u8" where
  "track k p = (if p ! 0 AND CONTINUATION_BIT = 0 then p ! 0 else k)"

lemma cont_packets_heads:
  assumes "CONT_HEADER < ps" "cont_packets ps ci pwc c = Inr qs"
  shows "\<forall>q \<in> set qs. q \<noteq> [] \<and> q ! 0 = CONTINUATION_CONTROL"
  using assms
proof (induction c arbitrary: qs rule: cursor_induct [where pwc = pwc])
  case (more c)
  have "cont_packet ps ci x \<noteq> [] \<and> cont_packet ps ci x ! 0 = CONTINUATION_CONTROL" for x
    using assms(1) by (cases ps) (auto simp: cont_packet_def resize_def header_defs)
  moreover obtain rest where "cont_packets ps ci pwc (c + min (ps - CONT_HEADER) (length pwc - c)) = Inr rest"
      "qs = cont_packet ps ci (take (ps - CONT_HEADER) (drop c pwc)) # rest"
    using more assms(1) by (auto simp: cont_packets_more res_bind_eq_Inr)
  ultimately show ?case using more.IH by (metis set_ConsD)
qed (simp add: cont_packets_done)

lemma foldl_track_cont:
  "\<forall>q \<in> set qs. q \<noteq> [] \<and> q ! 0 = CONTINUATION_CONTROL \<Longrightarrow> foldl track k qs = k"
  by (induction qs) (auto simp: track_def CONTINUATION_BIT_def control_defs)

lemma segment_track:
  assumes "fits ps payload" "\<not> bit ctrl 7" "segment ps ci ctrl payload = Inr packets"
  shows "foldl track k packets = ctrl" "[] \<notin> set packets"
proof -
  let ?pwc = "with_crc ci ctrl payload"
  obtain rest where rest: "cont_packets ps ci ?pwc (min (ps - INIT_HEADER) (length ?pwc)) = Inr rest"
    and packets: "packets = first_packet ps ci ctrl ?pwc # rest"
    using assms by (auto simp: segment_eq Let_def res_bind_eq_Inr)
  have heads: "\<forall>q \<in> set rest. q \<noteq> [] \<and> q ! 0 = CONTINUATION_CONTROL"
    by (rule cont_packets_heads [OF fits_cont [OF assms(1)] rest])
  have hd: "first_packet ps ci ctrl ?pwc ! 0 = ctrl" "first_packet ps ci ctrl ?pwc \<noteq> []"
    using assms(1) by (auto simp: first_packet_def resize_def fits_def header_defs nth_append)
  have "CONTINUATION_BIT = 2 ^ 7" by (simp add: CONTINUATION_BIT_def)
  then have "ctrl AND CONTINUATION_BIT = 0"
    using assms(2) by (metis and_exp_eq_0_iff_not_bit)
  with hd heads show "foldl track k packets = ctrl" "[] \<notin> set packets"
    by (auto simp: packets track_def foldl_track_cont)
qed

section \<open>The mock transport satisfies the frame-link contract\<close>

lemma read_one_mock:
  "outbox w = p # ps \<Longrightarrow> read_one (mock_host h) (c, w) = Some (Inr p, (c, w\<lparr>outbox := ps\<rparr>))"
  by (simp add: read_one_def mock_host_def mock_read_def)

lemma read_framed_packets:
  assumes "feed r packets = (Inr (Some payload), r', [])" "[] \<notin> set packets"
    and "outbox w = packets @ rest"
  shows "io_loop (read_framed_body (mock_host h)) (r, k) (c, w) =
    (let ctrl = foldl track k packets in
     Some (if ctrl = TRANSPORT_ERROR then Err (decode_transport_error payload) else Inr (ctrl, payload),
           (c, w\<lparr>outbox := rest\<rparr>)))"
  using assms
proof (induction packets arbitrary: r k w)
  case (Cons p ps)
  then have p: "p \<noteq> []" and w: "outbox w = p # (ps @ rest)" by auto
  note rd = read_one_mock [OF w, of h c]
  obtain out r1 where push: "push_packet r p = (out, r1)" by (cases "push_packet r p")
  show ?case
  proof (cases "out = Inr None")
    case True
    with rd p push have "read_framed_body (mock_host h) (r, k) (c, w) =
        Some (Inr (Inl (r1, track k p)), (c, w\<lparr>outbox := ps @ rest\<rparr>))"
      by (simp add: read_framed_body_def io_bind_Some track_def Let_def)
    with Cons True push show ?thesis by (simp add: io_loop_again)
  next
    case False
    with Cons push have "out = Inr (Some payload)" "ps = []"
      by (auto split: sum.splits option.splits)
    with rd p push have "read_framed_body (mock_host h) (r, k) (c, w) =
        Some (if track k p = TRANSPORT_ERROR then Err (decode_transport_error payload)
              else Inr (Inr (track k p, payload)), (c, w\<lparr>outbox := rest\<rparr>))"
      by (simp add: read_framed_body_def io_bind_Some track_def Let_def)
    with \<open>ps = []\<close> show ?thesis by (simp add: io_loop_leave io_loop_fail Let_def)
  qed
qed simp

lemma write_framed_packets:
  assumes "feed r packets = (Inr (Some payload), r', [])" "[] \<notin> set packets" "mk_reasm w = r"
    and "deliver h (foldl track (last_init_ctrl w) packets) payload
      (w\<lparr>last_init_ctrl := foldl track (last_init_ctrl w) packets, mk_reasm := r'\<rparr>) = Inr w'"
  shows "write_packets (mock_host h) packets (c, w) = Some (Inr (), (c, w'))"
  using assms
proof (induction packets arbitrary: r w)
  case (Cons p ps)
  then have p: "p \<noteq> []" by auto
  obtain out r1 where push: "push_packet r p = (out, r1)" by (cases "push_packet r p")
  let ?w1 = "w\<lparr>last_init_ctrl := track (last_init_ctrl w) p, mk_reasm := r1\<rparr>"
  have same: "w\<lparr>last_init_ctrl := last_init_ctrl w\<rparr> = w" by simp
  show ?case
  proof (cases "out = Inr None")
    case True
    with p push Cons.prems(3) have "write_one (mock_host h) p (c, w) = Some (Inr (), (c, ?w1))"
      by (simp add: write_one_def mock_host_def mock_write_def track_def Let_def)
    moreover have "write_packets (mock_host h) ps (c, ?w1) = Some (Inr (), (c, w'))"
      by (rule Cons.IH [of r1]) (use Cons.prems True push in simp_all)
    ultimately show ?thesis by (simp add: io_bind_Some)
  next
    case False
    with Cons.prems push have out: "out = Inr (Some payload)" "ps = []" "r1 = r'"
      by (auto split: sum.splits option.splits)
    with p push Cons.prems have "write_one (mock_host h) p (c, w) = Some (Inr (), (c, w'))"
      by (auto simp: write_one_def mock_host_def mock_write_def track_def Let_def)
    with out show ?thesis by (simp add: io_bind_Some)
  qed
qed simp

text \<open>What a device does to a frame, and the link relation of the mock; its first argument is what the
  random source and the code prompt still hold.\<close>

definition sendable :: "u16 \<times> u8 \<times> bytes \<Rightarrow> bool" where
  "sendable = (\<lambda>(ci, ctrl, p). fits BLE_PACKET_SIZE p \<and> \<not> bit ctrl 7)"

definition handler_react :: "'d handler \<Rightarrow> frame \<Rightarrow> 'd \<Rightarrow> (frame list \<times> 'd) option" where
  "handler_react h f d = (case h (fst f) (snd f) d of
     Inl _ \<Rightarrow> None
   | Inr (out, d') \<Rightarrow> if list_all sendable out then Some (map snd out, d') else None)"

definition mock_link :: "bytes list \<times> string list \<Rightarrow> frame list \<Rightarrow> 'd \<Rightarrow> 'd mock_inner \<Rightarrow> bool" where
  "mock_link env fs d m \<longleftrightarrow> packed fs (outbox m) \<and> device m = d \<and> (entropy m, codes m) = env"

lemma enqueue_all_packed:
  assumes "list_all sendable fs" "packed gs out"
  shows "\<exists>out'. enqueue_all fs out = Inr out' \<and> packed (gs @ map snd fs) out'"
  using assms
proof (induction fs arbitrary: gs out)
  case (Cons f fs)
  obtain ci ctrl p where f: "f = (ci, ctrl, p)" by (cases f)
  from Cons.prems f have ok: "fits BLE_PACKET_SIZE p" "\<not> bit ctrl 7" by (simp_all add: sendable_def)
  obtain packets where seg: "segment BLE_PACKET_SIZE ci ctrl p = Inr packets"
    using segment_ok [OF ok(1)] by blast
  have "packed (gs @ [(ctrl, p)]) (out @ packets)"
    using packed_append [OF Cons.prems(2) frame [OF ok seg none]] by simp
  with Cons seg f show ?case by (fastforce simp: enqueue_def)
qed simp

locale quiet_device =
  fixes h :: "'d handler" and noted :: "u8 \<Rightarrow> 'd \<Rightarrow> 'd"
  assumes quiet: "h (ack_for sq) [] d = Inr ([], noted sq d)"
begin

lemma mock_read_frame:
  assumes "mock_link env ((ctrl, p) # fs) d w"
  shows "\<exists>w'. read_framed (mock_host h) (c, w) =
    Some (if ctrl = TRANSPORT_ERROR then Err (decode_transport_error p) else Inr (ctrl, p), (c, w'))
    \<and> mock_link env fs d w'"
proof -
  from assms obtain ci packets qs where
    ok: "fits BLE_PACKET_SIZE p" "\<not> bit ctrl 7" "segment BLE_PACKET_SIZE ci ctrl p = Inr packets"
    and out: "outbox w = packets @ qs" "packed fs qs"
    by (auto simp: mock_link_def elim: packed_ConsE)
  show ?thesis
    unfolding read_framed_def
    using read_framed_packets [OF feed_segment [OF ok] segment_track(2) [OF ok] out(1), where h = h and k = 0 and c = c]
      segment_track(1) [OF ok, of 0] assms out(2)
    by (simp add: Let_def mock_link_def)
qed

lemma mock_write_frame:
  assumes "mock_link env fs d w" "fits (packet_size c) p" "\<not> bit ctrl 7"
    and "handler_react h (ctrl, p) d = Some (out, d')"
  shows "\<exists>w'. write_framed (mock_host h) ctrl p (c, w) = Some (Inr (), (c, w')) \<and> mock_link env (fs @ out) d' w'"
proof -
  obtain packets where seg: "segment (packet_size c) (cid c) ctrl p = Inr packets"
    using segment_ok [OF assms(2)] by blast
  note tr = segment_track [OF assms(2,3) seg]
  from assms(4) obtain frames where frames: "h ctrl p d = Inr (frames, d')" "list_all sendable frames"
      "out = map snd frames"
    by (auto simp: handler_react_def split: sum.splits if_splits)
  obtain qs where qs: "enqueue_all frames (outbox w) = Inr qs" "packed (fs @ out) qs"
    using enqueue_all_packed [OF frames(2), of fs "outbox w"] assms(1) frames(3) by (auto simp: mock_link_def)
  let ?r = "(mk_reasm w)\<lparr>active := False, control_byte := ctrl, rcid := cid c,
      expected_len := length p + CRC_LEN, buf := []\<rparr>"
  let ?w1 = "w\<lparr>last_init_ctrl := ctrl, mk_reasm := ?r\<rparr>"
  have "deliver h ctrl p ?w1 = Inr (?w1\<lparr>device := d', outbox := qs\<rparr>)"
    using frames(1) qs(1) assms(1) by (simp add: deliver_def mock_link_def)
  then have "write_packets (mock_host h) packets (c, w) = Some (Inr (), (c, ?w1\<lparr>device := d', outbox := qs\<rparr>))"
    by (intro write_framed_packets [OF feed_segment [OF assms(2,3) seg] tr(2) refl]) (simp add: tr(1))
  with seg qs(2) assms(1) show ?thesis
    by (simp add: write_framed_def conn_def mock_link_def)
qed

end

sublocale quiet_device \<subseteq> frame_link "mock_host h" "handler_react h" noted "mock_link env" for env
proof
  show "\<exists>w'. read_framed (mock_host h) (c, w) = Some (Inr (ctrl, p), (c, w')) \<and> mock_link env fs d w'"
    if "mock_link env ((ctrl, p) # fs) d w" "ctrl \<noteq> TRANSPORT_ERROR" for ctrl p fs d w and c :: connection
    using mock_read_frame [OF that(1), of c] that(2) by simp
  show "\<exists>w'. read_framed (mock_host h) (c, w) = Some (Err (decode_transport_error p), (c, w')) \<and> mock_link env fs d w'"
    if "mock_link env ((TRANSPORT_ERROR, p) # fs) d w" for p fs d w and c :: connection
    using mock_read_frame [OF that, of c] by simp
qed (auto simp: mock_write_frame handler_react_def quiet)

section \<open>A device that only listens\<close>

text \<open>
  The \<^verbatim>\<open>LockedDevice\<close> of the tests accepts every write and answers nothing; what it
  has queued beforehand is what the host reads.  Here it also logs the frames it receives.
\<close>

definition listen :: "(frame list) handler" where
  "listen ctrl payload log = Inr ([], log @ [(ctrl, payload)])"

interpretation listener: quiet_device listen "\<lambda>sq log. log @ [(ack_for sq, [])]"
  by unfold_locales (simp add: listen_def)

lemma foldl_log: "foldl (\<lambda>d sq. d @ [f sq]) log acks = log @ map f acks"
  by (induction acks arbitrary: log) auto

text \<open>
  A sender of the Alternating Bit Protocol: message after message with alternating sequence bit,
  each transmitted once and then again for every entry of its list, and each copy preceded by
  stray acknowledgements.
\<close>

record abp_message =
  am_base :: u8
  am_payload :: bytes
  am_strays :: "u8 list"
  am_retries :: "u8 list list"

definition am_copy :: "u8 \<Rightarrow> abp_message \<Rightarrow> u8 list \<Rightarrow> frame list" where
  "am_copy sq m strays = map (\<lambda>a. (a, [])) strays @ [(with_seq (am_base m) sq, am_payload m)]"

fun abp_transmit :: "u8 \<Rightarrow> abp_message list \<Rightarrow> frame list" where
  "abp_transmit sq [] = []"
| "abp_transmit sq (m # ms) =
     am_copy sq m (am_strays m) @ concat (map (am_copy sq m) (am_retries m)) @ abp_transmit (sq XOR 1) ms"

definition am_ok :: "abp_message \<Rightarrow> bool" where
  "am_ok m \<longleftrightarrow> am_base m \<in> {HANDSHAKE_INIT_REQUEST, HANDSHAKE_INIT_RESPONSE,
       HANDSHAKE_COMPLETION_REQUEST, HANDSHAKE_COMPLETION_RESPONSE, ENCRYPTED_TRANSPORT}
     \<and> list_all is_ack (am_strays m) \<and> list_all (list_all is_ack) (am_retries m)"

fun recv_many :: "'w host \<Rightarrow> nat \<Rightarrow> ('w, frame list) cio" where
  "recv_many H 0 = io_return []"
| "recv_many H (Suc n) =
     io_bind (recv_data H) (\<lambda>f. io_bind (recv_many H n) (\<lambda>fs. io_return (f # fs)))"

text \<open>Frames a receiver expecting \<open>rs\<close> skips.\<close>

definition skipped :: "u8 \<Rightarrow> frame \<Rightarrow> bool" where
  "skipped rs f \<longleftrightarrow> fst f \<noteq> TRANSPORT_ERROR \<and> (is_ack (fst f) \<or> seq_of (fst f) \<noteq> rs)"

lemma abp_recv_skip:
  "list_all (skipped (recv_seq c)) pre \<Longrightarrow> abp_recv c fs = Some (r, c', rest, acks) \<Longrightarrow>
   \<exists>acks'. abp_recv c (pre @ fs) = Some (r, c', rest, acks')"
  by (induction pre) (auto simp: skipped_def)

lemma is_ack_not_error: "is_ack ctrl \<Longrightarrow> ctrl \<noteq> TRANSPORT_ERROR"
  by (auto simp: is_ack_def control_defs)

lemma am_data:
  assumes "am_ok m" "sq = 0 \<or> sq = 1"
  shows "\<not> is_ack (with_seq (am_base m) sq)" "with_seq (am_base m) sq \<noteq> TRANSPORT_ERROR"
    "seq_of (with_seq (am_base m) sq) = sq"
  using assms by (auto simp: am_ok_def with_seq_def is_ack_def seq_of_def control_defs)

lemma am_copy_skipped:
  assumes "am_ok m" "sq = 0 \<or> sq = 1" "list_all is_ack strays"
  shows "list_all (skipped (sq XOR 1)) (am_copy sq m strays)"
    "list_all (skipped rs) (map (\<lambda>a. (a, [])) strays)"
  using assms am_data [OF assms(1,2)] is_ack_not_error
  by (auto simp: am_copy_def skipped_def list_all_iff)

lemma recv_many_transmit:
  assumes "list_all am_ok ms" "list_all (skipped (recv_seq c)) pre"
    and "packed (pre @ abp_transmit (recv_seq c) ms) (outbox w)" "recv_seq c = 0 \<or> recv_seq c = 1"
    and "pending_data c = None" "INIT_HEADER < packet_size c"
  shows "\<exists>fs c' w'. recv_many (mock_host listen) (length ms) (c, w) = Some (Inr fs, (c', w'))
    \<and> map snd fs = map am_payload ms"
  using assms
proof (induction ms arbitrary: c pre w)
  case (Cons m ms)
  let ?sq = "recv_seq c" and ?c' = "c\<lparr>recv_seq := recv_seq c XOR 1\<rparr>"
  let ?f = "(with_seq (am_base m) ?sq, am_payload m)"
  let ?retries = "concat (map (am_copy ?sq m) (am_retries m))"
  have m: "am_ok m" "list_all is_ack (am_strays m)" using Cons.prems(1) by (auto simp: am_ok_def)
  have "abp_recv c (?f # ?retries @ abp_transmit (?sq XOR 1) ms)
      = Some (Inr ?f, ?c', ?retries @ abp_transmit (?sq XOR 1) ms, [?sq])"
    using am_data [OF m(1) Cons.prems(4)] by simp
  moreover have "list_all (skipped ?sq) (pre @ map (\<lambda>a. (a, [])) (am_strays m))"
    using Cons.prems(2) am_copy_skipped(2) [OF m(1) Cons.prems(4) m(2)] by simp
  ultimately obtain acks where "abp_recv c (pre @ abp_transmit ?sq (m # ms)) =
      Some (Inr ?f, ?c', ?retries @ abp_transmit (?sq XOR 1) ms, acks)"
    using abp_recv_skip by (fastforce simp: am_copy_def)
  then obtain w1 where rd: "recv_data (mock_host listen) (c, w) = Some (Inr ?f, (?c', w1))"
      and link: "mock_link (entropy w, codes w) (?retries @ abp_transmit (?sq XOR 1) ms) (device w @ map (\<lambda>sq. (ack_for sq, [])) acks) w1"
    using listener.recv_data_refines [where c = c and acks = acks and d = "device w" and w = w] Cons.prems(3,5,6)
    by (fastforce simp: mock_link_def foldl_log)
  have "list_all (skipped (?sq XOR 1)) ?retries"
    using am_copy_skipped(1) [OF m(1) Cons.prems(4)] m(1) by (auto simp: list_all_iff am_ok_def)
  then obtain fs c' w' where "recv_many (mock_host listen) (length ms) (?c', w1) = Some (Inr fs, (c', w'))"
      "map snd fs = map am_payload ms"
    using Cons.IH [of ?c' ?retries w1] Cons.prems link by (auto simp: mock_link_def)
  with rd show ?case by (auto simp: io_bind_Some)
qed simp

section \<open>The handshake device\<close>

datatype phase = ExpectAlloc | ExpectInit | ExpectCompletion | Done

definition DEVICE_CID :: u16 where "DEVICE_CID = 0x0003"

record mock_state =
  device_seq :: u8
  device_props_raw :: bytes
  responder :: trezor_responder
  mock_phase :: phase
  agreed_keys :: "(bytes \<times> bytes) option"

definition mock_device_new :: "crypto \<Rightarrow> bytes \<Rightarrow> bytes \<Rightarrow> mock_state" where
  "mock_device_new C props trezor_static = \<lparr>device_seq = 0, device_props_raw = props,
     responder = responder_new C props trezor_static, mock_phase = ExpectAlloc, agreed_keys = None\<rparr>"

text \<open>\<open>epriv\<close> is the scalar the responder's \<^verbatim>\<open>random_scalar\<close> draws in TH1.\<close>

definition on_message :: "crypto \<Rightarrow> proto \<Rightarrow> bytes \<Rightarrow> mock_state handler" where
  "on_message C P epriv ctrl payload d =
     (if is_ack ctrl then Inr ([], d)
      else case mock_phase d of
        ExpectAlloc \<Rightarrow>
          res_bind (slice payload 0 8) (\<lambda>nonce.
          Inr ([(BROADCAST_CID, CHANNEL_ALLOCATION_RESPONSE,
                 nonce @ u16_be DEVICE_CID @ device_props_raw d)],
               d\<lparr>mock_phase := ExpectInit\<rparr>))
      | ExpectInit \<Rightarrow>
          (case handle_init_request C (responder d) epriv payload of
             (Inl e, _) \<Rightarrow> Inl e
           | (Inr resp, t) \<Rightarrow>
               Inr ([(DEVICE_CID, ack_for (seq_of ctrl), []),
                     (DEVICE_CID, with_seq HANDSHAKE_INIT_RESPONSE (device_seq d), resp)],
                    d\<lparr>responder := t, device_seq := device_seq d XOR 1, mock_phase := ExpectCompletion\<rparr>))
      | ExpectCompletion \<Rightarrow>
          res_bind (handle_completion_request C (dec_noise_payload P) (responder d) payload) (\<lambda>result.
          Inr ([(DEVICE_CID, ack_for (seq_of ctrl), []),
                (DEVICE_CID, with_seq HANDSHAKE_COMPLETION_RESPONSE (device_seq d), rr_response result)],
               d\<lparr>agreed_keys := Some (rr_key_request result, rr_key_response result),
                 device_seq := device_seq d XOR 1, mock_phase := Done\<rparr>))
      | Done \<Rightarrow> Inr ([], d))"

lemma ack_for_is_ack [simp]: "is_ack (ack_for sq)" "\<not> bit (ack_for sq) 7" "ack_for sq \<noteq> TRANSPORT_ERROR"
  by (simp_all add: is_ack_def ack_for_def control_defs)

lemma mock_random_bytes:
  "entropy w = e # es \<Longrightarrow>
   random_bytes (mock_host h) n (c, w) = Some (Inr (resize n 0 e), (c, w\<lparr>entropy := es\<rparr>))"
  by (simp add: random_bytes_def mock_host_def mock_random_def)

lemma sendable_simps:
  "sendable (ci, ctrl, p) \<longleftrightarrow> length p + 4 < 2 ^ 16 \<and> \<not> bit ctrl 7"
  by (simp add: sendable_def fits_def header_defs BLE_PACKET_SIZE_def)

text \<open>What the scripted device answers to the two requests of the handshake.\<close>

lemma reacts_init:
  assumes "mock_phase d = ExpectInit" "device_seq d = 0"
    and "handle_init_request C (responder d) tepriv payload = (Inr resp, t1)" "length resp + CRC_LEN < 2 ^ 16"
  shows "handler_react (on_message C P tepriv) (with_seq HANDSHAKE_INIT_REQUEST 0, payload) d =
    Some ([(ack_for 0, []), (with_seq HANDSHAKE_INIT_RESPONSE 0, resp)],
      d\<lparr>responder := t1, device_seq := 1, mock_phase := ExpectCompletion\<rparr>)"
proof -
  note ctl = control_defs with_seq_def is_ack_def seq_of_def ack_for_def
  have "on_message C P tepriv (with_seq HANDSHAKE_INIT_REQUEST 0) payload d =
      Inr ([(DEVICE_CID, ack_for 0, []), (DEVICE_CID, with_seq HANDSHAKE_INIT_RESPONSE 0, resp)],
        d\<lparr>responder := t1, device_seq := 1, mock_phase := ExpectCompletion\<rparr>)"
    by (simp add: on_message_def assms) (simp add: ctl)
  then show ?thesis using assms(4) by (simp add: handler_react_def sendable_simps header_defs) (simp add: ctl)
qed

lemma reacts_completion:
  assumes "mock_phase d = ExpectCompletion" "device_seq d = 1"
    and "handle_completion_request C (dec_noise_payload P) (responder d) payload = Inr rr"
    and "length (rr_response rr) + CRC_LEN < 2 ^ 16"
  shows "handler_react (on_message C P tepriv) (with_seq HANDSHAKE_COMPLETION_REQUEST 1, payload) d =
    Some ([(ack_for 1, []), (with_seq HANDSHAKE_COMPLETION_RESPONSE 1, rr_response rr)],
      d\<lparr>agreed_keys := Some (rr_key_request rr, rr_key_response rr), device_seq := 0, mock_phase := Done\<rparr>)"
proof -
  note ctl = control_defs with_seq_def is_ack_def seq_of_def ack_for_def
  have "on_message C P tepriv (with_seq HANDSHAKE_COMPLETION_REQUEST 1) payload d =
      Inr ([(DEVICE_CID, ack_for 1, []), (DEVICE_CID, with_seq HANDSHAKE_COMPLETION_RESPONSE 1, rr_response rr)],
        d\<lparr>agreed_keys := Some (rr_key_request rr, rr_key_response rr), device_seq := 0, mock_phase := Done\<rparr>)"
    by (simp add: on_message_def assms) (simp add: ctl)
  then show ?thesis using assms(4) by (simp add: handler_react_def sendable_simps header_defs) (simp add: ctl)
qed

text \<open>
  A device that behaves like the scripted one until the handshake is done: \<open>view\<close> is its handshake
  part and \<open>advance\<close> replaces it.
\<close>

locale handshake_peer = quiet_device h "\<lambda>sq d. d" for h :: "'d handler" +
  fixes C :: crypto and P :: proto and tepriv :: bytes
    and view :: "'d \<Rightarrow> mock_state" and advance :: "mock_state \<Rightarrow> 'd \<Rightarrow> 'd"
  assumes react_view: "mock_phase (view d) \<noteq> Done \<Longrightarrow> \<not> is_ack (fst f) \<Longrightarrow>
      handler_react (on_message C P tepriv) f (view d) = Some (out, m) \<Longrightarrow>
      handler_react h f d = Some (out, advance m d)"
    and view_advance: "view (advance m d) = m"
begin

text \<open>Allocation against the device.\<close>

lemma allocate_on_device:
  assumes props: "dec_device_properties P props = Inr dp" "length props + 14 < 2 ^ 16"
    and ps: "INIT_HEADER < ps" and d: "mock_phase (view d) = ExpectAlloc" "device_props_raw (view d) = props"
    and w: "mock_link (e # es, cs) [] d w"
  obtains w' where "allocate (mock_host h) P (connection_new ps, w) =
      Some (Inr \<lparr>ca_cid = DEVICE_CID, ca_device_properties_raw = props, ca_device_properties = dp\<rparr>,
        ((connection_new ps)\<lparr>cid := DEVICE_CID\<rparr>, w'))"
    and "mock_link (es, cs) [] (advance ((view d)\<lparr>mock_phase := ExpectInit\<rparr>) d) w'"
proof -
  let ?H = "mock_host h" and ?c = "connection_new ps"
  let ?nonce = "resize 8 0 e"
  let ?resp = "build_response ?nonce DEVICE_CID props"
  let ?d = "advance ((view d)\<lparr>mock_phase := ExpectInit\<rparr>) d"
  have c: "?c\<lparr>cid := BROADCAST_CID\<rparr> = ?c" by (simp add: connection_new_def)
  have w0: "mock_link (es, cs) [] d (w\<lparr>entropy := es\<rparr>)" "entropy w = e # es" using w by (simp_all add: mock_link_def)
  have "handler_react (on_message C P tepriv) (CHANNEL_ALLOCATION_REQUEST, ?nonce) (view d)
      = Some ([(CHANNEL_ALLOCATION_RESPONSE, ?resp)], (view d)\<lparr>mock_phase := ExpectInit\<rparr>)"
    using d props(2) by (simp add: handler_react_def on_message_def slice_simps sendable_simps
        build_response_def is_ack_def control_defs)
  then have react: "handler_react h (CHANNEL_ALLOCATION_REQUEST, ?nonce) d = Some ([(CHANNEL_ALLOCATION_RESPONSE, ?resp)], ?d)"
    using d by (intro react_view) (simp_all add: is_ack_def control_defs)
  have fits: "fits (packet_size ?c) ?nonce" "\<not> bit CHANNEL_ALLOCATION_REQUEST 7"
    using ps by (simp_all add: connection_new_def fits_def header_defs control_defs)
  obtain w1 where 1: "write_framed ?H CHANNEL_ALLOCATION_REQUEST ?nonce (?c, w\<lparr>entropy := es\<rparr>) = Some (Inr (), (?c, w1))"
      "mock_link (es, cs) [(CHANNEL_ALLOCATION_RESPONSE, ?resp)] ?d w1"
    using write_frame [OF w0(1) fits react] by auto
  obtain w2 where 2: "read_framed ?H (?c, w1) = Some (Inr (CHANNEL_ALLOCATION_RESPONSE, ?resp), (?c, w2))"
      "mock_link (es, cs) [] ?d w2"
    using read_next [OF 1(2), of ?c]
    by (auto simp: control_defs)
  have "parse_allocation_response P ?nonce ?resp = Inr \<lparr>ca_cid = DEVICE_CID,
      ca_device_properties_raw = props, ca_device_properties = dp\<rparr>"
    by (rule parse_build_response) (simp_all add: props)
  then have "allocate_reads ?H P ?nonce MAX_ALLOC_READS (?c, w1) =
      Some (Inr \<lparr>ca_cid = DEVICE_CID, ca_device_properties_raw = props, ca_device_properties = dp\<rparr>,
        (?c\<lparr>cid := DEVICE_CID\<rparr>, w2))"
    using 2(1) by (simp add: MAX_ALLOC_READS_def numeral_eq_Suc io_bind_Some update_def connection_new_def)
  with 1(1) w0(2) 2(2) that show ?thesis
    by (simp add: allocate_def random_allocation_nonce_def ALLOCATION_NONCE_LEN_def io_bind_Some c
        mock_random_bytes [OF w0(2)] update_def build_allocation_request_def)
qed

text \<open>The two round trips of the handshake, given what host and responder compute.\<close>

lemma handshake_rounds:
  assumes run: "handle_init_request C (responder (view d)) tepriv (init_request_payload hs) = (Inr resp1, t1)"
      "read_init_response C (enc_noise_payload P) hs resp1 = (Inr req2, hs1)"
      "handle_completion_request C (dec_noise_payload P) t1 req2 = Inr rr"
    and lens: "length (init_request_payload hs) + CRC_LEN < 2 ^ 16" "length resp1 + CRC_LEN < 2 ^ 16"
      "length req2 + CRC_LEN < 2 ^ 16" "length (rr_response rr) + CRC_LEN < 2 ^ 16"
    and c: "INIT_HEADER < packet_size c" "send_seq c = 0" "recv_seq c = 0" "pending_data c = None"
    and d: "mock_phase (view d) = ExpectInit" "device_seq (view d) = 0"
    and w: "mock_link env [] d w"
  obtains w1 w2 w3 w4 m1 m2 where
    "send_data (mock_host h) HANDSHAKE_INIT_REQUEST (init_request_payload hs) (c, w) = Some (Inr (), (c\<lparr>send_seq := 1\<rparr>, w1))"
    "recv_data (mock_host h) (c\<lparr>send_seq := 1\<rparr>, w1) =
      Some (Inr (with_seq HANDSHAKE_INIT_RESPONSE 0, resp1), (c\<lparr>send_seq := 1, recv_seq := 1\<rparr>, w2))"
    "send_data (mock_host h) HANDSHAKE_COMPLETION_REQUEST req2 (c\<lparr>send_seq := 1, recv_seq := 1\<rparr>, w2) =
      Some (Inr (), (c\<lparr>recv_seq := 1, send_seq := 0\<rparr>, w3))"
    "recv_data (mock_host h) (c\<lparr>recv_seq := 1, send_seq := 0\<rparr>, w3) =
      Some (Inr (with_seq HANDSHAKE_COMPLETION_RESPONSE 1, rr_response rr), (c, w4))"
    "mock_link env [] (advance m2 (advance m1 d)) w4"
    "agreed_keys m2 = Some (rr_key_request rr, rr_key_response rr)" "mock_phase m2 = Done" "device_seq m2 = 0"
proof -
  let ?m1 = "(view d)\<lparr>responder := t1, device_seq := 1, mock_phase := ExpectCompletion\<rparr>"
  let ?m2 = "?m1\<lparr>agreed_keys := Some (rr_key_request rr, rr_key_response rr), device_seq := 0, mock_phase := Done\<rparr>"
  let ?d1 = "advance ?m1 d"
  let ?d2 = "advance ?m2 ?d1"
  note ctl = control_defs with_seq_def is_ack_def seq_of_def ack_for_def
  have r1: "handler_react h (with_seq HANDSHAKE_INIT_REQUEST 0, init_request_payload hs) d
      = Some ([(ack_for 0, []), (with_seq HANDSHAKE_INIT_RESPONSE 0, resp1)], ?d1)"
    using reacts_init [OF d run(1) lens(2)] d by (intro react_view) (simp_all add: ctl)
  have "handler_react (on_message C P tepriv) (with_seq HANDSHAKE_COMPLETION_REQUEST 1, req2) ?m1
      = Some ([(ack_for 1, []), (with_seq HANDSHAKE_COMPLETION_RESPONSE 1, rr_response rr)], ?m2)"
    by (rule reacts_completion) (use run(3) lens(4) in simp_all)
  then have r2: "handler_react h (with_seq HANDSHAKE_COMPLETION_REQUEST 1, req2) ?d1
      = Some ([(ack_for 1, []), (with_seq HANDSHAKE_COMPLETION_RESPONSE 1, rr_response rr)], ?d2)"
    by (intro react_view) (simp_all add: view_advance, simp add: ctl)
  obtain w1 w2 where 1: "send_data (mock_host h) HANDSHAKE_INIT_REQUEST (init_request_payload hs) (c, w) =
      Some (Inr (), (c\<lparr>send_seq := 0 XOR 1\<rparr>, w1))"
    and 2: "recv_data (mock_host h) (c\<lparr>send_seq := 0 XOR 1\<rparr>, w1) =
      Some (Inr (with_seq HANDSHAKE_INIT_RESPONSE 0, resp1), (c\<lparr>send_seq := 0 XOR 1, recv_seq := 0 XOR 1\<rparr>, w2))"
    and l2: "mock_link env [] ?d1 w2"
    by (rule exchange [OF w, where c = c and s = 0 and base = HANDSHAKE_INIT_REQUEST and p = "init_request_payload hs"
          and rctrl = "with_seq HANDSHAKE_INIT_RESPONSE 0" and rp = resp1 and d' = ?d1])
      (use c r1 lens(1) in \<open>simp_all add: fits_def ctl\<close>)
  let ?c2 = "c\<lparr>send_seq := 1, recv_seq := 1\<rparr>"
  obtain w3 w4 where 3: "send_data (mock_host h) HANDSHAKE_COMPLETION_REQUEST req2 (?c2, w2) =
      Some (Inr (), (?c2\<lparr>send_seq := 1 XOR 1\<rparr>, w3))"
    and 4: "recv_data (mock_host h) (?c2\<lparr>send_seq := 1 XOR 1\<rparr>, w3) =
      Some (Inr (with_seq HANDSHAKE_COMPLETION_RESPONSE 1, rr_response rr), (?c2\<lparr>send_seq := 1 XOR 1, recv_seq := 1 XOR 1\<rparr>, w4))"
    and l4: "mock_link env [] ?d2 w4"
    by (rule exchange [OF l2, where c = ?c2 and s = 1 and base = HANDSHAKE_COMPLETION_REQUEST and p = req2
          and rctrl = "with_seq HANDSHAKE_COMPLETION_RESPONSE 1" and rp = "rr_response rr" and d' = ?d2])
      (use c lens(3) r2 in \<open>simp_all add: fits_def ctl\<close>)
  have "c\<lparr>send_seq := 0, recv_seq := 0\<rparr> = c" using c by simp
  with 1 2 3 4 l4 show ?thesis by (intro that [of w1 w2 w3 w4 ?m2 ?m1]) simp_all
qed

text \<open>The handshake against the device: it completes, and both sides hold the same keys.\<close>

lemma handshake_on_device:
  assumes C: "crypto_laws C" and P: "dec_noise_payload P (enc_noise_payload P cred) = Inr cr"
    and len: "length (enc_noise_payload P cred) + 68 < 2 ^ 16"
    and c: "INIT_HEADER < packet_size c" "send_seq c = 0" "recv_seq c = 0" "pending_data c = None"
    and d: "mock_phase (view d) = ExpectInit" "responder (view d) = responder_new C props tpriv"
      "device_seq (view d) = 0"
    and w: "mock_link (e # es, cs) [] d w"
  obtains keys m1 m2 w' where "handshake (mock_host h) C P props spriv cred (c, w) = Some (Inr keys, (c, w'))"
    and "mock_link (es, cs) [] (advance m2 (advance m1 d)) w'"
    and "agreed_keys m2 = Some (key_request keys, key_response keys)" "mock_phase m2 = Done" "device_seq m2 = 0"
    and "nonce_request keys = 0" "nonce_response keys = 1" "trezor_state keys = [2]"
    and "length (key_request keys) = 32" "length (key_response keys) = 32" "host_static_pubkey keys = public_key C spriv"
proof -
  let ?hs = "with_ephemeral C props 0 spriv cred (resize 32 0 e)"
  have len36: "length (enc_noise_payload P cred) < 2 ^ 36" using len by simp
  obtain resp1 t1 req2 hs1 rr keys where run:
    "handle_init_request C (responder_new C props tpriv) tepriv (init_request_payload ?hs) = (Inr resp1, t1)"
    "read_init_response C (enc_noise_payload P) ?hs resp1 = (Inr req2, hs1)"
    "handle_completion_request C (dec_noise_payload P) t1 req2 = Inr rr"
    "read_completion_response C hs1 (rr_response rr) = Inr keys"
    and keys: "key_request keys = rr_key_request rr" "key_response keys = rr_key_response rr"
    "nonce_request keys = 0" "nonce_response keys = 1" "trezor_state keys = [2]"
    "length (key_request keys) = 32" "length (key_response keys) = 32" "host_static_pubkey keys = public_key C spriv"
    and lens: "length resp1 = 96" "length req2 = length (enc_noise_payload P cred) + 64" "length (rr_response rr) = 17"
    by (rule handshake_run [where enc = "enc_noise_payload P" and dec = "dec_noise_payload P",
          OF C len36 P, of props tpriv tepriv 0 spriv "resize 32 0 e"])
  have "mock_link (es, cs) [] d (w\<lparr>entropy := es\<rparr>)" and ent: "entropy w = e # es"
    using w by (simp_all add: mock_link_def)
  note w0 = this(1)
  have init: "length (init_request_payload ?hs) = 33"
    using C by (simp add: init_request_payload_def with_ephemeral_def x25519_agree)
  show ?thesis
  proof (rule handshake_rounds [OF run(1) [folded d(2)] run(2,3) _ _ _ _ c d(1,3) w0])
    fix w1 w2 w3 w4 m1 m2
    assume "send_data (mock_host h) HANDSHAKE_INIT_REQUEST (init_request_payload ?hs) (c, w\<lparr>entropy := es\<rparr>) = Some (Inr (), (c\<lparr>send_seq := 1\<rparr>, w1))"
      "recv_data (mock_host h) (c\<lparr>send_seq := 1\<rparr>, w1) =
        Some (Inr (with_seq HANDSHAKE_INIT_RESPONSE 0, resp1), (c\<lparr>send_seq := 1, recv_seq := 1\<rparr>, w2))"
      "send_data (mock_host h) HANDSHAKE_COMPLETION_REQUEST req2 (c\<lparr>send_seq := 1, recv_seq := 1\<rparr>, w2) =
        Some (Inr (), (c\<lparr>recv_seq := 1, send_seq := 0\<rparr>, w3))"
      "recv_data (mock_host h) (c\<lparr>recv_seq := 1, send_seq := 0\<rparr>, w3) =
        Some (Inr (with_seq HANDSHAKE_COMPLETION_RESPONSE 1, rr_response rr), (c, w4))"
    with run have "handshake (mock_host h) C P props spriv cred (c, w) = Some (Inr keys, (c, w4))"
      by (simp add: handshake_def host_handshake_new_def random_scalar_def io_bind_Some
          mock_random_bytes [OF ent] io_bind_assoc)
    moreover assume "mock_link (es, cs) [] (advance m2 (advance m1 d)) w4" "mock_phase m2 = Done" "device_seq m2 = 0"
      "agreed_keys m2 = Some (rr_key_request rr, rr_key_response rr)"
    ultimately show thesis using keys by (intro that [of keys w4 m2 m1]) simp_all
  qed (use init lens len in \<open>simp_all add: header_defs\<close>)
qed

end

interpretation hsdev: handshake_peer "on_message C P tepriv" C P tepriv "\<lambda>d. d" "\<lambda>m d. m" for C P tepriv
  by unfold_locales (simp_all add: on_message_def)

section \<open>Properties\<close>

text \<open>A test run starts with an idle mock.\<close>

definition mock_new :: "bytes list \<Rightarrow> bytes list \<Rightarrow> 'd \<Rightarrow> 'd mock_inner" where
  "mock_new out ent d = \<lparr>mk_reasm = reassembler_new, last_init_ctrl = 0, outbox = out, device = d,
     entropy = ent, codes = []\<rparr>"

text \<open>
  C5: exactly-once delivery.  A sender transmits messages with alternating sequence bits, each any
  number of times and with stray acknowledgements anywhere in between; then as many receives as
  there are messages return exactly their payloads, in order, each once.
\<close>

theorem abp_exactly_once:
  assumes "list_all am_ok ms" "packed (abp_transmit (recv_seq c) ms) (outbox w)"
    and "recv_seq c = 0 \<or> recv_seq c = 1" "pending_data c = None" "5 < packet_size c"
  shows "\<exists>fs c' w'. recv_many (mock_host listen) (length ms) (c, w) = Some (Inr fs, (c', w'))
    \<and> map snd fs = map am_payload ms"
  using recv_many_transmit [of ms c "[]" w] assms by (simp add: header_defs)

definition two_messages :: "abp_message list" where
  "two_messages =
    [\<lparr>am_base = HANDSHAKE_INIT_RESPONSE, am_payload = [1], am_strays = [ACK], am_retries = [[], [ACK]]\<rparr>,
     \<lparr>am_base = ENCRYPTED_TRANSPORT, am_payload = [2, 2], am_strays = [], am_retries = []\<rparr>]"

definition two_packets :: "bytes list" where
  "two_packets = concat (map (\<lambda>(ctrl, p). case segment BLE_PACKET_SIZE DEVICE_CID ctrl p of Inr ps \<Rightarrow> ps | Inl _ \<Rightarrow> [])
     (abp_transmit 0 two_messages))"

lemma packed_concat:
  "list_all (\<lambda>f. sendable (ci, f)) fs \<Longrightarrow>
   packed fs (concat (map (\<lambda>(ctrl, p). case segment BLE_PACKET_SIZE ci ctrl p of Inr ps \<Rightarrow> ps | Inl _ \<Rightarrow> []) fs))"
proof (induction fs)
  case (Cons f fs)
  obtain ctrl p where f: "f = (ctrl, p)" by (cases f)
  with Cons.prems have ok: "fits BLE_PACKET_SIZE p" "\<not> bit ctrl 7" by (simp_all add: sendable_def)
  obtain ps where "segment BLE_PACKET_SIZE ci ctrl p = Inr ps" using segment_ok [OF ok(1)] by blast
  with Cons ok f show ?case by (auto intro: packed.intros)
qed (simp add: none)

theorem abp_exactly_once_witness:
  "\<exists>fs c' w'. recv_many (mock_host listen) 2 (connection_new 64, mock_new two_packets [] []) =
     Some (Inr fs, (c', w')) \<and> map snd fs = [[1], [2, 2]]"
proof -
  have "list_all (\<lambda>f. sendable (DEVICE_CID, f)) (abp_transmit 0 two_messages)"
    by (simp add: two_messages_def am_copy_def sendable_simps with_seq_def control_defs)
  then have "packed (abp_transmit 0 two_messages) two_packets"
    unfolding two_packets_def by (rule packed_concat)
  moreover have "list_all am_ok two_messages"
    by (simp add: two_messages_def am_ok_def is_ack_def control_defs)
  ultimately show ?thesis
    using abp_exactly_once [of two_messages "connection_new 64" "mock_new two_packets [] []"]
    by (simp add: connection_new_def mock_new_def) (simp add: two_messages_def numeral_2_eq_2)
qed

text \<open>
  C6: the wait for an acknowledgement.  Once a message is written, its sequence bit being the current
  one, the send ends as the frame-level specification \<open>abp_await\<close> says of the frames that arrive: on
  the matching acknowledgement, on a transport error, or on a data frame, which is acknowledged and
  kept for the next receive; stale acknowledgements are skipped.  The device has seen exactly the
  message and the acknowledgements.
\<close>

theorem send_data_refines_abp:
  assumes "packed fs (outbox w)" "fits (packet_size c) p" "\<not> bit base 7"
    and "abp_await c fs = Some (r, c', rest, acks)"
  shows "\<exists>w'. send_data (mock_host listen) base p (c, w) = Some (r, (c', w'))
    \<and> packed rest (outbox w')
    \<and> device w' = device w @ (with_seq base (send_seq c), p) # map (\<lambda>sq. (ack_for sq, [])) acks"
  using listener.send_data_refines [of "(entropy w, codes w)" fs "device w" w c p base "[]" _ r c' rest acks] assms
  by (auto simp: mock_link_def handler_react_def listen_def foldl_log)

definition early_reply :: "frame list" where
  "early_reply = [(ack_for 1, []), (with_seq ENCRYPTED_TRANSPORT 0, [7])]"

theorem send_data_refines_abp_witness:
  "\<exists>w'. send_data (mock_host listen) ENCRYPTED_TRANSPORT [9] (connection_new 64, mock_new
       (concat (map (\<lambda>(ctrl, p). case segment BLE_PACKET_SIZE DEVICE_CID ctrl p of Inr ps \<Rightarrow> ps | Inl _ \<Rightarrow> []) early_reply)) [] [])
     = Some (Inr (), ((connection_new 64)\<lparr>send_seq := 1, recv_seq := 1, pending_data := Some (4, [7])\<rparr>, w'))
   \<and> packed [] (outbox w') \<and> device w' = [(4, [9]), (32, [])]"
proof -
  let ?out = "concat (map (\<lambda>(ctrl, p). case segment BLE_PACKET_SIZE DEVICE_CID ctrl p of Inr ps \<Rightarrow> ps | Inl _ \<Rightarrow> []) early_reply)"
  have "packed early_reply ?out"
    by (rule packed_concat) (simp add: early_reply_def sendable_simps with_seq_def control_defs)
  moreover have "abp_await (connection_new 64) early_reply =
      Some (Inr (), (connection_new 64)\<lparr>send_seq := 1, recv_seq := 1, pending_data := Some (4, [7])\<rparr>, [], [0])"
    by (simp add: early_reply_def connection_new_def stash_def is_ack_def ack_seq_of_def seq_of_def
        with_seq_def ack_for_def control_defs)
  ultimately show ?thesis
    using send_data_refines_abp [of early_reply "mock_new ?out [] []" "connection_new 64" "[9]" ENCRYPTED_TRANSPORT]
    by (simp add: mock_new_def connection_new_def fits_def header_defs with_seq_def ack_for_def control_defs)
qed

text \<open>
  C7: the driver against the in-memory device, end to end: packets, frames, acknowledgements, channel
  allocation and the two handshake round trips.  Allocation returns the device's channel and
  properties, the handshake completes, host and device hold the same request and response keys, and
  nothing is left unread.
\<close>

theorem driver_completes:
  assumes "crypto_laws C" "dec_device_properties P props = Inr dp" "length props + 14 < 2 ^ 16"
    and "dec_noise_payload P (enc_noise_payload P cred) = Inr cr"
    and "length (enc_noise_payload P cred) + 68 < 2 ^ 16" "5 < ps"
    and "w = mock_new [] [e1, e2] (mock_device_new C props tpriv)"
    and "H = mock_host (on_message C P tepriv)"
  shows "\<exists>c1 w1 keys w2.
    allocate H P (connection_new ps, w) = Some (Inr \<lparr>ca_cid = DEVICE_CID,
      ca_device_properties_raw = props, ca_device_properties = dp\<rparr>, (c1, w1))
    \<and> cid c1 = DEVICE_CID
    \<and> handshake H C P props spriv cred (c1, w1) = Some (Inr keys, (c1, w2))
    \<and> agreed_keys (device w2) = Some (key_request keys, key_response keys)
    \<and> nonce_request keys = 0 \<and> nonce_response keys = 1 \<and> trezor_state keys = [2]
    \<and> packed [] (outbox w2)"
proof -
  let ?d = "mock_device_new C props tpriv"
  have link: "mock_link ([e1, e2], []) [] ?d w" by (simp add: assms mock_link_def mock_new_def none)
  have ps: "INIT_HEADER < ps" using assms by (simp add: header_defs)
  obtain w1 where 1: "allocate H P (connection_new ps, w) =
      Some (Inr \<lparr>ca_cid = DEVICE_CID, ca_device_properties_raw = props, ca_device_properties = dp\<rparr>,
        ((connection_new ps)\<lparr>cid := DEVICE_CID\<rparr>, w1))" "mock_link ([e2], []) [] (?d\<lparr>mock_phase := ExpectInit\<rparr>) w1"
    unfolding assms(8)
    by (rule hsdev.allocate_on_device [OF assms(2,3) ps _ _ link, where C = C and tepriv = tepriv])
      (simp_all add: mock_device_new_def)
  let ?c = "(connection_new ps)\<lparr>cid := DEVICE_CID\<rparr>"
  obtain keys d' w2 where "handshake H C P props spriv cred (?c, w1) = Some (Inr keys, (?c, w2))"
      "mock_link ([], []) [] d' w2" "agreed_keys d' = Some (key_request keys, key_response keys)"
      "nonce_request keys = 0" "nonce_response keys = 1" "trezor_state keys = [2]"
    unfolding assms(8)
    by (rule hsdev.handshake_on_device [OF assms(1,4,5) _ _ _ _ _ _ _ 1(2), where c = ?c and tpriv = tpriv
          and props = props and tepriv = tepriv and spriv = spriv])
      (use ps in \<open>simp_all add: connection_new_def mock_device_new_def\<close>)
  with 1 show ?thesis by (fastforce simp: mock_link_def)
qed

theorem driver_completes_witness:
  "let H = mock_host (on_message demo_crypto demo_proto (replicate 32 5));
       w = mock_new [] [replicate 8 1, replicate 32 3] (mock_device_new demo_crypto [10, 4] (replicate 32 0x22))
   in \<exists>c1 w1 keys w2 dp.
    allocate H demo_proto (connection_new 244, w) = Some (Inr \<lparr>ca_cid = DEVICE_CID,
      ca_device_properties_raw = [10, 4], ca_device_properties = dp\<rparr>, (c1, w1))
    \<and> handshake H demo_crypto demo_proto [10, 4] (replicate 32 0x11) None (c1, w1) = Some (Inr keys, (c1, w2))
    \<and> agreed_keys (device w2) = Some (key_request keys, key_response keys)"
proof -
  have "crypto_laws demo_crypto"
    by (simp add: crypto_laws_def demo_aead_correct demo_hash_lengths demo_dh_laws)
  moreover have "dec_device_properties demo_proto [10, 4] = Inr
      \<lparr>internal_model = ''T3W1'', protocol_version_major = 2, protocol_version_minor = 0, pairing_methods = [2]\<rparr>"
    by (simp add: demo_proto_def)
  moreover have "dec_noise_payload demo_proto (enc_noise_payload demo_proto None) = Inr None"
      "length (enc_noise_payload demo_proto None) + 68 < 2 ^ 16"
    by (simp_all add: demo_proto_def)
  ultimately show ?thesis
    using driver_completes [where C = demo_crypto and P = demo_proto and props = "[10, 4]" and ps = 244
        and cred = None and ?e1.0 = "replicate 8 1" and ?e2.0 = "replicate 32 3" and tpriv = "replicate 32 0x22"
        and tepriv = "replicate 32 5" and spriv = "replicate 32 0x11", OF _ _ _ _ _ _ refl refl]
    by (fastforce simp: Let_def)
qed

end
