(* ===== verification/Exchange.thy ===== *)
theory Exchange
  imports Connection
begin

text \<open>
  Multi-step exchanges.  Pairing and Bitcoin signing send several application messages and react to
  the replies; their models take the sending operation as an argument, so that the same definition
  runs over a connection (\<open>transceive\<close>) and against a script of replies, which is how the
  choreography is specified.
\<close>

type_synonym 's send = "u16 \<Rightarrow> bytes \<Rightarrow> ('s, u16 \<times> bytes) io"

record script =
  replies :: "(u16 \<times> bytes) list"
  sent :: "(u16 \<times> bytes) list"

definition scripted :: "script send" where
  "scripted mt body = (\<lambda>s. case replies s of
     [] \<Rightarrow> Some (Err (Transport ''script exhausted''), s\<lparr>sent := sent s @ [(mt, body)]\<rparr>)
   | r # rs \<Rightarrow> Some (Inr r, \<lparr>replies = rs, sent = sent s @ [(mt, body)]\<rparr>))"

lemma scripted_Cons [simp]:
  "io_bind (scripted mt body) k \<lparr>replies = r # rs, sent = ms\<rparr> = k r \<lparr>replies = rs, sent = ms @ [(mt, body)]\<rparr>"
  by (simp add: io_bind_def scripted_def)

lemma scripted_Nil [simp]:
  "io_bind (scripted mt body) k \<lparr>replies = [], sent = ms\<rparr> =
     Some (Err (Transport ''script exhausted''), \<lparr>replies = [], sent = ms @ [(mt, body)]\<rparr>)"
  by (simp add: io_bind_def scripted_def)

text \<open>What an exchange returns against a list of replies, and what it sent.\<close>

definition transcript :: "(script, 'a) io \<Rightarrow> (u16 \<times> bytes) list \<Rightarrow> ('a res \<times> (u16 \<times> bytes) list) option" where
  "transcript m rs = map_option (\<lambda>(r, s). (r, sent s)) (m \<lparr>replies = rs, sent = []\<rparr>)"

text \<open>Success of an exchange, one step at a time.\<close>

definition succeeds :: "(script, 'a) io \<Rightarrow> (u16 \<times> bytes) list \<Rightarrow> (u16 \<times> bytes) list \<Rightarrow> 'a \<Rightarrow> (u16 \<times> bytes) list \<Rightarrow> bool" where
  "succeeds m rs ms a ms' \<longleftrightarrow> map_option (\<lambda>(r, s). (r, sent s)) (m \<lparr>replies = rs, sent = ms\<rparr>) = Some (Inr a, ms')"

lemma transcript_succeeds: "transcript m rs = Some (Inr a, ms) \<longleftrightarrow> succeeds m rs [] a ms"
  by (simp add: transcript_def succeeds_def)

lemma succeeds_steps:
  "succeeds (io_bind (scripted mt body) k) rs ms a ms' \<longleftrightarrow>
     (\<exists>t b rs'. rs = (t, b) # rs' \<and> succeeds (k (t, b)) rs' (ms @ [(mt, body)]) a ms')"
  "succeeds (io_bind (io_res x) k1) rs ms a ms' \<longleftrightarrow> (\<exists>y. x = Inr y \<and> succeeds (k1 y) rs ms a ms')"
  "succeeds (io_res z) rs ms a ms' \<longleftrightarrow> z = Inr a \<and> ms' = ms"
  "succeeds (io_fail e) rs ms a ms' \<longleftrightarrow> False"
  "succeeds (if c then m1 else m2) rs ms a ms' \<longleftrightarrow> (if c then succeeds m1 rs ms a ms' else succeeds m2 rs ms a ms')"
  by (cases rs; auto simp: succeeds_def io_bind_def scripted_def split: sum.splits)+

end
