(* ===== verification/Elligator2.thy ===== *)
theory Elligator2
  imports Prelude
begin

text \<open>
  The field \<open>GF(2\<^sup>2\<^sup>5\<^sup>5 - 19)\<close> in five limbs of radix \<open>2\<^sup>5\<^sup>1\<close> and the Elligator2 map of
  \<^verbatim>\<open>thp/elligator2.rs\<close>.  Limbs are \<open>u64\<close> words and products \<open>u128\<close> words, so every addition and
  multiplication below wraps around; the lemmas show that on the limb bounds the source keeps
  nothing does, and that the operations compute in the integers modulo \<open>p\<close>.
\<close>

section \<open>Field elements\<close>

definition LOW_51_BIT_MASK :: u64 where "LOW_51_BIT_MASK = push_bit 51 1 - 1"

datatype fe = Fe u64 u64 u64 u64 u64

definition reduce :: "fe \<Rightarrow> fe" where
  "reduce f = (case f of Fe l0 l1 l2 l3 l4 \<Rightarrow>
     let c0 = drop_bit 51 l0; c1 = drop_bit 51 l1; c2 = drop_bit 51 l2;
         c3 = drop_bit 51 l3; c4 = drop_bit 51 l4 in
     Fe ((l0 AND LOW_51_BIT_MASK) + c4 * 19) ((l1 AND LOW_51_BIT_MASK) + c0)
        ((l2 AND LOW_51_BIT_MASK) + c1) ((l3 AND LOW_51_BIT_MASK) + c2) ((l4 AND LOW_51_BIT_MASK) + c3))"

definition fe_zero :: fe where "fe_zero = Fe 0 0 0 0 0"
definition fe_one :: fe where "fe_one = Fe 1 0 0 0 0"
definition fe_from_u64 :: "u64 \<Rightarrow> fe" where "fe_from_u64 x = Fe x 0 0 0 0"
definition sqrt_m1 :: fe where
  "sqrt_m1 = Fe 1718705420411056 234908883556509 2233514472574048 2117202627021982 765476049583133"

text \<open>\<^verbatim>\<open>u64::from_le_bytes\<close> of eight bytes at \<open>i\<close>.\<close>

definition from_le :: "bytes \<Rightarrow> u64" where
  "from_le bs = foldr (\<lambda>b v. push_bit 8 v OR ucast b) bs 0"

definition load8 :: "bytes \<Rightarrow> nat \<Rightarrow> u64" where
  "load8 bs i = from_le (take 8 (drop i bs))"

definition fe_from_bytes :: "bytes \<Rightarrow> fe" where
  "fe_from_bytes bs = Fe (load8 bs 0 AND LOW_51_BIT_MASK)
     (drop_bit 3 (load8 bs 6) AND LOW_51_BIT_MASK)
     (drop_bit 6 (load8 bs 12) AND LOW_51_BIT_MASK)
     (drop_bit 1 (load8 bs 19) AND LOW_51_BIT_MASK)
     (drop_bit 12 (load8 bs 24) AND LOW_51_BIT_MASK)"

text \<open>The full reduction: \<open>q\<close> is the carry of adding 19, then the carries are propagated.\<close>

definition canonical :: "fe \<Rightarrow> fe" where
  "canonical f = (case reduce f of Fe l0 l1 l2 l3 l4 \<Rightarrow>
     let q = drop_bit 51 (l0 + 19); q = drop_bit 51 (l1 + q); q = drop_bit 51 (l2 + q);
         q = drop_bit 51 (l3 + q); q = drop_bit 51 (l4 + q);
         l0 = l0 + 19 * q;
         l1 = l1 + drop_bit 51 l0; l0 = l0 AND LOW_51_BIT_MASK;
         l2 = l2 + drop_bit 51 l1; l1 = l1 AND LOW_51_BIT_MASK;
         l3 = l3 + drop_bit 51 l2; l2 = l2 AND LOW_51_BIT_MASK;
         l4 = l4 + drop_bit 51 l3; l3 = l3 AND LOW_51_BIT_MASK;
         l4 = l4 AND LOW_51_BIT_MASK
     in Fe l0 l1 l2 l3 l4)"

definition pack :: "fe \<Rightarrow> bytes" where
  "pack f = (case f of Fe l0 l1 l2 l3 l4 \<Rightarrow>
     [ucast l0, ucast (drop_bit 8 l0), ucast (drop_bit 16 l0), ucast (drop_bit 24 l0),
      ucast (drop_bit 32 l0), ucast (drop_bit 40 l0), ucast (drop_bit 48 l0 OR push_bit 3 l1),
      ucast (drop_bit 5 l1), ucast (drop_bit 13 l1), ucast (drop_bit 21 l1), ucast (drop_bit 29 l1),
      ucast (drop_bit 37 l1), ucast (drop_bit 45 l1 OR push_bit 6 l2),
      ucast (drop_bit 2 l2), ucast (drop_bit 10 l2), ucast (drop_bit 18 l2), ucast (drop_bit 26 l2),
      ucast (drop_bit 34 l2), ucast (drop_bit 42 l2), ucast (drop_bit 50 l2 OR push_bit 1 l3),
      ucast (drop_bit 7 l3), ucast (drop_bit 15 l3), ucast (drop_bit 23 l3), ucast (drop_bit 31 l3),
      ucast (drop_bit 39 l3), ucast (drop_bit 47 l3 OR push_bit 4 l4),
      ucast (drop_bit 4 l4), ucast (drop_bit 12 l4), ucast (drop_bit 20 l4), ucast (drop_bit 28 l4),
      ucast (drop_bit 36 l4), ucast (drop_bit 44 l4)])"

definition fe_to_bytes :: "fe \<Rightarrow> bytes" where
  "fe_to_bytes f = pack (canonical f)"

definition fe_add :: "fe \<Rightarrow> fe \<Rightarrow> fe" where
  "fe_add a b = (case (a, b) of (Fe a0 a1 a2 a3 a4, Fe b0 b1 b2 b3 b4) \<Rightarrow>
     Fe (a0 + b0) (a1 + b1) (a2 + b2) (a3 + b3) (a4 + b4))"

definition fe_sub :: "fe \<Rightarrow> fe \<Rightarrow> fe" where
  "fe_sub a b = (case (a, b) of (Fe a0 a1 a2 a3 a4, Fe b0 b1 b2 b3 b4) \<Rightarrow>
     reduce (Fe ((a0 + 36028797018963664) - b0) ((a1 + 36028797018963952) - b1)
       ((a2 + 36028797018963952) - b2) ((a3 + 36028797018963952) - b3) ((a4 + 36028797018963952) - b4)))"

definition fe_neg :: "fe \<Rightarrow> fe" where
  "fe_neg a = fe_sub fe_zero a"

definition wide_mul :: "u64 \<Rightarrow> u64 \<Rightarrow> u128" where
  "wide_mul x y = ucast x * ucast y"

text \<open>The carry chain at the end of \<open>mul\<close>, from the five column sums.\<close>

definition carry_chain :: "u128 \<Rightarrow> u128 \<Rightarrow> u128 \<Rightarrow> u128 \<Rightarrow> u128 \<Rightarrow> fe" where
  "carry_chain c0 c1 c2 c3 c4 =
     (let c1 = c1 + drop_bit 51 c0; out0 = ucast c0 AND LOW_51_BIT_MASK;
          c2 = c2 + drop_bit 51 c1; out1 = ucast c1 AND LOW_51_BIT_MASK;
          c3 = c3 + drop_bit 51 c2; out2 = ucast c2 AND LOW_51_BIT_MASK;
          c4 = c4 + drop_bit 51 c3; out3 = ucast c3 AND LOW_51_BIT_MASK;
          carry = ucast (drop_bit 51 c4); out4 = ucast c4 AND LOW_51_BIT_MASK;
          out0 = out0 + carry * 19;
          out1 = out1 + drop_bit 51 out0;
          out0 = out0 AND LOW_51_BIT_MASK
      in Fe out0 out1 out2 out3 out4)"

definition fe_mul :: "fe \<Rightarrow> fe \<Rightarrow> fe" where
  "fe_mul a b = (case (a, b) of (Fe a0 a1 a2 a3 a4, Fe b0 b1 b2 b3 b4) \<Rightarrow>
     let m = wide_mul; b1_19 = b1 * 19; b2_19 = b2 * 19; b3_19 = b3 * 19; b4_19 = b4 * 19;
         c0 = m a0 b0 + m a4 b1_19 + m a3 b2_19 + m a2 b3_19 + m a1 b4_19;
         c1 = m a1 b0 + m a0 b1 + m a4 b2_19 + m a3 b3_19 + m a2 b4_19;
         c2 = m a2 b0 + m a1 b1 + m a0 b2 + m a4 b3_19 + m a3 b4_19;
         c3 = m a3 b0 + m a2 b1 + m a1 b2 + m a0 b3 + m a4 b4_19;
         c4 = m a4 b0 + m a3 b1 + m a2 b2 + m a1 b3 + m a0 b4
     in carry_chain c0 c1 c2 c3 c4)"

definition fe_square :: "fe \<Rightarrow> fe" where
  "fe_square a = fe_mul a a"

definition pow2k :: "fe \<Rightarrow> nat \<Rightarrow> fe" where
  "pow2k a k = (fe_square ^^ k) a"

definition pow22501 :: "fe \<Rightarrow> fe \<times> fe" where
  "pow22501 a =
     (let t0 = fe_square a; t1 = fe_square (fe_square t0); t2 = fe_mul a t1; t3 = fe_mul t0 t2;
          t4 = fe_square t3; t5 = fe_mul t2 t4; t6 = pow2k t5 5; t7 = fe_mul t6 t5;
          t8 = pow2k t7 10; t9 = fe_mul t8 t7; t10 = pow2k t9 20; t11 = fe_mul t10 t9;
          t12 = pow2k t11 10; t13 = fe_mul t12 t7; t14 = pow2k t13 50; t15 = fe_mul t14 t13;
          t16 = pow2k t15 100; t17 = fe_mul t16 t15; t18 = pow2k t17 50; t19 = fe_mul t18 t13
      in (t19, t3))"

definition invert :: "fe \<Rightarrow> fe" where
  "invert a = (let (t19, t3) = pow22501 a; t20 = pow2k t19 5 in fe_mul t20 t3)"

definition pow_p58 :: "fe \<Rightarrow> fe" where
  "pow_p58 a = (let (t19, _) = pow22501 a; t20 = pow2k t19 2 in fe_mul a t20)"

definition ct_eq :: "fe \<Rightarrow> fe \<Rightarrow> bool" where
  "ct_eq a b \<longleftrightarrow> fe_to_bytes a = fe_to_bytes b"

definition cmov :: "fe \<Rightarrow> fe \<Rightarrow> bool \<Rightarrow> fe" where
  "cmov a b c = (if c then b else a)"

definition map_to_curve25519 :: "bytes \<Rightarrow> bytes" where
  "map_to_curve25519 input =
     (let u = fe_from_bytes input; c3 = sqrt_m1; j = fe_from_u64 486662; one = fe_one;
          tv1 = fe_square u; tv1 = fe_add tv1 tv1; xd = fe_add tv1 one; x1n = fe_neg j;
          tv2 = fe_square xd; gxd = fe_mul tv2 xd;
          gx1 = fe_mul j tv1; gx1 = fe_mul gx1 x1n; gx1 = fe_add gx1 tv2; gx1 = fe_mul gx1 x1n;
          tv3 = fe_square gxd; tv2b = fe_square tv3; tv3 = fe_mul tv3 gxd; tv3 = fe_mul tv3 gx1;
          tv2b = fe_mul tv2b tv3;
          y11 = pow_p58 tv2b; y11 = fe_mul y11 tv3; y12 = fe_mul y11 c3;
          tv2c = fe_square y11; tv2c = fe_mul tv2c gxd; e1 = ct_eq tv2c gx1; y1 = cmov y12 y11 e1;
          x2n = fe_mul x1n tv1;
          tv2d = fe_square y1; tv2d = fe_mul tv2d gxd; e3 = ct_eq tv2d gx1; xn = cmov x2n x1n e3;
          x = fe_mul xn (invert xd)
      in fe_to_bytes x)"

section \<open>Values and bounds\<close>

definition p25519 :: int where "p25519 = 2 ^ 255 - 19"

definition fe_val :: "fe \<Rightarrow> int" where
  "fe_val f = (case f of Fe l0 l1 l2 l3 l4 \<Rightarrow>
     uint l0 + 2 ^ 51 * uint l1 + 2 ^ 102 * uint l2 + 2 ^ 153 * uint l3 + 2 ^ 204 * uint l4)"

definition below :: "int \<Rightarrow> fe \<Rightarrow> bool" where
  "below n f = (case f of Fe l0 l1 l2 l3 l4 \<Rightarrow>
     uint l0 < n \<and> uint l1 < n \<and> uint l2 < n \<and> uint l3 < n \<and> uint l4 < n)"

definition fv :: "fe \<Rightarrow> int" where
  "fv f = fe_val f mod p25519"

lemma uint_mask51: "uint (w AND LOW_51_BIT_MASK) = uint w mod 2 ^ 51"
proof -
  have "LOW_51_BIT_MASK = mask 51" by (simp add: LOW_51_BIT_MASK_def mask_eq_exp_minus_1 push_bit_eq_mult)
  then have "w AND LOW_51_BIT_MASK = take_bit 51 w" by (simp add: take_bit_eq_mask)
  then show ?thesis by (simp only: unsigned_take_bit_eq) (simp only: take_bit_eq_mod)
qed

lemma uint_shift51: "uint (drop_bit 51 (w :: 'a::len word)) = uint w div 2 ^ 51"
  by (simp only: unsigned_drop_bit_eq take_bit_int_eq_self uint_ge_0 uint_lt2p) (simp only: drop_bit_eq_div)

lemma uint_add64:
  "uint a + uint b < 2 ^ LENGTH('a) \<Longrightarrow> uint (a + b :: 'a::len word) = uint a + uint b"
  by (simp add: uint_word_ariths(1))

lemma uint_mul64:
  "uint a * uint b < 2 ^ LENGTH('a) \<Longrightarrow> uint (a * b :: 'a::len word) = uint a * uint b"
  by (simp add: uint_word_ariths(3))

lemma uint_nonneg [simp]: "0 \<le> uint w" by simp

lemma uint64_bound: "uint (w :: u64) < 18446744073709551616"
  using uint_lt2p [of w] by simp

text \<open>The value of five digits, and what carrying does to it.\<close>

definition pv :: "int \<Rightarrow> int \<Rightarrow> int \<Rightarrow> int \<Rightarrow> int \<Rightarrow> int \<Rightarrow> int" where
  "pv X a0 a1 a2 a3 a4 = a0 + X * a1 + X ^ 2 * a2 + X ^ 3 * a3 + X ^ 4 * a4"

abbreviation radix :: int where "radix \<equiv> 2 ^ 51"

lemma fe_val_pv: "fe_val (Fe l0 l1 l2 l3 l4) = pv radix (uint l0) (uint l1) (uint l2) (uint l3) (uint l4)"
  by (simp add: fe_val_def pv_def)

lemma p25519_radix: "p25519 = radix ^ 5 - 19"
  by (simp add: p25519_def)

lemma pv_reduce:
  fixes X :: int
  shows "pv X (a0 mod X + a4 div X * 19) (a1 mod X + a0 div X) (a2 mod X + a1 div X)
      (a3 mod X + a2 div X) (a4 mod X + a3 div X) = pv X a0 a1 a2 a3 a4 - (X ^ 5 - 19) * (a4 div X)"
proof -
  have r: "a mod X = a - X * (a div X)" for a by (simp add: minus_mult_div_eq_mod)
  show ?thesis unfolding pv_def r by algebra
qed

lemma reduce_Fe:
  "\<exists>r0 r1 r2 r3 r4. reduce (Fe l0 l1 l2 l3 l4) = Fe r0 r1 r2 r3 r4
    \<and> uint r0 = uint l0 mod radix + uint l4 div radix * 19 \<and> uint r1 = uint l1 mod radix + uint l0 div radix
    \<and> uint r2 = uint l2 mod radix + uint l1 div radix \<and> uint r3 = uint l3 mod radix + uint l2 div radix
    \<and> uint r4 = uint l4 mod radix + uint l3 div radix"
proof -
  have 1: "uint ((a AND LOW_51_BIT_MASK) + drop_bit 51 b) = uint a mod radix + uint b div radix" for a b :: u64
  proof -
    have "uint a mod radix + uint b div radix < 2 ^ 64"
      using uint64_bound [of b] by simp
    then show ?thesis by (subst uint_add64) (simp_all only: uint_mask51 uint_shift51, simp_all)
  qed
  have 2: "uint ((a AND LOW_51_BIT_MASK) + drop_bit 51 b * 19) = uint a mod radix + uint b div radix * 19" for a b :: u64
  proof -
    have "uint b div radix * 19 < 2 ^ 20" using uint64_bound [of b] by simp
    then have m: "uint (drop_bit 51 b * 19) = uint b div radix * 19"
      by (subst uint_mul64) (simp_all only: uint_shift51, simp_all)
    have "uint a mod radix < radix" by simp
    with \<open>uint b div radix * 19 < 2 ^ 20\<close> have "uint a mod radix + uint b div radix * 19 < 2 ^ 64" by simp
    then show ?thesis by (subst uint_add64) (simp_all only: uint_mask51 m, simp_all)
  qed
  show ?thesis
    by (intro exI conjI) (simp add: reduce_def Let_def, rule 2, (rule 1)+)
qed

lemma fv_eqI: "fe_val f = x - p25519 * k \<Longrightarrow> fv f = x mod p25519"
proof -
  assume "fe_val f = x - p25519 * k"
  then have "fe_val f = x + p25519 * (- k)" by simp
  then show ?thesis unfolding fv_def by (simp only: mod_mult_self2)
qed

lemma reduce_val: "fv (reduce f) = fv f" "below (2 ^ 51 + 2 ^ 18) (reduce f)"
proof -
  obtain l0 l1 l2 l3 l4 where f: "f = Fe l0 l1 l2 l3 l4" by (cases f)
  obtain r0 r1 r2 r3 r4 where r: "reduce f = Fe r0 r1 r2 r3 r4"
    "uint r0 = uint l0 mod radix + uint l4 div radix * 19" "uint r1 = uint l1 mod radix + uint l0 div radix"
    "uint r2 = uint l2 mod radix + uint l1 div radix" "uint r3 = uint l3 mod radix + uint l2 div radix"
    "uint r4 = uint l4 mod radix + uint l3 div radix"
    using reduce_Fe [of l0 l1 l2 l3 l4] unfolding f by blast
  have "fe_val (reduce f) = pv radix (uint l0) (uint l1) (uint l2) (uint l3) (uint l4) - (radix ^ 5 - 19) * (uint l4 div radix)"
    unfolding r(1) fe_val_pv r(2-6) by (rule pv_reduce)
  then have "fe_val (reduce f) = fe_val f - p25519 * (uint l4 div radix)"
    by (simp only: f fe_val_pv p25519_radix)
  then show "fv (reduce f) = fv f" using fv_eqI [of _ "fe_val f"] by (simp add: fv_def)
  have "uint l mod radix + uint m div radix < 2 ^ 51 + 2 ^ 18"
      "uint l mod radix + uint m div radix * 19 < 2 ^ 51 + 2 ^ 18" for l m :: u64
    using uint64_bound [of m] by simp_all
  then show "below (2 ^ 51 + 2 ^ 18) (reduce f)" unfolding r(1) below_def fe.case r(2-6) by blast
qed

lemma below_mono: "below n f \<Longrightarrow> n \<le> m \<Longrightarrow> below m f"
  by (auto simp: below_def split: fe.splits)

lemma add_val:
  assumes "below n a" "below m b" "n + m \<le> 2 ^ 64"
  shows "fv (fe_add a b) = (fv a + fv b) mod p25519" "below (n + m) (fe_add a b)"
proof -
  obtain a0 a1 a2 a3 a4 where a: "a = Fe a0 a1 a2 a3 a4" by (cases a)
  obtain b0 b1 b2 b3 b4 where b: "b = Fe b0 b1 b2 b3 b4" by (cases b)
  have u: "uint (x + y) = uint x + uint y" if "uint x < n" "uint y < m" for x y :: u64
    using that assms(3) by (intro uint_add64) simp
  show "below (n + m) (fe_add a b)" using assms(1,2) by (auto simp: a b fe_add_def below_def u)
  have "fe_val (fe_add a b) = fe_val a + fe_val b"
    using assms(1,2) by (simp add: a b fe_add_def below_def fe_val_pv u pv_def algebra_simps)
  then show "fv (fe_add a b) = (fv a + fv b) mod p25519" by (simp add: fv_def mod_add_eq)
qed

lemma sub_val:
  assumes "below (2 ^ 54) a" "below (2 ^ 54) b"
  shows "fv (fe_sub a b) = (fv a - fv b) mod p25519" "below (2 ^ 51 + 2 ^ 18) (fe_sub a b)"
proof -
  obtain a0 a1 a2 a3 a4 where a: "a = Fe a0 a1 a2 a3 a4" by (cases a)
  obtain b0 b1 b2 b3 b4 where b: "b = Fe b0 b1 b2 b3 b4" by (cases b)
  have u: "uint ((x + k) - y) = uint x + uint k - uint y"
    if "uint x < 2 ^ 54" "uint y < 2 ^ 54" "2 ^ 54 \<le> uint k" "uint k < 2 ^ 56" for x y k :: u64
  proof -
    have "uint (x + k) = uint x + uint k" using that by (intro uint_add64) simp
    moreover have "uint y \<le> uint (x + k)" using that calculation uint_ge_0 [of x] by linarith
    ultimately show ?thesis using uint_sub_lem [of y "x + k"] by simp
  qed
  let ?s = "Fe ((a0 + 36028797018963664) - b0) ((a1 + 36028797018963952) - b1)
       ((a2 + 36028797018963952) - b2) ((a3 + 36028797018963952) - b3) ((a4 + 36028797018963952) - b4)"
  have "fe_val ?s = (fe_val a - fe_val b) - p25519 * (- 16)"
    using assms by (simp add: a b below_def fe_val_pv u pv_def p25519_def)
  then have "fv ?s = (fv a - fv b) mod p25519"
    using fv_eqI [of ?s "fe_val a - fe_val b"] by (simp add: fv_def mod_diff_eq)
  moreover have sub: "fe_sub a b = reduce ?s" by (simp add: a b fe_sub_def)
  ultimately show "fv (fe_sub a b) = (fv a - fv b) mod p25519" by (simp only: sub reduce_val)
  show "below (2 ^ 51 + 2 ^ 18) (fe_sub a b)" by (simp only: sub reduce_val)
qed

lemma pv_carry:
  fixes X :: int
  assumes "d1 = c1 + c0 div X" "d2 = c2 + d1 div X" "d3 = c3 + d2 div X" "d4 = c4 + d3 div X"
    and "o0 = c0 mod X + d4 div X * 19"
  shows "pv X (o0 mod X) (d1 mod X + o0 div X) (d2 mod X) (d3 mod X) (d4 mod X)
    = pv X c0 c1 c2 c3 c4 - (X ^ 5 - 19) * (d4 div X)"
proof -
  have r: "a mod X = a - X * (a div X)" for a by (simp add: minus_mult_div_eq_mod)
  have "pv X (o0 mod X) (d1 mod X + o0 div X) (d2 mod X) (d3 mod X) (d4 mod X)
      = pv X o0 (d1 mod X) (d2 mod X) (d3 mod X) (d4 mod X)"
    unfolding pv_def r [of o0] by algebra
  also have "\<dots> = pv X c0 c1 c2 c3 c4 - (X ^ 5 - 19) * (d4 div X)"
    unfolding pv_def assms(5) r using assms(1-4) by algebra
  finally show ?thesis .
qed

lemma uint_carry:
  fixes c d :: u128
  assumes "uint c < B" "B \<le> 2 ^ 115" "uint d < 2 ^ 116"
  shows "uint (c + drop_bit 51 d) = uint c + uint d div radix" "uint c + uint d div radix < B + 2 ^ 66"
proof -
  have "uint d div radix < 2 ^ 66" using assms by simp
  with assms show "uint c + uint d div radix < B + 2 ^ 66" by simp
  with assms show "uint (c + drop_bit 51 d) = uint c + uint d div radix"
    by (subst uint_add64) (simp_all only: uint_shift51, simp)
qed

lemma uint_low51: "uint (ucast (d :: u128) AND LOW_51_BIT_MASK :: u64) = uint d mod radix"
proof -
  have "take_bit 51 (take_bit 64 (uint d)) = take_bit 51 (uint d)" by simp
  then show ?thesis unfolding uint_mask51 unsigned_ucast_eq by (simp add: take_bit_eq_mod)
qed

text \<open>The carry out of the last column fits a \<open>u64\<close> and folds back into the first limb times 19.\<close>

lemma uint_fold19:
  fixes c d :: u128
  assumes "uint d < 5 * 2 ^ 108 + 2 ^ 66"
  shows "uint ((ucast c AND LOW_51_BIT_MASK) + ucast (drop_bit 51 d) * 19 :: u64)
    = uint c mod radix + uint d div radix * 19"
proof -
  have b: "uint d div radix < 5 * 2 ^ 57 + 2 ^ 15 + 1" using assms by simp
  then have "take_bit 64 (uint d div radix) = uint d div radix"
    by (intro take_bit_int_eq_self) (simp_all add: pos_imp_zdiv_nonneg_iff)
  then have k: "uint (ucast (drop_bit 51 d) :: u64) = uint d div radix"
    unfolding unsigned_ucast_eq by (simp add: uint_shift51)
  have b19: "uint d div radix * 19 < 95 * 2 ^ 57 + 2 ^ 20" using b by simp
  have "uint (ucast (drop_bit 51 d) * 19 :: u64) = uint d div radix * 19"
    by (subst uint_mul64) (use k b19 in simp_all)
  then show ?thesis using b19 by (subst uint_add64) (simp_all only: uint_low51, simp_all)
qed

lemma carry_chain_val:
  fixes c0 c1 c2 c3 c4 :: u128
  assumes "uint c0 < 2 ^ 115" "uint c1 < 2 ^ 115" "uint c2 < 2 ^ 115" "uint c3 < 2 ^ 115"
    and "uint c4 < 5 * 2 ^ 108"
  shows "fv (carry_chain c0 c1 c2 c3 c4) = pv radix (uint c0) (uint c1) (uint c2) (uint c3) (uint c4) mod p25519"
    and "below (2 ^ 51 + 2 ^ 13) (carry_chain c0 c1 c2 c3 c4)"
proof -
  define d1 where "d1 = c1 + drop_bit 51 c0"
  define d2 where "d2 = c2 + drop_bit 51 d1"
  define d3 where "d3 = c3 + drop_bit 51 d2"
  define d4 where "d4 = c4 + drop_bit 51 d3"
  define k :: u64 where "k = ucast (drop_bit 51 d4)"
  define o0 where "o0 = (ucast c0 AND LOW_51_BIT_MASK) + k * 19"
  have u1: "uint d1 = uint c1 + uint c0 div radix" "uint d1 < 2 ^ 116"
    using uint_carry [of c1 "2 ^ 115" c0] assms by (auto simp: d1_def)
  have u2: "uint d2 = uint c2 + uint d1 div radix" "uint d2 < 2 ^ 116"
    using uint_carry [of c2 "2 ^ 115" d1] assms u1 by (auto simp: d2_def)
  have u3: "uint d3 = uint c3 + uint d2 div radix" "uint d3 < 2 ^ 116"
    using uint_carry [of c3 "2 ^ 115" d2] assms u2 by (auto simp: d3_def)
  have u4: "uint d4 = uint c4 + uint d3 div radix" "uint d4 < 5 * 2 ^ 108 + 2 ^ 66"
    using uint_carry [of c4 "5 * 2 ^ 108" d3] assms u3 by (auto simp: d4_def)
  have o0: "uint o0 = uint c0 mod radix + uint d4 div radix * 19"
    unfolding o0_def k_def by (rule uint_fold19 [OF u4(2)])
  have o1: "uint ((ucast d1 AND LOW_51_BIT_MASK) + drop_bit 51 o0) = uint d1 mod radix + uint o0 div radix"
    using uint64_bound [of o0] by (subst uint_add64) (simp_all only: uint_low51 uint_shift51, simp_all)
  have res: "carry_chain c0 c1 c2 c3 c4 = Fe (o0 AND LOW_51_BIT_MASK) ((ucast d1 AND LOW_51_BIT_MASK) + drop_bit 51 o0)
      (ucast d2 AND LOW_51_BIT_MASK) (ucast d3 AND LOW_51_BIT_MASK) (ucast d4 AND LOW_51_BIT_MASK)"
    by (simp add: carry_chain_def Let_def d1_def d2_def d3_def d4_def k_def o0_def)
  have "fe_val (carry_chain c0 c1 c2 c3 c4) = pv radix (uint c0) (uint c1) (uint c2) (uint c3) (uint c4)
      - (radix ^ 5 - 19) * (uint d4 div radix)"
    unfolding res fe_val_pv uint_low51 o1 uint_mask51 [of o0] by (rule pv_carry) (rule u1(1) u2(1) u3(1) u4(1) o0)+
  then show "fv (carry_chain c0 c1 c2 c3 c4) = pv radix (uint c0) (uint c1) (uint c2) (uint c3) (uint c4) mod p25519"
    by (intro fv_eqI) (simp only: p25519_radix)
  have "uint o0 div radix < 2 ^ 13" using uint64_bound [of o0] by simp
  moreover have m: "x mod radix < radix" "x mod radix < 2 ^ 51 + 2 ^ 13" for x :: int
    by simp (rule less_trans [OF pos_mod_bound], simp_all)
  ultimately have "uint d1 mod radix + uint o0 div radix < 2 ^ 51 + 2 ^ 13"
    using m(1) [of "uint d1"] by linarith
  with m(2) show "below (2 ^ 51 + 2 ^ 13) (carry_chain c0 c1 c2 c3 c4)"
    unfolding res below_def fe.case uint_low51 o1 uint_mask51 [of o0] by blast
qed

lemma uint_wide_mul: "uint (wide_mul x y) = uint x * uint y"
proof -
  have "uint x * uint y < 2 ^ 64 * 2 ^ 64"
    using uint_lt2p [of x] uint_lt2p [of y] by (intro mult_strict_mono) simp_all
  then have lt: "uint x * uint y < 2 ^ 128" by simp
  have u: "uint (ucast z :: u128) = uint z" for z :: u64
    using uint64_bound [of z] by (simp add: unsigned_ucast_eq) (rule take_bit_int_eq_self, simp_all)
  show ?thesis unfolding wide_mul_def using lt by (subst uint_mul64) (simp_all only: u, simp)
qed

text \<open>A column sum: five products, each bounded; \<open>n\<close> of them carry the factor 19.\<close>

lemma uint_sum5:
  fixes x1 x2 x3 x4 x5 :: u128
  assumes "uint x1 \<le> B1" "uint x2 \<le> B2" "uint x3 \<le> B3" "uint x4 \<le> B4" "uint x5 \<le> B5"
    and "B1 + B2 + B3 + B4 + B5 < 2 ^ 128"
  shows "uint (x1 + x2 + x3 + x4 + x5) = uint x1 + uint x2 + uint x3 + uint x4 + uint x5"
proof -
  note nn = uint_ge_0 [of x1] uint_ge_0 [of x2] uint_ge_0 [of x3] uint_ge_0 [of x4] uint_ge_0 [of x5]
  have add: "uint x + uint y < 2 ^ 128 \<Longrightarrow> uint (x + y) = uint x + uint y" for x y :: u128
    by (rule uint_add64) simp
  have 2: "uint (x1 + x2) = uint x1 + uint x2"
    by (rule add) (use assms nn in linarith)
  have 3: "uint (x1 + x2 + x3) = uint x1 + uint x2 + uint x3"
    using add [of "x1 + x2" x3] assms nn 2 by linarith
  have 4: "uint (x1 + x2 + x3 + x4) = uint x1 + uint x2 + uint x3 + uint x4"
    using add [of "x1 + x2 + x3" x4] assms nn 3 by linarith
  show ?thesis using add [of "x1 + x2 + x3 + x4" x5] assms nn 4 by linarith
qed

lemma pv_mult:
  "pv X a0 a1 a2 a3 a4 * pv X b0 b1 b2 b3 b4 =
     pv X (a0 * b0 + a4 * (b1 * 19) + a3 * (b2 * 19) + a2 * (b3 * 19) + a1 * (b4 * 19))
       (a1 * b0 + a0 * b1 + a4 * (b2 * 19) + a3 * (b3 * 19) + a2 * (b4 * 19))
       (a2 * b0 + a1 * b1 + a0 * b2 + a4 * (b3 * 19) + a3 * (b4 * 19))
       (a3 * b0 + a2 * b1 + a1 * b2 + a0 * b3 + a4 * (b4 * 19))
       (a4 * b0 + a3 * b1 + a2 * b2 + a1 * b3 + a0 * b4)
     + (X ^ 5 - 19) * (a4 * b1 + a3 * b2 + a2 * b3 + a1 * b4
       + X * (a4 * b2 + a3 * b3 + a2 * b4) + X ^ 2 * (a4 * b3 + a3 * b4) + X ^ 3 * (a4 * b4))"
  unfolding pv_def by algebra

lemma pv_mult_mod:
  "(pv radix a0 a1 a2 a3 a4 * pv radix b0 b1 b2 b3 b4) mod p25519 =
     pv radix (a0 * b0 + a4 * (b1 * 19) + a3 * (b2 * 19) + a2 * (b3 * 19) + a1 * (b4 * 19))
       (a1 * b0 + a0 * b1 + a4 * (b2 * 19) + a3 * (b3 * 19) + a2 * (b4 * 19))
       (a2 * b0 + a1 * b1 + a0 * b2 + a4 * (b3 * 19) + a3 * (b4 * 19))
       (a3 * b0 + a2 * b1 + a1 * b2 + a0 * b3 + a4 * (b4 * 19))
       (a4 * b0 + a3 * b1 + a2 * b2 + a1 * b3 + a0 * b4) mod p25519"
  unfolding pv_mult p25519_radix by (rule mod_mult_self2)

lemma uint_column:
  fixes x1 x2 x3 x4 x5 :: u128
  assumes "uint x1 \<le> 19 * 2 ^ 108" "uint x2 \<le> 19 * 2 ^ 108" "uint x3 \<le> 19 * 2 ^ 108"
    "uint x4 \<le> 19 * 2 ^ 108" "uint x5 \<le> 19 * 2 ^ 108"
  shows "uint (x1 + x2 + x3 + x4 + x5) = uint x1 + uint x2 + uint x3 + uint x4 + uint x5"
    and "uint (x1 + x2 + x3 + x4 + x5) < 2 ^ 115"
  using uint_sum5 [OF assms] assms by simp_all

lemma uint_times19: "uint y < 2 ^ 54 \<Longrightarrow> uint (y * 19 :: u64) = uint y * 19"
  by (subst uint_mul64) simp_all

lemma limb_prod: "uint x < 2 ^ 54 \<Longrightarrow> uint y < 2 ^ 54 \<Longrightarrow> uint (x :: u64) * uint (y :: u64) < 2 ^ 108"
  using mult_strict_mono' [of "uint x" "2 ^ 54" "uint y" "2 ^ 54"] by simp

lemma wide_mul_small:
  assumes "uint x < 2 ^ 54" "uint y < 2 ^ 54"
  shows "uint (wide_mul x (y * 19)) \<le> 19 * 2 ^ 108" "uint (wide_mul x y) \<le> 19 * 2 ^ 108"
  using limb_prod [OF assms] uint_times19 [OF assms(2)] by (simp_all add: uint_wide_mul)

lemma mul_val:
  assumes "below (2 ^ 54) a" "below (2 ^ 54) b"
  shows "fv (fe_mul a b) = (fv a * fv b) mod p25519" "below (2 ^ 51 + 2 ^ 13) (fe_mul a b)"
proof -
  obtain a0 a1 a2 a3 a4 where a: "a = Fe a0 a1 a2 a3 a4" by (cases a)
  obtain b0 b1 b2 b3 b4 where b: "b = Fe b0 b1 b2 b3 b4" by (cases b)
  note lim = assms [unfolded a b below_def fe.case]
  let ?m = wide_mul
  define c0 where "c0 = ?m a0 b0 + ?m a4 (b1 * 19) + ?m a3 (b2 * 19) + ?m a2 (b3 * 19) + ?m a1 (b4 * 19)"
  define c1 where "c1 = ?m a1 b0 + ?m a0 b1 + ?m a4 (b2 * 19) + ?m a3 (b3 * 19) + ?m a2 (b4 * 19)"
  define c2 where "c2 = ?m a2 b0 + ?m a1 b1 + ?m a0 b2 + ?m a4 (b3 * 19) + ?m a3 (b4 * 19)"
  define c3 where "c3 = ?m a3 b0 + ?m a2 b1 + ?m a1 b2 + ?m a0 b3 + ?m a4 (b4 * 19)"
  define c4 where "c4 = ?m a4 b0 + ?m a3 b1 + ?m a2 b2 + ?m a1 b3 + ?m a0 b4"
  have C0: "uint c0 = uint a0 * uint b0 + uint a4 * (uint b1 * 19) + uint a3 * (uint b2 * 19)
      + uint a2 * (uint b3 * 19) + uint a1 * (uint b4 * 19)"
    unfolding c0_def using lim by (subst uint_column) ((rule wide_mul_small; simp)+, simp add: uint_wide_mul uint_times19)
  have C1: "uint c1 = uint a1 * uint b0 + uint a0 * uint b1 + uint a4 * (uint b2 * 19)
      + uint a3 * (uint b3 * 19) + uint a2 * (uint b4 * 19)"
    unfolding c1_def using lim by (subst uint_column) ((rule wide_mul_small; simp)+, simp add: uint_wide_mul uint_times19)
  have C2: "uint c2 = uint a2 * uint b0 + uint a1 * uint b1 + uint a0 * uint b2
      + uint a4 * (uint b3 * 19) + uint a3 * (uint b4 * 19)"
    unfolding c2_def using lim by (subst uint_column) ((rule wide_mul_small; simp)+, simp add: uint_wide_mul uint_times19)
  have C3: "uint c3 = uint a3 * uint b0 + uint a2 * uint b1 + uint a1 * uint b2
      + uint a0 * uint b3 + uint a4 * (uint b4 * 19)"
    unfolding c3_def using lim by (subst uint_column) ((rule wide_mul_small; simp)+, simp add: uint_wide_mul uint_times19)
  have C4: "uint c4 = uint a4 * uint b0 + uint a3 * uint b1 + uint a2 * uint b2
      + uint a1 * uint b3 + uint a0 * uint b4"
    unfolding c4_def using lim by (subst uint_column) ((rule wide_mul_small; simp)+, simp add: uint_wide_mul uint_times19)
  have lt: "uint c0 < 2 ^ 115" "uint c1 < 2 ^ 115" "uint c2 < 2 ^ 115" "uint c3 < 2 ^ 115"
    unfolding c0_def c1_def c2_def c3_def using lim by (intro uint_column wide_mul_small; simp)+
  have lt4: "uint c4 < 5 * 2 ^ 108"
    using lim limb_prod [of a4 b0] limb_prod [of a3 b1] limb_prod [of a2 b2] limb_prod [of a1 b3] limb_prod [of a0 b4]
    unfolding C4 by simp
  have mul: "fe_mul a b = carry_chain c0 c1 c2 c3 c4"
    by (simp add: fe_mul_def a b Let_def c0_def c1_def c2_def c3_def c4_def)
  show "below (2 ^ 51 + 2 ^ 13) (fe_mul a b)"
    unfolding mul by (rule carry_chain_val(2) [OF lt lt4])
  show "fv (fe_mul a b) = (fv a * fv b) mod p25519"
    unfolding mul carry_chain_val(1) [OF lt lt4] C0 C1 C2 C3 C4 pv_mult_mod [symmetric]
    unfolding fv_def a b fe_val_pv by (simp only: mod_mult_eq)
qed

section \<open>Powers\<close>

text \<open>\<open>is_pow x n f\<close>: the weakly reduced element \<open>f\<close> represents \<open>x ^ n\<close>.\<close>

definition is_pow :: "int \<Rightarrow> nat \<Rightarrow> fe \<Rightarrow> bool" where
  "is_pow x n f \<longleftrightarrow> fv f = x ^ n mod p25519 \<and> below (2 ^ 54) f"

lemma is_pow_mul: "is_pow x m f \<Longrightarrow> is_pow x n g \<Longrightarrow> is_pow x (m + n) (fe_mul f g)"
  using mul_val [of f g] below_mono [of "2 ^ 51 + 2 ^ 13" "fe_mul f g" "2 ^ 54"]
  by (auto simp: is_pow_def power_add mod_mult_eq)

lemma is_pow_square: "is_pow x n f \<Longrightarrow> is_pow x (2 * n) (fe_square f)"
  using is_pow_mul [of x n f n f] by (simp add: fe_square_def mult_2)

lemma is_pow_pow2k: "is_pow x n f \<Longrightarrow> is_pow x (2 ^ k * n) (pow2k f k)"
proof (induction k)
  case (Suc k)
  then show ?case using is_pow_square [of x "2 ^ k * n" "pow2k f k"] by (simp add: pow2k_def mult.assoc)
qed (simp add: pow2k_def)

lemma is_pow_cong: "is_pow x m f \<Longrightarrow> m = n \<Longrightarrow> is_pow x n f" by simp

lemma pow22501_pow:
  assumes "is_pow x 1 a"
  shows "is_pow x (2 ^ 250 - 1) (fst (pow22501 a))" "is_pow x 11 (snd (pow22501 a))"
proof -
  define t0 where "t0 = fe_square a"
  define t2 where "t2 = fe_mul a (fe_square (fe_square t0))"
  define t3 where "t3 = fe_mul t0 t2"
  define t5 where "t5 = fe_mul t2 (fe_square t3)"
  define t7 where "t7 = fe_mul (pow2k t5 5) t5"
  define t9 where "t9 = fe_mul (pow2k t7 10) t7"
  define t11 where "t11 = fe_mul (pow2k t9 20) t9"
  define t13 where "t13 = fe_mul (pow2k t11 10) t7"
  define t15 where "t15 = fe_mul (pow2k t13 50) t13"
  define t17 where "t17 = fe_mul (pow2k t15 100) t15"
  have t0: "is_pow x 2 t0" using is_pow_square [OF assms] by (simp add: t0_def)
  have t2: "is_pow x 9 t2"
    using is_pow_mul [OF assms is_pow_square [OF is_pow_square [OF t0]]] by (simp add: t2_def)
  have t3: "is_pow x 11 t3" using is_pow_mul [OF t0 t2] by (simp add: t3_def)
  have t5: "is_pow x (2 ^ 5 - 1) t5" using is_pow_mul [OF t2 is_pow_square [OF t3]] by (simp add: t5_def)
  have t7: "is_pow x (2 ^ 10 - 1) t7"
    using is_pow_mul [OF is_pow_pow2k [OF t5, of 5] t5] by (simp add: t7_def)
  have t9: "is_pow x (2 ^ 20 - 1) t9"
    using is_pow_mul [OF is_pow_pow2k [OF t7, of 10] t7] by (simp add: t9_def)
  have t11: "is_pow x (2 ^ 40 - 1) t11"
    using is_pow_mul [OF is_pow_pow2k [OF t9, of 20] t9] by (simp add: t11_def)
  have t13: "is_pow x (2 ^ 50 - 1) t13"
    using is_pow_mul [OF is_pow_pow2k [OF t11, of 10] t7] by (simp add: t13_def)
  have t15: "is_pow x (2 ^ 100 - 1) t15"
    using is_pow_mul [OF is_pow_pow2k [OF t13, of 50] t13] by (simp add: t15_def)
  have t17: "is_pow x (2 ^ 200 - 1) t17"
    using is_pow_mul [OF is_pow_pow2k [OF t15, of 100] t15] by (simp add: t17_def)
  have t19: "is_pow x (2 ^ 250 - 1) (fe_mul (pow2k t17 50) t13)"
    using is_pow_mul [OF is_pow_pow2k [OF t17, of 50] t13] by simp
  have "pow22501 a = (fe_mul (pow2k t17 50) t13, t3)"
    by (simp add: pow22501_def Let_def t0_def t2_def t3_def t5_def t7_def t9_def t11_def t13_def t15_def t17_def)
  with t3 t19 show "is_pow x (2 ^ 250 - 1) (fst (pow22501 a))" "is_pow x 11 (snd (pow22501 a))"
    by simp_all
qed

lemma invert_pow: "is_pow x 1 a \<Longrightarrow> is_pow x (2 ^ 255 - 21) (invert a)"
  using is_pow_mul [OF is_pow_pow2k [OF pow22501_pow(1), of x a 5] pow22501_pow(2), of a]
  by (simp add: invert_def split_beta Let_def)

lemma pow_p58_pow: "is_pow x 1 a \<Longrightarrow> is_pow x (2 ^ 252 - 3) (pow_p58 a)"
  using is_pow_mul [OF _ is_pow_pow2k [OF pow22501_pow(1), of x a 2], of 1 a]
  by (simp add: pow_p58_def split_beta Let_def)

section \<open>Bytes\<close>

text \<open>The little-endian value of a byte string, and the bytes of a number.\<close>

definition le_value :: "bytes \<Rightarrow> int" where
  "le_value bs = foldr (\<lambda>b v. uint b + 256 * v) bs 0"

primrec bytes_of :: "nat \<Rightarrow> int \<Rightarrow> bytes" where
  "bytes_of 0 v = []"
| "bytes_of (Suc n) v = word_of_int v # bytes_of n (drop_bit 8 v)"

lemma le_value_simps [simp]: "le_value [] = 0" "le_value (b # bs) = uint b + 256 * le_value bs"
  by (simp_all add: le_value_def)

lemma le_value_range: "0 \<le> le_value bs \<and> le_value bs < 256 ^ length bs"
proof (induction bs)
  case (Cons b bs)
  have "0 \<le> uint b" "uint b < 256" using uint_lt2p [of b] by simp_all
  with Cons show ?case by simp
qed simp

lemma take_bit_concat: "take_bit m v + 2 ^ m * take_bit n (drop_bit m v) = (take_bit (m + n) v :: int)"
  unfolding take_bit_eq_mod drop_bit_eq_div power_add by (subst zmod_zmult2_eq) simp_all

lemma le_value_bytes_of: "le_value (bytes_of n v) = take_bit (8 * n) v"
proof (induction n arbitrary: v)
  case (Suc n)
  have "take_bit (8 + 8 * n) v = take_bit 8 v + 256 * take_bit (8 * n) (drop_bit 8 v)"
    using take_bit_concat [of 8 v "8 * n"] by simp
  with Suc show ?case by (simp add: uint_word_of_int_eq)
qed simp

lemma bit_concat:
  fixes a b :: int
  assumes "0 \<le> a" "a < 2 ^ n"
  shows "bit (a + 2 ^ n * b) m \<longleftrightarrow> (if m < n then bit a m else bit b (m - n))"
proof -
  have hi: "\<not> bit a k" if "n \<le> k" for k
  proof -
    have "take_bit n a = a" using assms by (simp add: take_bit_int_eq_self)
    then show ?thesis using that by (metis bit_take_bit_iff not_le)
  qed
  have "a AND push_bit n b = 0" by (rule bit_eqI) (auto simp: bit_simps hi)
  then have "a + 2 ^ n * b = a OR push_bit n b"
    by (simp add: disjunctive_add_eq_or push_bit_eq_mult mult.commute)
  then show ?thesis by (auto simp: bit_simps hi)
qed


lemma fe_val_horner:
  "fe_val (Fe l0 l1 l2 l3 l4) = uint l0 + 2 ^ 51 * (uint l1 + 2 ^ 51 * (uint l2 + 2 ^ 51 * (uint l3 + 2 ^ 51 * uint l4)))"
  by (simp add: fe_val_def)

lemma bit_fe_val:
  assumes "below (2 ^ 51) (Fe l0 l1 l2 l3 l4)"
  shows "bit (fe_val (Fe l0 l1 l2 l3 l4)) m \<longleftrightarrow>
    (if m < 51 then bit l0 m else if m < 102 then bit l1 (m - 51) else if m < 153 then bit l2 (m - 102)
     else if m < 204 then bit l3 (m - 153) else bit l4 (m - 204))"
proof -
  have b: "bit (uint (l :: u64) + 2 ^ 51 * v) k \<longleftrightarrow> (if k < 51 then bit l k else bit v (k - 51))"
    if "uint l < 2 ^ 51" for l v k
    using that by (subst bit_concat) (auto simp: bit_uint_iff dest: bit_imp_le_length)
  have lim: "uint l0 < 2 ^ 51" "uint l1 < 2 ^ 51" "uint l2 < 2 ^ 51" "uint l3 < 2 ^ 51"
    using assms by (simp_all add: below_def)
  have "bit (uint l4) k \<longleftrightarrow> bit l4 k" for k by (auto simp: bit_uint_iff dest: bit_imp_le_length)
  note b4 = this
  have steps: "m - 51 < 51 \<longleftrightarrow> m < 102" "m - 102 < 51 \<longleftrightarrow> m < 153" "m - 153 < 51 \<longleftrightarrow> m < 204"
    by linarith+
  show ?thesis
    unfolding fe_val_horner b [OF lim(1)] b [OF lim(2)] b [OF lim(3)] b [OF lim(4)] b4
    by (simp add: steps)
qed

lemma limb_bits:
  assumes "uint (l :: u64) < 2 ^ 51" "51 \<le> k"
  shows "\<not> bit l k"
proof -
  have "take_bit 51 (uint l) = uint l" using assms(1) by (simp add: take_bit_int_eq_self)
  then have "\<not> bit (uint l) k" using assms(2) by (metis bit_take_bit_iff not_le)
  then show ?thesis by (auto simp: bit_uint_iff dest: bit_imp_le_length)
qed

lemma byte_eqI:
  assumes "\<And>n. n < 8 \<Longrightarrow> bit (x :: u64) n = bit v (k + n)"
  shows "(ucast x :: u8) = word_of_int (drop_bit k v)"
  by (rule bit_word_eqI) (use assms in \<open>auto simp: bit_simps\<close>)

lemma drop_bit_8: "drop_bit 8 (drop_bit k (v :: int)) = drop_bit (8 + k) v"
  by simp

lemma bytes_of_map: "bytes_of n v = map (\<lambda>i. word_of_int (drop_bit (8 * i) v)) [0..<n]"
proof (induction n arbitrary: v)
  case (Suc n)
  have "[0..<Suc n] = 0 # map Suc [0..<n]" by (simp only: map_Suc_upt upt_conv_Cons zero_less_Suc)
  with Suc show ?case by (simp add: comp_def add.commute)
qed simp

lemma upt_32: "[0..<32] = [0, 1, 2, 3, 4, 5, 6, 7, 8, 9, 10, 11, 12, 13, 14, 15, 16, 17, 18, 19, 20,
    21, 22, 23, 24, 25, 26, 27, 28, 29, 30, 31]"
  by (simp add: upt_rec)

lemma pack_bytes:
  assumes "below (2 ^ 51) f"
  shows "pack f = bytes_of 32 (fe_val f)"
proof -
  obtain l0 l1 l2 l3 l4 where f: "f = Fe l0 l1 l2 l3 l4" by (cases f)
  define v where "v = fe_val (Fe l0 l1 l2 l3 l4)"
  note bv = bit_fe_val [OF assms [unfolded f], folded v_def]
  have lim: "uint l0 < 2 ^ 51" "uint l1 < 2 ^ 51" "uint l2 < 2 ^ 51" "uint l3 < 2 ^ 51" "uint l4 < 2 ^ 51"
    using assms by (simp_all add: f below_def)
  note nb = limb_bits [OF lim(1)] limb_bits [OF lim(2)] limb_bits [OF lim(3)] limb_bits [OF lim(4)] limb_bits [OF lim(5)]
  have b: "(ucast x :: u8) = word_of_int (drop_bit (8 * i) v)"
    if "\<And>n. n < 8 \<Longrightarrow> bit x n = bit v (8 * i + n)" for x :: u64 and i
    using that by (rule byte_eqI)
  show ?thesis
    unfolding f v_def [symmetric] bytes_of_map upt_32 list.map pack_def fe.case list.inject
    by (intro conjI refl; rule b; unfold bv bit_or_iff bit_push_bit_iff bit_drop_bit_eq; simp add: bit_simps nb)
qed


section \<open>Canonical form\<close>

text \<open>Carrying through five digits, as an integer computation.\<close>

lemma div_chain:
  fixes X :: int
  assumes "0 < X"
  shows "(l4 + (l3 + (l2 + (l1 + l0 div X) div X) div X) div X) div X = pv X l0 l1 l2 l3 l4 div X ^ 5"
proof -
  have step: "(b + a div Y) div X = (a + Y * b) div (Y * X)" if "0 < Y" for a b Y
    using assms that by (simp add: zdiv_zmult2_eq div_mult_self2 add.commute)
  have step: "(b + a div X ^ n) div X = (a + X ^ n * b) div X ^ Suc n" for a b n
    using step [of "X ^ n" b a] assms by (simp add: mult.commute)
  have "(l1 + l0 div X ^ 1) div X = (l0 + X ^ 1 * l1) div X ^ 2" by (simp only: step Suc_1)
  moreover have "(l2 + (l0 + X ^ 1 * l1) div X ^ 2) div X = (l0 + X ^ 1 * l1 + X ^ 2 * l2) div X ^ 3"
    unfolding step by simp
  moreover have "(l3 + (l0 + X ^ 1 * l1 + X ^ 2 * l2) div X ^ 3) div X
      = (l0 + X ^ 1 * l1 + X ^ 2 * l2 + X ^ 3 * l3) div X ^ 4"
    unfolding step by simp
  moreover have "(l4 + (l0 + X ^ 1 * l1 + X ^ 2 * l2 + X ^ 3 * l3) div X ^ 4) div X
      = (l0 + X ^ 1 * l1 + X ^ 2 * l2 + X ^ 3 * l3 + X ^ 4 * l4) div X ^ 5"
    unfolding step by simp
  ultimately show ?thesis by (simp add: pv_def)
qed

lemma pv_mods:
  fixes X :: int
  assumes X: "0 < X" and "m1 = l1 + m0 div X" "m2 = l2 + m1 div X" "m3 = l3 + m2 div X" "m4 = l4 + m3 div X"
  shows "pv X (m0 mod X) (m1 mod X) (m2 mod X) (m3 mod X) (m4 mod X) = pv X m0 l1 l2 l3 l4 mod X ^ 5"
proof -
  have r: "a mod X = a - X * (a div X)" for a by (simp add: minus_mult_div_eq_mod)
  have eq: "pv X m0 l1 l2 l3 l4 = pv X (m0 mod X) (m1 mod X) (m2 mod X) (m3 mod X) (m4 mod X) + X ^ 5 * (m4 div X)"
    unfolding pv_def r using assms(2-5) by algebra
  have b: "0 \<le> a mod X" "a mod X \<le> X - 1" for a using X by simp_all
  have "X * (m1 mod X) \<le> X * (X - 1)" "X ^ 2 * (m2 mod X) \<le> X ^ 2 * (X - 1)"
    "X ^ 3 * (m3 mod X) \<le> X ^ 3 * (X - 1)" "X ^ 4 * (m4 mod X) \<le> X ^ 4 * (X - 1)"
    using X b by (intro mult_left_mono; simp)+
  then have "pv X (m0 mod X) (m1 mod X) (m2 mod X) (m3 mod X) (m4 mod X)
      \<le> (X - 1) + X * (X - 1) + X ^ 2 * (X - 1) + X ^ 3 * (X - 1) + X ^ 4 * (X - 1)"
    using b(2) [of m0] by (simp only: pv_def)
  also have "\<dots> = X ^ 5 - 1" by algebra
  finally have "pv X (m0 mod X) (m1 mod X) (m2 mod X) (m3 mod X) (m4 mod X) < X ^ 5" by simp
  moreover have "0 \<le> pv X (m0 mod X) (m1 mod X) (m2 mod X) (m3 mod X) (m4 mod X)"
    using X by (simp add: pv_def)
  ultimately show ?thesis unfolding eq by (simp add: mod_pos_pos_trivial)
qed


lemma mod_once: "(l :: int) \<le> k \<Longrightarrow> k < 2 * l \<Longrightarrow> k mod l = k - l"
proof -
  assume "l \<le> k" "k < 2 * l"
  then have "(k - l) mod l = k - l" by (intro mod_pos_pos_trivial) simp_all
  then show ?thesis by simp
qed

text \<open>A reduced limb has room for a carry, and what is shifted out of the sum is again a carry.\<close>

lemma limb_add:
  fixes l m :: u64
  assumes "uint l < 2 ^ 51 + 2 ^ 18" "uint m < 2 ^ 20"
  shows "uint (l + m) = uint l + uint m" "uint (l + m) < 2 ^ 52"
proof -
  have "uint l + uint m < 2 ^ 52" using assms by simp
  then show "uint (l + m) = uint l + uint m" by (intro uint_add64) simp
  with \<open>uint l + uint m < 2 ^ 52\<close> show "uint (l + m) < 2 ^ 52" by simp
qed

lemma limb_carry:
  fixes l m :: u64
  assumes "uint l < 2 ^ 51 + 2 ^ 18" "uint m < 2 ^ 20"
  shows "uint (drop_bit 51 (l + m)) = (uint l + uint m) div radix"
    and "uint (drop_bit 51 (l + m)) < 2 ^ 15" "uint (drop_bit 51 (l + m)) < 2 ^ 20"
  using limb_add [OF assms] by (simp_all add: uint_shift51)

text \<open>The quotient estimate: adding 19 carries out of \<open>2\<^sup>2\<^sup>5\<^sup>5\<close> exactly when the value has reached \<open>p\<close>.\<close>

definition quotient_word :: "fe \<Rightarrow> u64" where
  "quotient_word f = (case f of Fe l0 l1 l2 l3 l4 \<Rightarrow>
     drop_bit 51 (l4 + drop_bit 51 (l3 + drop_bit 51 (l2 + drop_bit 51 (l1 + drop_bit 51 (l0 + 19))))))"

lemma quotient_word_val:
  assumes "below (2 ^ 51 + 2 ^ 18) f"
  shows "uint (quotient_word f) = (fe_val f + 19) div radix ^ 5" "uint (quotient_word f) < 2 ^ 15"
proof -
  obtain l0 l1 l2 l3 l4 where f: "f = Fe l0 l1 l2 l3 l4" by (cases f)
  have lim: "uint l0 < 2 ^ 51 + 2 ^ 18" "uint l1 < 2 ^ 51 + 2 ^ 18" "uint l2 < 2 ^ 51 + 2 ^ 18"
      "uint l3 < 2 ^ 51 + 2 ^ 18" "uint l4 < 2 ^ 51 + 2 ^ 18"
    using assms by (simp_all only: f below_def fe.case)
  have 19: "uint (19 :: u64) = 19" "uint (19 :: u64) < 2 ^ 20" by simp_all
  note c1 = limb_carry [OF lim(1) 19(2)]
  note c2 = limb_carry [OF lim(2) c1(3)]
  note c3 = limb_carry [OF lim(3) c2(3)]
  note c4 = limb_carry [OF lim(4) c3(3)]
  note c5 = limb_carry [OF lim(5) c4(3)]
  have "pv radix (uint l0 + 19) (uint l1) (uint l2) (uint l3) (uint l4) = fe_val f + 19"
    by (simp add: f fe_val_pv pv_def)
  moreover have "(0 :: int) < radix" by simp
  ultimately show "uint (quotient_word f) = (fe_val f + 19) div radix ^ 5"
    unfolding f quotient_word_def fe.case c5(1) c4(1) c3(1) c2(1) c1(1) 19(1) by (simp only: div_chain)
  show "uint (quotient_word f) < 2 ^ 15" unfolding f quotient_word_def fe.case by (rule c5(2))
qed

text \<open>Propagating the carries of \<open>l0 + 19 * q\<close> and masking keeps the value modulo \<open>2\<^sup>2\<^sup>5\<^sup>5\<close>.\<close>

definition propagate :: "u64 \<Rightarrow> fe \<Rightarrow> fe" where
  "propagate q f = (case f of Fe l0 l1 l2 l3 l4 \<Rightarrow>
     let m0 = l0 + 19 * q; m1 = l1 + drop_bit 51 m0; m2 = l2 + drop_bit 51 m1;
         m3 = l3 + drop_bit 51 m2; m4 = l4 + drop_bit 51 m3
     in Fe (m0 AND LOW_51_BIT_MASK) (m1 AND LOW_51_BIT_MASK) (m2 AND LOW_51_BIT_MASK)
          (m3 AND LOW_51_BIT_MASK) (m4 AND LOW_51_BIT_MASK))"

lemma propagate_val:
  assumes "below (2 ^ 51 + 2 ^ 18) f" "uint q < 2 ^ 15"
  shows "fe_val (propagate q f) = (fe_val f + 19 * uint q) mod radix ^ 5" "below (2 ^ 51) (propagate q f)"
proof -
  obtain l0 l1 l2 l3 l4 where f: "f = Fe l0 l1 l2 l3 l4" by (cases f)
  have lim: "uint l0 < 2 ^ 51 + 2 ^ 18" "uint l1 < 2 ^ 51 + 2 ^ 18" "uint l2 < 2 ^ 51 + 2 ^ 18"
      "uint l3 < 2 ^ 51 + 2 ^ 18" "uint l4 < 2 ^ 51 + 2 ^ 18"
    using assms(1) by (simp_all only: f below_def fe.case)
  have q: "uint (19 * q) = 19 * uint q" "uint (19 * q) < 2 ^ 20"
    using assms(2) by (subst uint_mul64; simp)+
  define m0 where "m0 = l0 + 19 * q"
  define m1 where "m1 = l1 + drop_bit 51 m0"
  define m2 where "m2 = l2 + drop_bit 51 m1"
  define m3 where "m3 = l3 + drop_bit 51 m2"
  define m4 where "m4 = l4 + drop_bit 51 m3"
  have n0: "uint m0 = uint l0 + 19 * uint q" unfolding m0_def limb_add(1) [OF lim(1) q(2)] q(1) ..
  note c0 = limb_carry(3) [OF lim(1) q(2), folded m0_def]
  note c1 = limb_carry(3) [OF lim(2) c0, folded m1_def]
  note c2 = limb_carry(3) [OF lim(3) c1, folded m2_def]
  note c3 = limb_carry(3) [OF lim(4) c2, folded m3_def]
  note n = limb_add(1) [OF lim(2) c0, folded m1_def] limb_add(1) [OF lim(3) c1, folded m2_def]
    limb_add(1) [OF lim(4) c2, folded m3_def] limb_add(1) [OF lim(5) c3, folded m4_def]
  have p: "propagate q f = Fe (m0 AND LOW_51_BIT_MASK) (m1 AND LOW_51_BIT_MASK) (m2 AND LOW_51_BIT_MASK)
      (m3 AND LOW_51_BIT_MASK) (m4 AND LOW_51_BIT_MASK)"
    by (simp add: propagate_def f Let_def m0_def m1_def m2_def m3_def m4_def)
  show "below (2 ^ 51) (propagate q f)" unfolding p below_def fe.case uint_mask51 by simp
  have "fe_val (propagate q f) = pv radix (uint m0) (uint l1) (uint l2) (uint l3) (uint l4) mod radix ^ 5"
    unfolding p fe_val_pv uint_mask51 by (rule pv_mods) (simp_all only: n uint_shift51, simp)
  also have "pv radix (uint m0) (uint l1) (uint l2) (uint l3) (uint l4) = fe_val f + 19 * uint q"
    by (simp add: f fe_val_pv pv_def n0)
  finally show "fe_val (propagate q f) = (fe_val f + 19 * uint q) mod radix ^ 5" .
qed

text \<open>Below \<open>2 p\<close>, subtracting the estimated multiple of \<open>p\<close> is the remainder.\<close>

lemma quotient_remainder:
  assumes "0 \<le> v" "v < 2 * p25519"
  shows "(v + 19 * ((v + 19) div radix ^ 5)) mod radix ^ 5 = v mod p25519"
proof (cases "v < p25519")
  case True
  then have "(v + 19) div radix ^ 5 = 0" using assms by (simp add: p25519_def)
  with True assms show ?thesis by (simp add: p25519_def)
next
  case False
  then have q1: "(v + 19) div radix ^ 5 = 1" using assms by (simp add: p25519_def div_pos_geq)
  have "v mod p25519 = v - p25519" using False assms by (intro mod_once) simp_all
  moreover have "(v + 19) mod radix ^ 5 = v + 19 - radix ^ 5"
    using False assms by (intro mod_once) (simp_all add: p25519_def)
  ultimately show ?thesis unfolding q1 by (simp add: p25519_def)
qed

lemma canonical_propagate: "canonical f = propagate (quotient_word (reduce f)) (reduce f)"
  by (cases "reduce f") (simp add: canonical_def propagate_def quotient_word_def Let_def)

lemma canonical_val: "fe_val (canonical f) = fv f" "below (2 ^ 51) (canonical f)"
proof -
  note red = reduce_val(2) [of f]
  note q = quotient_word_val [OF red]
  show "below (2 ^ 51) (canonical f)"
    unfolding canonical_propagate by (rule propagate_val(2) [OF red q(2)])
  have "0 \<le> fe_val (reduce f)" "fe_val (reduce f) < 2 * p25519"
    using red by (cases "reduce f"; simp add: fe_val_def below_def p25519_def)+
  then have "fe_val (canonical f) = fv (reduce f)"
    unfolding canonical_propagate propagate_val(1) [OF red q(2)] q(1) fv_def by (rule quotient_remainder)
  then show "fe_val (canonical f) = fv f" by (simp only: reduce_val(1))
qed


lemma fv_range: "0 \<le> fv f" "fv f < 2 ^ 255"
proof -
  have p: "(0 :: int) < p25519" "p25519 < 2 ^ 255" by (simp_all add: p25519_def)
  show "0 \<le> fv f" unfolding fv_def using p(1) by (rule pos_mod_sign)
  have "fv f < p25519" unfolding fv_def using p(1) by (rule pos_mod_bound)
  with p(2) show "fv f < 2 ^ 255" by simp
qed

lemma to_bytes_val: "fe_to_bytes f = bytes_of 32 (fv f)"
  unfolding fe_to_bytes_def by (simp add: pack_bytes [OF canonical_val(2)] canonical_val(1))

lemma bytes_of_inj: "0 \<le> v \<Longrightarrow> v < 2 ^ 255 \<Longrightarrow> le_value (bytes_of 32 v) = v"
  by (simp add: le_value_bytes_of take_bit_int_eq_self)

lemma ct_eq_val: "ct_eq a b \<longleftrightarrow> fv a = fv b"
  unfolding ct_eq_def to_bytes_val by (metis bytes_of_inj fv_range)

text \<open>Loading bytes.\<close>

lemma from_le_val: "length bs \<le> 8 \<Longrightarrow> uint (from_le bs) = le_value bs"
proof (induction bs)
  case (Cons b bs)
  let ?v = "from_le bs"
  have IH: "uint ?v = le_value bs" using Cons by simp
  have "le_value bs < 256 ^ 7"
    using le_value_range [of bs] Cons.prems power_increasing [of "length bs" 7 "256 :: int"] by fastforce
  then have v: "uint ?v < 256 ^ 7" by (simp only: IH)
  have "push_bit 8 ?v AND ucast b = 0"
    by (rule bit_word_eqI) (auto simp: bit_simps dest: bit_imp_le_length)
  then have "push_bit 8 ?v OR ucast b = ?v * 256 + ucast b"
    by (simp add: disjunctive_add_eq_or push_bit_eq_mult)
  moreover have "uint (?v * 256) = uint ?v * 256" using v by (subst uint_mul64) simp_all
  moreover have b: "uint b < 256" using uint_lt2p [of b] by simp
  moreover have "uint (ucast b :: u64) = uint b"
    using b by (simp add: unsigned_ucast_eq) (rule take_bit_int_eq_self, simp_all)
  ultimately have "uint (push_bit 8 ?v OR ucast b) = uint ?v * 256 + uint b"
    using v by (simp add: uint_add64)
  then show ?case using IH by (simp add: from_le_def)
qed (simp add: from_le_def)

lemma le_value_drop: "le_value (drop i bs) = drop_bit (8 * i) (le_value bs)"
proof (induction i arbitrary: bs)
  case (Suc i)
  show ?case
  proof (cases bs)
    case (Cons b cs)
    have "uint b < 256" using uint_lt2p [of b] by simp
    then have "drop_bit 8 (uint b + 256 * le_value cs) = le_value cs"
      by (simp add: drop_bit_eq_div)
    then have "drop_bit (8 * Suc i) (le_value bs) = drop_bit (8 * i) (le_value cs)"
      using drop_bit_drop_bit [of "8 * i" 8 "le_value bs"] by (simp add: Cons add.commute)
    with Suc Cons show ?thesis by simp
  qed simp
qed simp

lemma le_value_take: "le_value (take n bs) = take_bit (8 * n) (le_value bs)"
proof (induction n arbitrary: bs)
  case (Suc n)
  show ?case
  proof (cases bs)
    case (Cons b cs)
    have b: "0 \<le> uint b" "uint b < 256" using uint_lt2p [of b] by simp_all
    have "drop_bit 8 (uint b + 256 * le_value cs) = le_value cs" using b by (simp add: drop_bit_eq_div)
    moreover have "take_bit 8 (uint b + 256 * le_value cs) = uint b" using b by (simp add: take_bit_eq_mod)
    ultimately have "take_bit (8 + 8 * n) (le_value bs) = uint b + 256 * take_bit (8 * n) (le_value cs)"
      using take_bit_concat [of 8 "le_value bs" "8 * n"] by (simp add: Cons)
    with Suc Cons show ?thesis by simp
  qed simp
qed simp

lemma from_bytes_val:
  assumes "length bs = 32"
  shows "fe_val (fe_from_bytes bs) = take_bit 255 (le_value bs)" "below (2 ^ 51) (fe_from_bytes bs)"
proof -
  let ?N = "le_value bs"
  have load: "uint (load8 bs i) = take_bit 64 (drop_bit (8 * i) ?N)" for i
    by (simp add: load8_def from_le_val le_value_take le_value_drop)
  have limb: "uint (drop_bit k (load8 bs i) AND LOW_51_BIT_MASK) = take_bit 51 (drop_bit (8 * i + k) ?N)"
    if "k + 51 \<le> 64" for i k
  proof -
    have "uint (drop_bit k (load8 bs i)) = drop_bit k (take_bit 64 (drop_bit (8 * i) ?N))"
      by (simp add: unsigned_drop_bit_eq load)
    then have "uint (drop_bit k (load8 bs i) AND LOW_51_BIT_MASK)
        = take_bit 51 (drop_bit k (take_bit 64 (drop_bit (8 * i) ?N)))"
      by (simp only: uint_mask51 take_bit_eq_mod)
    also have "\<dots> = take_bit 51 (drop_bit (8 * i + k) ?N)"
      using that by (intro bit_eqI) (auto simp: bit_simps ac_simps)
    finally show ?thesis .
  qed
  have limb0: "uint (load8 bs 0 AND LOW_51_BIT_MASK) = take_bit 51 ?N"
    using limb [of 0 0] by simp
  have Fe: "fe_from_bytes bs = Fe (load8 bs 0 AND LOW_51_BIT_MASK) (drop_bit 3 (load8 bs 6) AND LOW_51_BIT_MASK)
     (drop_bit 6 (load8 bs 12) AND LOW_51_BIT_MASK) (drop_bit 1 (load8 bs 19) AND LOW_51_BIT_MASK)
     (drop_bit 12 (load8 bs 24) AND LOW_51_BIT_MASK)" by (simp only: fe_from_bytes_def)
  note limbs = limb0 limb [of 3 6, simplified] limb [of 6 12, simplified] limb [of 1 19, simplified] limb [of 12 24, simplified]
  show "below (2 ^ 51) (fe_from_bytes bs)"
    unfolding Fe below_def fe.case uint_mask51 by simp
  have c: "take_bit 51 (drop_bit k ?N) + 2 ^ 51 * take_bit n (drop_bit (k + 51) ?N) = take_bit (51 + n) (drop_bit k ?N)" for k n
    using take_bit_concat [of 51 "drop_bit k ?N" n] by (simp add: add.commute)
  show "fe_val (fe_from_bytes bs) = take_bit 255 ?N"
    unfolding Fe fe_val_horner
    using c [of 0 204] c [of 51 153] c [of 102 102] c [of 153 51] limbs by simp
qed


section \<open>The map as arithmetic modulo p\<close>

text \<open>
  The straight-line program of RFC 9380 over the integers modulo \<open>p\<close>: \<open>x1 = -J / d\<close> with
  \<open>d = 2 u\<^sup>2 + 1\<close>, the candidate square root \<open>y\<close> of \<open>g(x1) = gx1 / gxd\<close>, and the second candidate
  \<open>-J \<sqdot> 2 u\<^sup>2 / d\<close> when \<open>g(x1)\<close> has no root.
\<close>

definition i25519 :: int where
  "i25519 = fe_val sqrt_m1"

definition is_root :: "int \<Rightarrow> int \<Rightarrow> int \<Rightarrow> bool" where
  "is_root gxd gx1 y \<longleftrightarrow> (y ^ 2 * gxd) mod p25519 = gx1 mod p25519"

definition elligator2_x :: "int \<Rightarrow> int" where
  "elligator2_x u =
     (let J = 486662; t = 2 * u ^ 2; d = t + 1; gxd = d ^ 3; gx1 = (J * t * (- J) + d ^ 2) * (- J);
          w = gxd ^ 3 * gx1; y11 = (gxd ^ 7 * gx1) ^ (2 ^ 252 - 3) * w;
          y1 = (if is_root gxd gx1 y11 then y11 else y11 * i25519);
          xn = (if is_root gxd gx1 y1 then - J else (- J) * t)
      in (xn * d ^ (2 ^ 255 - 21)) mod p25519)"

definition rep :: "int \<Rightarrow> fe \<Rightarrow> int \<Rightarrow> bool" where
  "rep n f x \<longleftrightarrow> fv f = x mod p25519 \<and> below n f"

lemma rep_mul:
  assumes "rep n f x" "rep m g y" "n \<le> 2 ^ 54" "m \<le> 2 ^ 54"
  shows "rep (2 ^ 52) (fe_mul f g) (x * y)"
proof -
  have b: "below (2 ^ 54) f" "below (2 ^ 54) g" using assms below_mono by (auto simp: rep_def)
  have "below (2 ^ 52) (fe_mul f g)" by (rule below_mono [OF mul_val(2) [OF b]]) simp
  with mul_val(1) [OF b] assms(1,2) show ?thesis by (simp add: rep_def mod_mult_eq)
qed

lemma rep_square: "rep n f x \<Longrightarrow> n \<le> 2 ^ 54 \<Longrightarrow> rep (2 ^ 52) (fe_square f) (x ^ 2)"
  using rep_mul [of n f x n f x] by (simp add: fe_square_def power2_eq_square)

lemma rep_add:
  assumes "rep n f x" "rep m g y" "n + m \<le> 2 ^ 54"
  shows "rep (n + m) (fe_add f g) (x + y)"
  using add_val [of n f m g] assms by (simp add: rep_def mod_add_eq)

lemma rep_mono: "rep n f x \<Longrightarrow> n \<le> m \<Longrightarrow> rep m f x"
  using below_mono by (auto simp: rep_def)

lemma rep_pow:
  assumes "rep n f x" "n \<le> 2 ^ 54"
  shows "rep (2 ^ 54) (invert f) (x ^ (2 ^ 255 - 21))" "rep (2 ^ 54) (pow_p58 f) (x ^ (2 ^ 252 - 3))"
proof -
  have "is_pow x 1 f" using rep_mono [OF assms] unfolding rep_def is_pow_def by simp
  from invert_pow [OF this] pow_p58_pow [OF this]
  show "rep (2 ^ 54) (invert f) (x ^ (2 ^ 255 - 21))" "rep (2 ^ 54) (pow_p58 f) (x ^ (2 ^ 252 - 3))"
    unfolding rep_def is_pow_def by blast+
qed

lemma rep_ct_eq: "rep n f x \<Longrightarrow> rep m g y \<Longrightarrow> ct_eq f g \<longleftrightarrow> x mod p25519 = y mod p25519"
  by (simp add: ct_eq_val rep_def)

lemma rep_cmov: "rep n f x \<Longrightarrow> rep n g y \<Longrightarrow> rep n (cmov f g c) (if c then y else x)"
  by (simp add: cmov_def)

lemma rep_consts:
  "rep (2 ^ 52) (fe_from_u64 486662) 486662" "rep (2 ^ 52) fe_one 1" "rep (2 ^ 52) sqrt_m1 i25519"
  "rep (2 ^ 52) (fe_neg (fe_from_u64 486662)) (- 486662)"
proof -
  show j: "rep (2 ^ 52) (fe_from_u64 486662) 486662"
    by (simp add: rep_def fv_def fe_val_def below_def fe_from_u64_def)
  show "rep (2 ^ 52) fe_one 1" by (simp add: rep_def fv_def fe_val_def below_def fe_one_def)
  show "rep (2 ^ 52) sqrt_m1 i25519" by (simp add: rep_def fv_def i25519_def below_def sqrt_m1_def)
  have z: "below (2 ^ 54) fe_zero" "fv fe_zero = 0" by (simp_all add: below_def fe_zero_def fv_def fe_val_def)
  have J: "below (2 ^ 54) (fe_from_u64 486662)" "fv (fe_from_u64 486662) = 486662 mod p25519"
    using rep_mono [OF j, of "2 ^ 54"] unfolding rep_def by simp_all
  have "fv (fe_neg (fe_from_u64 486662)) = (- 486662) mod p25519"
    unfolding fe_neg_def sub_val(1) [OF z(1) J(1)] z(2) J(2) by (simp add: mod_minus_eq)
  moreover have "below (2 ^ 52) (fe_neg (fe_from_u64 486662))"
    unfolding fe_neg_def by (rule below_mono [OF sub_val(2) [OF z(1) J(1)]]) simp
  ultimately show "rep (2 ^ 52) (fe_neg (fe_from_u64 486662)) (- 486662)" by (simp add: rep_def)
qed


lemma rep_eq: "rep n f x \<Longrightarrow> x = y \<Longrightarrow> rep n f y" by simp

text \<open>The curve equation at \<open>-J / d\<close>, as a fraction \<open>gx1 / gxd\<close>.\<close>

lemma rep_fraction:
  assumes "rep (2 ^ 53) tv1 t" "rep (2 ^ 54) xd d"
  shows "rep (2 ^ 52) (fe_mul (fe_square xd) xd) (d ^ 3)"
    and "rep (2 ^ 52) (fe_mul (fe_add (fe_mul (fe_mul (fe_from_u64 486662) tv1) (fe_neg (fe_from_u64 486662)))
      (fe_square xd)) (fe_neg (fe_from_u64 486662))) ((486662 * t * (- 486662) + d ^ 2) * (- 486662))"
proof -
  have tv2: "rep (2 ^ 52) (fe_square xd) (d ^ 2)" by (rule rep_square [OF assms(2)]) simp
  show "rep (2 ^ 52) (fe_mul (fe_square xd) xd) (d ^ 3)"
    by (rule rep_eq [OF rep_mul [OF tv2 assms(2)]]) (simp_all add: power_numeral_reduce)
  have "rep (2 ^ 52) (fe_mul (fe_mul (fe_from_u64 486662) tv1) (fe_neg (fe_from_u64 486662)))
      (486662 * t * (- 486662))"
    by (rule rep_mul [OF rep_mul [OF rep_consts(1) assms(1)] rep_consts(4)]) simp_all
  from rep_add [OF this tv2]
  show "rep (2 ^ 52) (fe_mul (fe_add (fe_mul (fe_mul (fe_from_u64 486662) tv1) (fe_neg (fe_from_u64 486662)))
      (fe_square xd)) (fe_neg (fe_from_u64 486662))) ((486662 * t * (- 486662) + d ^ 2) * (- 486662))"
    by (rule rep_mul [OF _ rep_consts(4)]) simp_all
qed

text \<open>The candidate square root \<open>gxd\<^sup>3 gx1 (gxd\<^sup>7 gx1)\<^bsup>(p - 5) / 8\<^esup>\<close>, and the test that it is one.\<close>

lemma rep_candidate:
  assumes "rep (2 ^ 52) D d" "rep (2 ^ 52) N n"
  shows "rep (2 ^ 52) (fe_mul (pow_p58 (fe_mul (fe_square (fe_square D)) (fe_mul (fe_mul (fe_square D) D) N)))
      (fe_mul (fe_mul (fe_square D) D) N)) ((d ^ 7 * n) ^ (2 ^ 252 - 3) * (d ^ 3 * n))"
proof -
  have W: "rep (2 ^ 52) (fe_mul (fe_mul (fe_square D) D) N) (d ^ 3 * n)"
    by (rule rep_eq [OF rep_mul [OF rep_mul [OF rep_square [OF assms(1)] assms(1)] assms(2)]])
      (simp_all add: power_numeral_reduce)
  have K: "rep (2 ^ 52) (fe_mul (fe_square (fe_square D)) (fe_mul (fe_mul (fe_square D) D) N)) (d ^ 7 * n)"
    by (rule rep_eq [OF rep_mul [OF rep_square [OF rep_square [OF assms(1)]] W]]) (simp_all add: power_numeral_reduce)
  show ?thesis by (rule rep_mul [OF rep_pow(2) [OF K] W]) simp_all
qed

lemma rep_root:
  assumes "rep (2 ^ 52) Y y" "rep (2 ^ 52) D d" "rep (2 ^ 52) N n"
  shows "ct_eq (fe_mul (fe_square Y) D) N \<longleftrightarrow> is_root d n y"
  unfolding is_root_def by (rule rep_ct_eq [OF rep_mul [OF rep_square [OF assms(1)] assms(2)] assms(3)]) simp_all

text \<open>The chain of the source, step by step, on the value \<open>U\<close> of the input.\<close>

lemma map_to_curve_rep:
  assumes u: "rep (2 ^ 52) (fe_from_bytes input) U"
  shows "map_to_curve25519 input = bytes_of 32 (elligator2_x U)"
proof -
  define u where "u = fe_from_bytes input"
  note u = assms [folded u_def]
  define J :: int where "J = 486662"
  define t where "t = 2 * U ^ 2"
  define d where "d = t + 1"
  define gxd where "gxd = d ^ 3"
  define gx1 where "gx1 = (J * t * (- J) + d ^ 2) * (- J)"
  define w where "w = gxd ^ 3 * gx1"
  define y11 where "y11 = (gxd ^ 7 * gx1) ^ (2 ^ 252 - 3) * w"
  define y1 where "y1 = (if is_root gxd gx1 y11 then y11 else y11 * i25519)"
  define xn where "xn = (if is_root gxd gx1 y1 then - J else (- J) * t)"
  note cs = rep_consts [folded J_def]
  define tv1 where "tv1 = fe_add (fe_square u) (fe_square u)"
  have tv1: "rep (2 ^ 53) tv1 t"
    unfolding tv1_def t_def by (rule rep_eq [OF rep_mono [OF rep_add [OF rep_square [OF u] rep_square [OF u]]]]) simp_all
  define xd where "xd = fe_add tv1 fe_one"
  have xd: "rep (2 ^ 54) xd d"
    unfolding xd_def d_def by (rule rep_mono [OF rep_add [OF tv1 cs(2)]]) simp_all
  define Gxd where "Gxd = fe_mul (fe_square xd) xd"
  define Gx1 where "Gx1 = fe_mul (fe_add (fe_mul (fe_mul (fe_from_u64 486662) tv1) (fe_neg (fe_from_u64 486662)))
      (fe_square xd)) (fe_neg (fe_from_u64 486662))"
  have Gxd: "rep (2 ^ 52) Gxd gxd" and Gx1: "rep (2 ^ 52) Gx1 gx1"
    unfolding Gxd_def gxd_def Gx1_def gx1_def J_def by (rule rep_fraction [OF tv1 xd])+
  define W where "W = fe_mul (fe_mul (fe_square Gxd) Gxd) Gx1"
  define Y11 where "Y11 = fe_mul (pow_p58 (fe_mul (fe_square (fe_square Gxd)) W)) W"
  have Y11: "rep (2 ^ 52) Y11 y11"
    unfolding Y11_def y11_def W_def w_def by (rule rep_candidate [OF Gxd Gx1])
  define Y1 where "Y1 = cmov (fe_mul Y11 sqrt_m1) Y11 (ct_eq (fe_mul (fe_square Y11) Gxd) Gx1)"
  have Y1: "rep (2 ^ 52) Y1 y1"
    unfolding Y1_def y1_def rep_root [OF Y11 Gxd Gx1] by (rule rep_cmov [OF rep_mul [OF Y11 cs(3)] Y11]) simp_all
  define Xn where "Xn = cmov (fe_mul (fe_neg (fe_from_u64 486662)) tv1) (fe_neg (fe_from_u64 486662))
      (ct_eq (fe_mul (fe_square Y1) Gxd) Gx1)"
  have Xn: "rep (2 ^ 52) Xn xn"
    unfolding Xn_def xn_def rep_root [OF Y1 Gxd Gx1] by (rule rep_cmov [OF rep_mul [OF cs(4) tv1] cs(4)]) simp_all
  have X: "rep (2 ^ 52) (fe_mul Xn (invert xd)) (xn * d ^ (2 ^ 255 - 21))"
    by (rule rep_mul [OF Xn rep_pow(1) [OF xd]]) simp_all
  have "map_to_curve25519 input = fe_to_bytes (fe_mul Xn (invert xd))"
    by (simp only: map_to_curve25519_def Let_def tv1_def xd_def Gxd_def Gx1_def W_def
        Y11_def Y1_def Xn_def u_def)
  moreover have "elligator2_x U = (xn * d ^ (2 ^ 255 - 21)) mod p25519"
    by (simp only: elligator2_x_def Let_def J_def t_def d_def gxd_def gx1_def w_def y11_def y1_def xn_def)
  ultimately show "map_to_curve25519 input = bytes_of 32 (elligator2_x U)"
    using X by (simp only: to_bytes_val rep_def)
qed

section \<open>Properties\<close>

text \<open>
  C35: the limb arithmetic is arithmetic modulo \<open>2\<^sup>2\<^sup>5\<^sup>5 - 19\<close>.  On operands with limbs below \<open>2\<^sup>5\<^sup>4\<close> no 64-
  or 128-bit operation of the multiplication, and no addition or subtraction of the other
  operations, wraps around; results have limbs below \<open>2\<^sup>5\<^sup>2\<close> again, so the operations compose.
\<close>

theorem field_ops_correct:
  assumes "below (2 ^ 54) a" "below (2 ^ 54) b"
  shows "fv (fe_mul a b) = (fv a * fv b) mod p25519 \<and> below (2 ^ 52) (fe_mul a b)
    \<and> fv (fe_sub a b) = (fv a - fv b) mod p25519 \<and> below (2 ^ 52) (fe_sub a b)
    \<and> fv (fe_add a b) = (fv a + fv b) mod p25519 \<and> below (2 ^ 55) (fe_add a b)
    \<and> fv (reduce a) = fv a \<and> below (2 ^ 52) (reduce a)"
proof -
  have "below (2 ^ 52) (fe_mul a b)" by (rule below_mono [OF mul_val(2) [OF assms]]) simp
  moreover have "below (2 ^ 52) (fe_sub a b)" by (rule below_mono [OF sub_val(2) [OF assms]]) simp
  moreover have "below (2 ^ 52) (reduce a)" by (rule below_mono [OF reduce_val(2)]) simp
  ultimately show ?thesis
    using mul_val(1) [OF assms] sub_val(1) [OF assms] reduce_val(1) [of a] add_val [OF assms] by simp
qed

theorem field_ops_correct_witness:
  "let a = Fe (2 ^ 54 - 1) 0 (2 ^ 54 - 1) 7 (2 ^ 54 - 1); b = Fe 3 (2 ^ 54 - 1) 0 0 (2 ^ 54 - 1) in
   fv (fe_mul a b) = (fv a * fv b) mod p25519 \<and> below (2 ^ 52) (fe_mul a b)
   \<and> fv (fe_sub a b) = (fv a - fv b) mod p25519"
  using field_ops_correct [of "Fe (2 ^ 54 - 1) 0 (2 ^ 54 - 1) 7 (2 ^ 54 - 1)" "Fe 3 (2 ^ 54 - 1) 0 0 (2 ^ 54 - 1)"]
  by (simp add: below_def Let_def)

text \<open>
  The byte form is canonical.  Every field element, weakly reduced or not, is written as the 32
  little-endian bytes of its value modulo \<open>p\<close>, so two elements compare equal exactly when they are
  equal modulo \<open>p\<close>; reading takes the low 255 bits.
\<close>

lemma field_bytes_canonical:
  "le_value (fe_to_bytes a) = fv a \<and> length (fe_to_bytes a) = 32
   \<and> (ct_eq a b \<longleftrightarrow> fv a = fv b)
   \<and> fe_val (fe_from_bytes (bytes_of 32 v)) = take_bit 255 v"
proof -
  have "length (bytes_of 32 x) = 32" for x by (simp add: bytes_of_map)
  moreover have "take_bit 255 (take_bit 256 v) = take_bit 255 v" by simp
  ultimately show ?thesis
    using bytes_of_inj [OF fv_range, of a] ct_eq_val [of a b]
      from_bytes_val(1) [of "bytes_of 32 v"] le_value_bytes_of [of 32 v]
    by (simp add: to_bytes_val)
qed

text \<open>On the value of the low 255 bits of the input.\<close>

lemma map_to_curve25519_value:
  assumes "length input = 32"
  shows "map_to_curve25519 input = bytes_of 32 (elligator2_x (le_value input mod 2 ^ 255))"
proof (rule map_to_curve_rep)
  have "below (2 ^ 52) (fe_from_bytes input)" by (rule below_mono [OF from_bytes_val(2) [OF assms]]) simp
  then show "rep (2 ^ 52) (fe_from_bytes input) (le_value input mod 2 ^ 255)"
    using from_bytes_val(1) [OF assms] unfolding rep_def fv_def by (simp only: take_bit_eq_mod)
qed

end
