(* ===== verification/Bip32.thy ===== *)
theory Bip32
  imports Prelude
begin

text \<open>
  Derivation-path parsing (\<^verbatim>\<open>bip32.rs\<close>).  A string is its UTF-8 bytes; \<open>trim\<close>,
  \<open>split_on\<close> and \<open>parse_u32\<close> are the standard library's \<^verbatim>\<open>str::trim\<close>,
  \<^verbatim>\<open>str::split\<close> and \<^verbatim>\<open>u32::from_str\<close>.
\<close>

section \<open>Standard library\<close>

text \<open>The UTF-8 encodings of the characters with the Unicode property White_Space.\<close>

definition white_space :: "string list" where
  "white_space =
    [[CHR 0x09], [CHR 0x0A], [CHR 0x0B], [CHR 0x0C], [CHR 0x0D], [CHR 0x20],
     [CHR 0xC2, CHR 0x85], [CHR 0xC2, CHR 0xA0], [CHR 0xE1, CHR 0x9A, CHR 0x80],
     [CHR 0xE2, CHR 0x80, CHR 0x80], [CHR 0xE2, CHR 0x80, CHR 0x81], [CHR 0xE2, CHR 0x80, CHR 0x82],
     [CHR 0xE2, CHR 0x80, CHR 0x83], [CHR 0xE2, CHR 0x80, CHR 0x84], [CHR 0xE2, CHR 0x80, CHR 0x85],
     [CHR 0xE2, CHR 0x80, CHR 0x86], [CHR 0xE2, CHR 0x80, CHR 0x87], [CHR 0xE2, CHR 0x80, CHR 0x88],
     [CHR 0xE2, CHR 0x80, CHR 0x89], [CHR 0xE2, CHR 0x80, CHR 0x8A], [CHR 0xE2, CHR 0x80, CHR 0xA8],
     [CHR 0xE2, CHR 0x80, CHR 0xA9], [CHR 0xE2, CHR 0x80, CHR 0xAF], [CHR 0xE2, CHR 0x81, CHR 0x9F],
     [CHR 0xE3, CHR 0x80, CHR 0x80]]"

definition starts_with :: "'a list \<Rightarrow> 'a list \<Rightarrow> bool" where
  "starts_with p s \<longleftrightarrow> take (length p) s = p"

definition strip_prefix :: "'a list \<Rightarrow> 'a list \<Rightarrow> 'a list option" where
  "strip_prefix p s = (if starts_with p s then Some (drop (length p) s) else None)"

definition strip_suffix :: "char \<Rightarrow> string \<Rightarrow> string option" where
  "strip_suffix c s = (if s \<noteq> [] \<and> last s = c then Some (butlast s) else None)"

function strip_all :: "string list \<Rightarrow> string \<Rightarrow> string" where
  "strip_all pats s = (case find (\<lambda>p. p \<noteq> [] \<and> starts_with p s) pats of
     None \<Rightarrow> s | Some p \<Rightarrow> strip_all pats (drop (length p) s))"
  by pat_completeness auto
termination
proof (relation "measure (\<lambda>(pats, s). length s)")
  fix pats :: "string list" and s p
  assume "find (\<lambda>p. p \<noteq> [] \<and> starts_with p s) pats = Some p"
  then have "p \<noteq> []" "take (length p) s = p" by (auto simp: find_Some_iff starts_with_def)
  then show "((pats, drop (length p) s), (pats, s)) \<in> measure (\<lambda>(pats, s). length s)"
    by (cases s) auto
qed simp

declare strip_all.simps [simp del]

definition trim :: "string \<Rightarrow> string" where
  "trim s = rev (strip_all (map rev white_space) (rev (strip_all white_space s)))"

fun split_on :: "char \<Rightarrow> string \<Rightarrow> string list" where
  "split_on c [] = [[]]"
| "split_on c (x # xs) = (if x = c then [] # split_on c xs
     else case split_on c xs of [] \<Rightarrow> [[x]] | p # ps \<Rightarrow> (x # p) # ps)"

definition is_digit :: "char \<Rightarrow> bool" where
  "is_digit c \<longleftrightarrow> 48 \<le> (of_char c :: nat) \<and> (of_char c :: nat) \<le> 57"

definition digit_value :: "char \<Rightarrow> nat" where
  "digit_value c = of_char c - 48"

definition decimal :: "string \<Rightarrow> nat" where
  "decimal ds = foldl (\<lambda>n c. 10 * n + digit_value c) 0 ds"

text \<open>An optional \<open>+\<close>, at least one digit, and a value below \<open>2\<^sup>3\<^sup>2\<close>.\<close>

definition parse_u32 :: "string \<Rightarrow> u32 option" where
  "parse_u32 s =
     (let ds = (case s of CHR ''+'' # cs \<Rightarrow> if cs \<noteq> [] then cs else s | _ \<Rightarrow> s) in
      if ds \<noteq> [] \<and> list_all is_digit ds \<and> decimal ds < 2 ^ 32 then Some (of_nat (decimal ds)) else None)"

section \<open>Paths\<close>

definition HARDENED_BIT :: u32 where "HARDENED_BIT = 0x80000000"

definition invalid_path :: "string \<Rightarrow> string \<Rightarrow> fault" where
  "invalid_path input why = Error (thp (''invalid derivation path '' @ [CHR 39] @ input @ [CHR 39] @ '': '' @ why))"

definition quoted :: "string \<Rightarrow> string" where
  "quoted s = [CHR 39] @ s @ [CHR 39]"

definition hardened_mark :: "string \<Rightarrow> string option" where
  "hardened_mark component = (case strip_suffix (CHR 39) component of
       Some d \<Rightarrow> Some d
     | None \<Rightarrow> (case strip_suffix (CHR ''h'') component of
           Some d \<Rightarrow> Some d
         | None \<Rightarrow> strip_suffix (CHR ''H'') component))"

definition parse_component :: "string \<Rightarrow> string \<Rightarrow> u32 res" where
  "parse_component input raw =
     (let component = trim raw in
      if component = [] then Inl (invalid_path input ''empty component'')
      else
        let (digits, hardened) = (case hardened_mark component of Some d \<Rightarrow> (d, True) | None \<Rightarrow> (component, False)) in
        case parse_u32 digits of
          None \<Rightarrow> Inl (invalid_path input (''bad component '' @ quoted component))
        | Some index \<Rightarrow>
            if HARDENED_BIT \<le> index
            then Inl (invalid_path input (''index '' @ quoted component @ '' out of range''))
            else Inr (if hardened then index OR HARDENED_BIT else index))"

fun parse_components :: "string \<Rightarrow> string list \<Rightarrow> u32 list res" where
  "parse_components input [] = Inr []"
| "parse_components input (raw # rest) =
     res_bind (parse_component input raw) (\<lambda>n.
     res_bind (parse_components input rest) (\<lambda>ns. Inr (n # ns)))"

definition path_body :: "string \<Rightarrow> string" where
  "path_body trimmed = (case strip_prefix ''m/'' trimmed of
       Some b \<Rightarrow> b
     | None \<Rightarrow> (case strip_prefix ''M/'' trimmed of Some b \<Rightarrow> b | None \<Rightarrow> trimmed))"

definition parse_path :: "string \<Rightarrow> u32 list res" where
  "parse_path input =
     (let body = path_body (trim input) in
      if body = [] \<or> body = ''m'' \<or> body = ''M'' then Inr []
      else parse_components input (split_on (CHR ''/'') body))"

section \<open>Lemmas\<close>

text \<open>A text none of whose ends is white space is unchanged by \<open>trim\<close>.\<close>

definition plain :: "char \<Rightarrow> bool" where
  "plain c \<longleftrightarrow> 0x20 < (of_char c :: nat) \<and> (of_char c :: nat) < 0x80"

lemma strip_all_plain:
  assumes "pats = white_space \<or> pats = map rev white_space" "s = [] \<or> plain (hd s)"
  shows "strip_all pats s = s"
proof -
  have "find (\<lambda>p. p \<noteq> [] \<and> starts_with p s) pats = None"
    using assms by (cases s) (auto simp: find_None_iff white_space_def starts_with_def plain_def)
  then show ?thesis by (subst strip_all.simps) simp
qed

lemma trim_plain:
  assumes "s = [] \<or> plain (hd s) \<and> plain (last s)"
  shows "trim s = s"
  using assms by (auto simp: trim_def strip_all_plain hd_rev)

text \<open>No encoding is a prefix of another, nor a suffix.\<close>

definition prefix_free :: "string list \<Rightarrow> bool" where
  "prefix_free pats \<longleftrightarrow> list_all (\<lambda>p. p \<noteq> [] \<and>
     list_all (\<lambda>q. take (min (length p) (length q)) p = take (min (length p) (length q)) q \<longrightarrow> p = q) pats) pats"

lemma prefix_free_ws: "prefix_free white_space"
  by (simp add: prefix_free_def white_space_def)

lemma prefix_free_rev_ws: "prefix_free (map rev white_space)"
  by (simp add: prefix_free_def white_space_def)

lemmas prefix_free_white_space = prefix_free_ws prefix_free_rev_ws

lemma find_unique:
  "w \<in> set xs \<Longrightarrow> P w \<Longrightarrow> \<forall>p \<in> set xs. P p \<longrightarrow> p = w \<Longrightarrow> find P xs = Some w"
proof (induction xs)
  case (Cons x xs)
  show ?case
  proof (cases "P x")
    case True
    then have "x = w" using Cons.prems(3) by (meson list.set_intros(1))
    with True show ?thesis by simp
  next
    case False
    then have "w \<in> set xs" using Cons.prems(1,2) by auto
    moreover have "\<forall>p \<in> set xs. P p \<longrightarrow> p = w" using Cons.prems(3) by (meson list.set_intros(2))
    ultimately have "find P xs = Some w" using Cons.IH Cons.prems(2) by blast
    with False show ?thesis by simp
  qed
qed simp

lemma strip_all_ws:
  assumes "prefix_free pats" "w \<in> set pats"
  shows "strip_all pats (w @ s) = strip_all pats s"
proof -
  have pf: "p \<noteq> []" "take (min (length p) (length q)) p = take (min (length p) (length q)) q \<Longrightarrow> p = q"
    if "p \<in> set pats" "q \<in> set pats" for p q
    using assms(1) that by (auto simp: prefix_free_def list_all_iff)
  have "p = w" if "p \<in> set pats" "take (length p) (w @ s) = p" for p
  proof (rule pf(2) [OF that(1) assms(2)])
    have "take (min (length p) (length w)) p = take (min (length p) (length w)) (take (length p) (w @ s))"
      using that(2) by simp
    then show "take (min (length p) (length w)) p = take (min (length p) (length w)) w" by simp
  qed
  then have "find (\<lambda>p. p \<noteq> [] \<and> starts_with p (w @ s)) pats = Some w"
    using assms(2) pf(1) by (intro find_unique) (auto simp: starts_with_def)
  then show ?thesis by (subst strip_all.simps) simp
qed

lemma strip_all_spaces:
  assumes "prefix_free pats" "set ws \<subseteq> set pats"
  shows "strip_all pats (concat ws @ s) = strip_all pats s"
  using assms(2) by (induction ws) (auto simp: strip_all_ws [OF assms(1)])

text \<open>White space around a text is trimmed.\<close>

lemma trim_spaces:
  assumes "set ws \<subseteq> set white_space" "set ws' \<subseteq> set white_space"
    and "s \<noteq> []" "plain (hd s)" "plain (last s)"
  shows "trim (concat ws @ s @ concat ws') = s"
proof -
  have "strip_all white_space (concat ws @ s @ concat ws') = s @ concat ws'"
    using assms by (simp add: strip_all_spaces [OF prefix_free_white_space(1)] strip_all_plain)
  moreover have "rev (s @ concat ws') = concat (map rev (rev ws')) @ rev s"
    by (simp add: rev_concat rev_map)
  moreover have "strip_all (map rev white_space) (concat (map rev (rev ws')) @ rev s) = rev s"
    using assms by (subst strip_all_spaces [OF prefix_free_white_space(2)]) (auto simp: strip_all_plain hd_rev)
  ultimately show ?thesis by (simp only: trim_def rev_rev_ident)
qed

lemma split_on_join:
  assumes "c \<notin> set x"
  shows "split_on c x = [x]" "split_on c (x @ c # s) = x # split_on c s"
  using assms by (induction x) auto

lemma digit_char_value:
  "d < 10 \<Longrightarrow> is_digit (digit_char d) \<and> digit_value (digit_char d) = d"
  by (simp add: is_digit_def digit_value_def digit_char_def)

lemma decimal_snoc: "decimal (ds @ [c]) = 10 * decimal ds + digit_value c"
  by (simp add: decimal_def)

lemma show_nat_digits: "list_all is_digit (show_nat n) \<and> decimal (show_nat n) = n"
proof (induction n rule: show_nat.induct)
  case (1 n)
  show ?case
  proof (cases "n < 10")
    case True
    then show ?thesis by (subst (1 2) show_nat.simps) (simp add: digit_char_value decimal_def)
  next
    case False
    with 1 show ?thesis by (subst (1 2) show_nat.simps) (simp add: digit_char_value decimal_snoc)
  qed
qed

lemma decimal_zeros: "decimal (replicate z (CHR ''0'') @ ds) = decimal ds"
  by (induction z) (simp_all add: decimal_def digit_value_def)

lemma plain_digit: "is_digit c \<Longrightarrow> plain c \<and> c \<notin> {CHR ''/'', CHR 39, CHR ''h'', CHR ''H'', CHR ''+'', CHR ''m'', CHR ''M''}"
  by (auto simp: is_digit_def plain_def)

section \<open>Spellings of a path\<close>

text \<open>
  A component as a user may write it: white space, an optional plus sign, leading zeros, the
  decimal index, an optional hardening mark, white space.
\<close>

record spelling =
  sp_before :: "string list"
  sp_plus :: bool
  sp_zeros :: nat
  sp_index :: nat
  sp_mark :: "char option"
  sp_after :: "string list"

definition sp_digits :: "spelling \<Rightarrow> string" where
  "sp_digits p = replicate (sp_zeros p) (CHR ''0'') @ show_nat (sp_index p)"

definition sp_core :: "spelling \<Rightarrow> string" where
  "sp_core p = (if sp_plus p then ''+'' else []) @ sp_digits p @ (case sp_mark p of None \<Rightarrow> [] | Some c \<Rightarrow> [c])"

definition sp_text :: "spelling \<Rightarrow> string" where
  "sp_text p = concat (sp_before p) @ sp_core p @ concat (sp_after p)"

definition sp_ok :: "spelling \<Rightarrow> bool" where
  "sp_ok p \<longleftrightarrow> set (sp_before p) \<subseteq> set white_space \<and> set (sp_after p) \<subseteq> set white_space
     \<and> sp_index p < 2 ^ 31 \<and> (case sp_mark p of None \<Rightarrow> True | Some c \<Rightarrow> c \<in> {CHR 39, CHR ''h'', CHR ''H''})"

definition sp_value :: "spelling \<Rightarrow> u32" where
  "sp_value p = of_nat (sp_index p) OR (case sp_mark p of None \<Rightarrow> 0 | Some _ \<Rightarrow> HARDENED_BIT)"

fun join_path :: "string list \<Rightarrow> string" where
  "join_path [] = []"
| "join_path [x] = x"
| "join_path (x # y # xs) = x @ CHR ''/'' # join_path (y # xs)"

lemma sp_digits_facts:
  "list_all is_digit (sp_digits p)" "decimal (sp_digits p) = sp_index p" "sp_digits p \<noteq> []"
  using show_nat_digits [of "sp_index p"]
  by (auto simp: sp_digits_def decimal_zeros is_digit_def list_all_iff)

lemma parse_u32_digits:
  assumes "list_all is_digit ds" "ds \<noteq> []" "decimal ds < 2 ^ 32"
  shows "parse_u32 ds = Some (of_nat (decimal ds))" "parse_u32 (CHR ''+'' # ds) = Some (of_nat (decimal ds))"
proof -
  have "hd ds \<noteq> CHR ''+''" using assms by (cases ds) (auto dest: plain_digit)
  then show "parse_u32 ds = Some (of_nat (decimal ds))"
    using assms by (cases ds) (auto simp: parse_u32_def Let_def split: char.splits bool.splits)
  show "parse_u32 (CHR ''+'' # ds) = Some (of_nat (decimal ds))"
    using assms by (simp add: parse_u32_def)
qed

lemma hardened_mark_core:
  assumes "sp_ok p"
  shows "hardened_mark (sp_core p) = (case sp_mark p of None \<Rightarrow> None
    | Some _ \<Rightarrow> Some ((if sp_plus p then ''+'' else []) @ sp_digits p))"
proof -
  have "is_digit (last (sp_digits p))"
    using sp_digits_facts [of p] by (auto simp: list_all_iff)
  then have "last (sp_digits p) \<notin> {CHR 39, CHR ''h'', CHR ''H''}" by (auto dest: plain_digit)
  with assms sp_digits_facts(3) [of p] show ?thesis
    by (auto simp: hardened_mark_def strip_suffix_def sp_core_def sp_ok_def butlast_append split: option.splits)
qed

lemma sp_core_ends:
  assumes "sp_ok p"
  shows "plain (hd (sp_core p))" "plain (last (sp_core p))" "sp_core p \<noteq> []"
    and "hd (sp_core p) \<notin> {CHR ''m'', CHR ''M''}" "CHR ''/'' \<notin> set (sp_core p)"
proof -
  note ds = sp_digits_facts [of p]
  have dig: "is_digit (hd (sp_digits p))" "is_digit (last (sp_digits p))" "CHR ''/'' \<notin> set (sp_digits p)"
    using ds plain_digit by (auto simp: list_all_iff)
  then have "plain (hd (sp_digits p))" "plain (last (sp_digits p))" "hd (sp_digits p) \<notin> {CHR ''m'', CHR ''M''}"
    using plain_digit by blast+
  moreover have "plain (CHR ''+'')" "plain (CHR 39)" "plain (CHR ''h'')" "plain (CHR ''H'')"
    by (simp_all add: plain_def)
  ultimately show "plain (hd (sp_core p))" "plain (last (sp_core p))" "sp_core p \<noteq> []"
      "hd (sp_core p) \<notin> {CHR ''m'', CHR ''M''}" "CHR ''/'' \<notin> set (sp_core p)"
    using assms ds(3) dig(3) by (auto simp: sp_core_def sp_ok_def split: option.splits)
qed

lemma trim_sp_text: "sp_ok p \<Longrightarrow> trim (sp_text p) = sp_core p"
  using trim_spaces [of "sp_before p" "sp_after p" "sp_core p"] sp_core_ends [of p]
  by (simp add: sp_text_def sp_ok_def)

lemma parse_component_spelled:
  assumes "sp_ok p"
  shows "parse_component input (sp_text p) = Inr (sp_value p)"
proof -
  define num where "num = (if sp_plus p then ''+'' else []) @ sp_digits p"
  note ds = sp_digits_facts [of p] and core = sp_core_ends [OF assms]
  have "decimal (sp_digits p) < 2 ^ 32" using assms ds(2) by (simp add: sp_ok_def)
  then have num: "parse_u32 num = Some (of_nat (sp_index p))"
    using parse_u32_digits [OF ds(1,3)] ds(2) by (simp add: num_def)
  have "unat (of_nat (sp_index p) :: u32) = sp_index p"
    by (rule unat_of_nat_small) (use assms in \<open>simp add: sp_ok_def\<close>)
  then have "\<not> HARDENED_BIT \<le> of_nat (sp_index p)"
    using assms by (simp add: word_le_nat_alt HARDENED_BIT_def sp_ok_def)
  moreover have "sp_core p = num" if "sp_mark p = None" using that by (simp add: sp_core_def num_def)
  ultimately show ?thesis
    using num core(3) hardened_mark_core [OF assms, folded num_def]
    by (auto simp: parse_component_def trim_sp_text [OF assms] Let_def sp_value_def split: option.splits)
qed

lemma no_slash_white_space: "set ws \<subseteq> set white_space \<Longrightarrow> CHR ''/'' \<notin> set (concat ws)"
  by (force simp: white_space_def)

lemma sp_text_no_slash: "sp_ok p \<Longrightarrow> CHR ''/'' \<notin> set (sp_text p)"
  using no_slash_white_space [of "sp_before p"] no_slash_white_space [of "sp_after p"] sp_core_ends(5) [of p]
  unfolding sp_text_def by (auto simp: sp_ok_def)

lemma split_join_path:
  "ps \<noteq> [] \<Longrightarrow> list_all sp_ok ps \<Longrightarrow> split_on (CHR ''/'') (join_path (map sp_text ps)) = map sp_text ps"
proof (induction ps)
  case (Cons p ps)
  then show ?case by (cases ps) (auto simp: split_on_join sp_text_no_slash)
qed simp

lemma parse_components_spelled:
  "list_all sp_ok ps \<Longrightarrow> parse_components input (map sp_text ps) = Inr (map sp_value ps)"
  by (induction ps) (auto simp: parse_component_spelled)

text \<open>White space at the two ends of the path can be moved out of its components.\<close>

definition trim_first :: "spelling list \<Rightarrow> spelling list" where
  "trim_first ps = (hd ps)\<lparr>sp_before := []\<rparr> # tl ps"

definition trim_last :: "spelling list \<Rightarrow> spelling list" where
  "trim_last ps = butlast ps @ [(last ps)\<lparr>sp_after := []\<rparr>]"

lemma trim_first:
  assumes "ps \<noteq> []" "list_all sp_ok ps"
  shows "join_path (map sp_text ps) = concat (sp_before (hd ps)) @ join_path (map sp_text (trim_first ps))"
    "list_all sp_ok (trim_first ps)" "map sp_value (trim_first ps) = map sp_value ps"
  using assms
  by (cases ps; cases "tl ps"; simp add: trim_first_def sp_text_def sp_core_def sp_digits_def sp_ok_def sp_value_def)+

lemma trim_last:
  assumes "ps \<noteq> []" "list_all sp_ok ps"
  shows "join_path (map sp_text ps) = join_path (map sp_text (trim_last ps)) @ concat (sp_after (last ps))"
    "list_all sp_ok (trim_last ps)" "map sp_value (trim_last ps) = map sp_value ps"
proof -
  show "join_path (map sp_text ps) = join_path (map sp_text (trim_last ps)) @ concat (sp_after (last ps))"
    using assms(1)
  proof (induction ps)
    case (Cons p ps)
    then show ?case
      by (cases ps; cases "trim_last ps") (auto simp: trim_last_def sp_text_def sp_core_def sp_digits_def)
  qed simp
  obtain qs q where "ps = qs @ [q]" using assms(1) by (metis append_butlast_last_id)
  with assms show "list_all sp_ok (trim_last ps)" "map sp_value (trim_last ps) = map sp_value ps"
    by (simp_all add: trim_last_def sp_ok_def sp_value_def)
qed

lemma sp_text_bare: "sp_before p = [] \<Longrightarrow> sp_after p = [] \<Longrightarrow> sp_text p = sp_core p"
  by (simp add: sp_text_def)

lemma join_path_ends:
  assumes "ps \<noteq> []" "list_all sp_ok ps"
  shows "sp_before (hd ps) = [] \<Longrightarrow> plain (hd (join_path (map sp_text ps))) \<and> hd (join_path (map sp_text ps)) \<notin> {CHR ''m'', CHR ''M''}"
    and "sp_after (last ps) = [] \<Longrightarrow> plain (last (join_path (map sp_text ps)))"
    and "join_path (map sp_text ps) \<noteq> []"
proof -
  show "join_path (map sp_text ps) \<noteq> []"
    using assms sp_core_ends(3) by (cases ps; cases "tl ps") (auto simp: sp_text_def)
  show "plain (hd (join_path (map sp_text ps))) \<and> hd (join_path (map sp_text ps)) \<notin> {CHR ''m'', CHR ''M''}"
    if "sp_before (hd ps) = []"
    using assms that sp_core_ends [of "hd ps"] by (cases ps; cases "tl ps") (auto simp: sp_text_def)
  show "plain (last (join_path (map sp_text ps)))" if "sp_after (last ps) = []"
    using assms that
  proof (induction ps)
    case (Cons p ps)
    show ?case
    proof (cases ps)
      case Nil
      with Cons.prems sp_core_ends [of p] show ?thesis by (simp add: sp_text_def)
    next
      case (Cons q qs)
      with Cons.prems sp_core_ends(3) [of q] have "join_path (map sp_text ps) \<noteq> []"
        by (cases qs) (auto simp: sp_text_def)
      with Cons Cons.IH Cons.prems show ?thesis by simp
    qed
  qed simp
qed

lemma parse_path_trimmed:
  assumes "ps \<noteq> []" "list_all sp_ok ps" "trim input = pre @ join_path (map sp_text ps)"
    and "pre \<in> {''m/'', ''M/''} \<or> pre = [] \<and> sp_before (hd ps) = []"
  shows "parse_path input = Inr (map sp_value ps)"
proof -
  let ?j = "join_path (map sp_text ps)"
  have "trim ''m'' = ''m''" "trim ''M'' = ''M''" by (rule trim_plain, simp add: plain_def)+
  then have m: "sp_text z \<noteq> ''m''" "sp_text z \<noteq> ''M''" if "sp_ok z" for z
    using trim_sp_text [OF that] sp_core_ends(4) [OF that] by (metis insertCI list.sel(1))+
  have j: "?j \<noteq> []" "?j \<noteq> ''m''" "?j \<noteq> ''M''"
    using split_join_path [OF assms(1,2)] join_path_ends(3) [OF assms(1,2)] assms(1,2)
    by (auto, (metis m)+)
  have "path_body (pre @ ?j) = ?j"
    using assms(4) join_path_ends(1) [OF assms(1,2)] j(1)
    by (cases ?j) (auto simp: path_body_def strip_prefix_def starts_with_def)
  with j assms show ?thesis
    by (simp add: parse_path_def Let_def split_join_path parse_components_spelled)
qed

section \<open>Properties\<close>

text \<open>
  C25: every way of writing a derivation path parses to its indices: with or without the \<open>m/\<close> or \<open>M/\<close>
  prefix, any of the three hardening marks, leading zeros, a plus sign, white space around every
  component; the hardening bit is set exactly on the marked components.
\<close>

theorem parse_path_spelled:
  assumes "ps \<noteq> []" "list_all sp_ok ps" "pre \<in> {[], ''m/'', ''M/''}"
  shows "parse_path (pre @ join_path (map sp_text ps)) = Inr (map sp_value ps)"
proof -
  define qs where "qs = (if pre = [] then trim_first ps else ps)"
  define ws where "ws = (if pre = [] then sp_before (hd ps) else [])"
  have qs: "qs \<noteq> []" "list_all sp_ok qs" "map sp_value qs = map sp_value ps"
    and whole: "pre @ join_path (map sp_text ps) = concat ws @ pre @ join_path (map sp_text qs)"
    and first: "pre = [] \<Longrightarrow> sp_before (hd qs) = []"
    using assms trim_first [OF assms(1,2)] by (auto simp: qs_def ws_def trim_first_def)
  define rs where "rs = trim_last qs"
  have rs: "rs \<noteq> []" "list_all sp_ok rs" "map sp_value rs = map sp_value ps" "sp_after (last rs) = []"
    "pre = [] \<Longrightarrow> sp_before (hd rs) = []"
    using trim_last [OF qs(1,2)] qs first
    by (cases qs rule: rev_cases; auto simp: rs_def trim_last_def hd_append split: if_splits)+
  let ?core = "pre @ join_path (map sp_text rs)"
  have "pre @ join_path (map sp_text ps) = concat ws @ ?core @ concat (sp_after (last qs))"
    using whole trim_last(1) [OF qs(1,2)] by (simp add: rs_def)
  moreover have "set ws \<subseteq> set white_space" "set (sp_after (last qs)) \<subseteq> set white_space"
    using assms(1,2) qs(1,2) by (auto simp: ws_def sp_ok_def list_all_iff)
  moreover have "?core \<noteq> []" "plain (hd ?core)" "plain (last ?core)"
    using join_path_ends [OF rs(1,2)] rs(4,5) assms(3) by (auto simp: plain_def)
  ultimately have "trim (pre @ join_path (map sp_text ps)) = ?core"
    using trim_spaces [of ws "sp_after (last qs)" ?core] by (metis (no_types))
  then show ?thesis
    using parse_path_trimmed [OF rs(1,2), of _ pre] rs(3,5) assms(3) by auto
qed

theorem parse_path_spelled_witness:
  "parse_path '' 44h/ +007/0 '' = Inr [0x8000002C, 7, 0]"
proof -
  let ?ps = "[\<lparr>sp_before = ['' ''], sp_plus = False, sp_zeros = 0, sp_index = 44, sp_mark = Some (CHR ''h''), sp_after = []\<rparr>,
    \<lparr>sp_before = ['' ''], sp_plus = True, sp_zeros = 2, sp_index = 7, sp_mark = None, sp_after = []\<rparr>,
    \<lparr>sp_before = [], sp_plus = False, sp_zeros = 0, sp_index = 0, sp_mark = None, sp_after = ['' '']\<rparr>]"
  have "list_all sp_ok ?ps" by (simp add: sp_ok_def white_space_def)
  then have "parse_path ([] @ join_path (map sp_text ?ps)) = Inr (map sp_value ?ps)"
    by (intro parse_path_spelled) simp_all
  moreover have "join_path (map sp_text ?ps) = '' 44h/ +007/0 ''"
    by (simp add: sp_text_def sp_core_def sp_digits_def show_nat.simps digit_char_def
        char_of_eq_iff numeral_2_eq_2)
  moreover have "map sp_value ?ps = [0x8000002C, 7, 0]"
    by (simp add: sp_value_def HARDENED_BIT_def)
  ultimately show ?thesis by simp
qed

end
