(* ===== verification/Cpace.thy ===== *)
theory Cpace
  imports Elligator2 Aead Bip32
begin

text \<open>
  The host side of CPace (\<^verbatim>\<open>thp/cpace.rs\<close>): the pairing code as six digits, the generator
  derived from it and the handshake hash, and the host's public key and tag.
\<close>

definition DSI_PREFIX :: bytes where
  "DSI_PREFIX = [0x08, 0x43, 0x50, 0x61, 0x63, 0x65, 0x32, 0x35, 0x35, 0x06]"
definition PADDING_LEN :: nat where "PADDING_LEN = 113"
definition SID :: bytes where "SID = [0x00]"
definition CODE_LEN :: nat where "CODE_LEN = 6"

definition cpace_padding :: bytes where
  "cpace_padding = ((replicate PADDING_LEN 0)[0 := 0x6f])[PADDING_LEN - 1 := 0x20]"

text \<open>\<^verbatim>\<open>format!("{:06}")\<close>, and the copy into an array of six bytes (which panics on another length).\<close>

definition zero_padded :: "nat \<Rightarrow> nat \<Rightarrow> string" where
  "zero_padded width n = replicate (width - length (show_nat n)) (CHR ''0'') @ show_nat n"

definition as_bytes :: "string \<Rightarrow> bytes" where
  "as_bytes s = map (\<lambda>c. of_nat (of_char c)) s"

definition format_code :: "u32 \<Rightarrow> bytes res" where
  "format_code code =
     (let s = as_bytes (zero_padded 6 (unat (code mod 1000000))) in
      if length s = CODE_LEN then Inr s
      else Inl (Panic ''source slice length does not match destination slice length''))"

definition cpace_generator :: "crypto \<Rightarrow> bytes \<Rightarrow> bytes \<Rightarrow> bytes" where
  "cpace_generator C code handshake_hash =
     (let pregenerator = sha512 C (DSI_PREFIX @ code @ cpace_padding @ handshake_hash @ SID);
          input = take 32 pregenerator in
      map_to_curve25519 input)"

definition cpace_x25519 :: "crypto \<Rightarrow> bytes \<Rightarrow> bytes \<Rightarrow> bytes" where
  "cpace_x25519 C scalar point = dalek_dh C scalar point"

record host_cpace_result =
  host_public :: bytes
  cpace_tag :: bytes

definition host_cpace :: "crypto \<Rightarrow> bytes \<Rightarrow> bytes \<Rightarrow> bytes \<Rightarrow> bytes \<Rightarrow> host_cpace_result" where
  "host_cpace C code handshake_hash trezor_public host_private =
     (let g = cpace_generator C code handshake_hash;
          hp = cpace_x25519 C host_private g;
          shared = cpace_x25519 C host_private trezor_public in
      \<lparr>host_public = hp, cpace_tag = sha256 C shared\<rparr>)"

section \<open>Lemmas\<close>

lemma length_show_nat: "n < 10 ^ k \<Longrightarrow> 0 < k \<Longrightarrow> length (show_nat n) \<le> k"
proof (induction k arbitrary: n)
  case (Suc k)
  show ?case
  proof (cases "n < 10")
    case True
    then show ?thesis by (subst show_nat.simps) simp
  next
    case False
    with Suc.prems have "0 < k" by (cases k) auto
    moreover have "n div 10 < 10 ^ k" using Suc.prems by (simp add: less_mult_imp_div_less mult.commute)
    ultimately have "length (show_nat (n div 10)) \<le> k" using Suc.IH by blast
    with False show ?thesis by (subst show_nat.simps) simp
  qed
qed simp

lemma zero_padded_facts:
  assumes "n < 10 ^ w" "0 < w"
  shows "length (zero_padded w n) = w" "decimal (zero_padded w n) = n" "list_all is_digit (zero_padded w n)"
  using length_show_nat [OF assms] show_nat_digits [of n]
  by (auto simp: zero_padded_def decimal_zeros is_digit_def list_all_iff)

lemma as_bytes_inj: "as_bytes s = as_bytes t \<longleftrightarrow> s = t"
proof
  have "inj (\<lambda>c. of_nat (of_char c) :: u8)"
  proof
    fix x y :: char
    assume "(of_nat (of_char x) :: u8) = of_nat (of_char y)"
    then have "(of_char x :: nat) = of_char y" by (subst (asm) of_nat_word_inj) simp_all
    then show "x = y" by simp
  qed
  then have "inj (map (\<lambda>c. of_nat (of_char c) :: u8))" by simp
  then show "as_bytes s = as_bytes t \<Longrightarrow> s = t"
    unfolding as_bytes_def by (rule injD)
qed simp

lemma format_code_ok:
  "format_code code = Inr (as_bytes (zero_padded 6 (unat code mod 1000000)))"
proof -
  have "unat (code mod 1000000) = unat code mod 1000000" by (simp add: unat_mod)
  moreover have "unat code mod 1000000 < 10 ^ 6" by simp
  ultimately show ?thesis
    using zero_padded_facts(1) [of "unat code mod 1000000" 6]
    by (simp add: format_code_def Let_def CODE_LEN_def as_bytes_def)
qed

section \<open>Properties\<close>

text \<open>
  C37: the pairing code is formatted without a panic as exactly six decimal digits, and two codes give
  the same digits exactly when they agree modulo one million, so every six-digit code has its own
  CPace password.
\<close>

theorem format_code_digits:
  "\<exists>s. format_code code = Inr (as_bytes s) \<and> length s = 6 \<and> list_all is_digit s
     \<and> decimal s = unat code mod 1000000
     \<and> (format_code code = format_code code' \<longleftrightarrow> unat code mod 1000000 = unat code' mod 1000000)"
proof -
  let ?n = "unat code mod 1000000" and ?n' = "unat code' mod 1000000"
  have lt: "?n < 10 ^ 6" "?n' < 10 ^ 6" by simp_all
  note z = zero_padded_facts [OF lt(1) zero_less_numeral] and z' = zero_padded_facts [OF lt(2) zero_less_numeral]
  have "zero_padded 6 ?n = zero_padded 6 ?n' \<longleftrightarrow> ?n = ?n'"
    using z(2) z'(2) by metis
  then have "format_code code = format_code code' \<longleftrightarrow> ?n = ?n'"
    by (simp only: format_code_ok as_bytes_inj sum.inject)
  with z format_code_ok [of code] show ?thesis
    by (intro exI [of _ "zero_padded 6 ?n"]) (intro conjI; assumption)
qed



end
