(* ===== verification/Chain_Call.thy ===== *)
theory Chain_Call
  imports Connection
begin

text \<open>
  The request pattern all chain modules share: send an application message on a session, insist on
  the type of the reply and decode it.  The message codecs are generated code and parameters; what
  the modules promise on every transport is stated with the rules below.
\<close>

definition unexpected_type :: "string \<Rightarrow> u16 \<Rightarrow> u16 \<Rightarrow> trezor_error" where
  "unexpected_type what expected actual =
     thp (''expected '' @ what @ '' ('' @ show_nat (unat expected) @ ''), got message type '' @ show_nat (unat actual))"

definition expect_reply :: "string \<Rightarrow> u16 \<Rightarrow> (bytes \<Rightarrow> string + 'a) \<Rightarrow> u16 \<times> bytes \<Rightarrow> 'a res" where
  "expect_reply what expected dec = (\<lambda>(rt, rp).
     if rt \<noteq> expected then Err (unexpected_type what expected rt)
     else decoded (what @ '' decode: '') (dec rp))"

text \<open>A signature split into recovery byte and components (\<^verbatim>\<open>types.rs\<close>).\<close>

record secp256k1_signature =
  sig_v :: u8
  sig_r :: bytes
  sig_s :: bytes

lemma expect_reply_Inr:
  "expect_reply what expected dec (rt, rp) = Inr a \<longleftrightarrow> rt = expected \<and> dec rp = Inr a"
  by (auto simp: expect_reply_def decoded_def split: sum.splits)

section \<open>What operations on a connection keep\<close>

definition keeps :: "(connection \<Rightarrow> connection \<Rightarrow> bool) \<Rightarrow> ('w, 'a) cio \<Rightarrow> bool" where
  "keeps R m \<longleftrightarrow> (\<forall>c w. wlp m (\<lambda>r s. R c (fst s)) (c, w))"

text \<open>
  Relations between the connection before and after an operation that compose along the operation.
  The rules below turn a bound on the steps of an exchange into a bound on the exchange.
\<close>

locale connection_preorder =
  fixes R :: "connection \<Rightarrow> connection \<Rightarrow> bool"
  assumes refl: "R c c"
    and trans: "R c c' \<Longrightarrow> R c' c'' \<Longrightarrow> R c c''"
begin

lemma keeps_effects: "keeps R (io_return a)" "keeps R (io_res r)" "keeps R (io_fail e)"
  by (simp_all add: keeps_def wlp_simps refl)

lemma keeps_after:
  assumes "keeps R m" "R c (fst s)"
  shows "wlp m (\<lambda>r s. R c (fst s)) s"
  using assms(1) [unfolded keeps_def, rule_format, of "fst s" "snd s"] assms(2)
  by (auto elim!: wlp_conseq intro: trans)

lemma keeps_bind:
  assumes "keeps R m" "\<And>a. keeps R (f a)"
  shows "keeps R (io_bind m f)"
  unfolding keeps_def wlp_simps
proof (intro allI)
  fix c w
  have "wlp m (\<lambda>r s. R c (fst s)) (c, w)" using assms(1) by (simp add: keeps_def)
  then show "wlp m (\<lambda>r s'. case r of Inl e \<Rightarrow> R c (fst s') | Inr a \<Rightarrow> wlp (f a) (\<lambda>r s. R c (fst s)) s') (c, w)"
    by (rule wlp_conseq) (use keeps_after [OF assms(2)] in \<open>auto split: sum.splits\<close>)
qed

lemma keeps_loop:
  assumes "\<And>x. keeps R (body x)"
  shows "keeps R (io_loop body x)"
  unfolding keeps_def
proof (intro allI)
  fix c w
  show "wlp (io_loop body x) (\<lambda>r s. R c (fst s)) (c, w)"
  proof (rule wlp_loop [where I = "\<lambda>x s. R c (fst s)"], goal_cases)
    case (2 x s)
    show ?case by (rule wlp_conseq [OF keeps_after [OF assms 2]]) (auto split: sum.splits)
  qed (simp add: refl)
qed

lemma keeps_if: "keeps R m \<Longrightarrow> keeps R m' \<Longrightarrow> keeps R (if b then m else m')"
  by simp

lemma keeps_case_option:
  "keeps R m \<Longrightarrow> (\<And>a. keeps R (f a)) \<Longrightarrow> keeps R (case x of None \<Rightarrow> m | Some a \<Rightarrow> f a)"
  by (cases x) auto

lemma keeps_case_prod: "(\<And>a b. keeps R (f a b)) \<Longrightarrow> keeps R (case x of (a, b) \<Rightarrow> f a b)"
  by (cases x) auto

lemmas keeps_rules = keeps_effects keeps_bind keeps_loop keeps_if keeps_case_option keeps_case_prod

end

text \<open>
  Two instances: \<open>same_wallet\<close>, for the messages of one session, and \<open>kept\<close>, which leaves the active
  session id free: packet size and channel, the wallet the connection is seeded with, and that it has
  an encrypted session.
\<close>

definition kept :: "connection \<Rightarrow> connection \<Rightarrow> bool" where
  "kept c c' \<longleftrightarrow> packet_size c' = packet_size c \<and> cid c' = cid c \<and> seeded_with c' = seeded_with c
     \<and> (conn_session c' = None \<longleftrightarrow> conn_session c = None)"

interpretation wallet_kept: connection_preorder kept
  by unfold_locales (auto simp: kept_def)

interpretation wallet_same: connection_preorder same_wallet
  by unfold_locales (auto simp: same_wallet_def)

lemma keeps_transceive: "keeps same_wallet (transceive H C P mt pb)" "keeps kept (transceive H C P mt pb)"
  unfolding keeps_def by (intro allI wlp_transceive; simp add: same_wallet_def kept_def)+

lemma keeps_transceive_on: "keeps kept (transceive_on H C P sid mt pb)"
  unfolding keeps_def by (intro allI wlp_transceive_on) (auto simp: same_wallet_def kept_def)

lemmas keeps_intros = wallet_kept.keeps_rules wallet_same.keeps_rules keeps_transceive keeps_transceive_on

text \<open>
  The contract every chain request satisfies on every transport: it ends on the session id it was
  given, leaves the channel and the wallet alone, and its results satisfy \<open>ok\<close>.
\<close>

definition chain_request :: "(u8 \<Rightarrow> ('w, 'a) cio) \<Rightarrow> ('a \<Rightarrow> bool) \<Rightarrow> bool" where
  "chain_request f ok \<longleftrightarrow> (\<forall>sid c w. wlp (f sid)
     (\<lambda>r s. kept c (fst s) \<and> (case r of Inr a \<Rightarrow> active_session_id (fst s) = sid \<and> ok a | Inl _ \<Rightarrow> True)) (c, w))"

lemma chain_requestI:
  assumes "\<And>rt rp a. k (rt, rp) = Inr a \<Longrightarrow> ok a"
  shows "chain_request (\<lambda>sid. io_bind (transceive_on H C P sid mt body) (\<lambda>reply. io_res (k reply))) ok"
  unfolding chain_request_def wlp_simps
  by (intro allI wlp_transceive_on) (use assms in \<open>auto simp: same_wallet_def kept_def split: sum.splits\<close>)

text \<open>A request that continues the exchange on its session.\<close>

lemma chain_request_exchange:
  assumes "\<And>reply. keeps same_wallet (k reply)"
  shows "chain_request (\<lambda>sid. io_bind (transceive_on H C P sid mt body) k) (\<lambda>_. True)"
  unfolding chain_request_def wlp_simps
proof (intro allI wlp_transceive_on, goal_cases)
  case (1 sid c w rt rp c' w')
  have "wlp (k (rt, rp)) (\<lambda>r s. same_wallet (c\<lparr>active_session_id := sid\<rparr>) (fst s)) (c', w')"
    using 1 by (intro wallet_same.keeps_after assms) simp
  then show ?case
    unfolding sum.case by (rule wlp_conseq) (auto simp: same_wallet_def kept_def split: sum.splits)
qed (auto simp: same_wallet_def kept_def)

lemma chain_request_fail: "chain_request (\<lambda>sid. io_res (Inl e)) ok"
  by (simp add: chain_request_def wlp_simps kept_def)

lemma chain_request_res:
  assumes "\<And>a. chain_request (f a) ok"
  shows "chain_request (\<lambda>sid. io_bind (io_res x) (\<lambda>a. f a sid)) ok"
  using assms by (cases x) (auto simp: chain_request_def wlp_simps kept_def)

end
