(* ===== verification/Pairing_Flow.thy ===== *)
theory Pairing_Flow
  imports Exchange Cpace Chain_Call
begin

text \<open>
  CodeEntry pairing and the steps around it (\<^verbatim>\<open>thp/pairing.rs\<close>).
\<close>

definition T_PAIRING_REQUEST :: u16 where "T_PAIRING_REQUEST = 1008"
definition T_PAIRING_REQUEST_APPROVED :: u16 where "T_PAIRING_REQUEST_APPROVED = 1009"
definition T_SELECT_METHOD :: u16 where "T_SELECT_METHOD = 1010"
definition T_CREDENTIAL_REQUEST :: u16 where "T_CREDENTIAL_REQUEST = 1016"
definition T_CREDENTIAL_RESPONSE :: u16 where "T_CREDENTIAL_RESPONSE = 1017"
definition T_END_REQUEST :: u16 where "T_END_REQUEST = 1018"
definition T_END_RESPONSE :: u16 where "T_END_RESPONSE = 1019"
definition T_CODE_ENTRY_COMMITMENT :: u16 where "T_CODE_ENTRY_COMMITMENT = 1024"
definition T_CODE_ENTRY_CHALLENGE :: u16 where "T_CODE_ENTRY_CHALLENGE = 1025"
definition T_CODE_ENTRY_CPACE_TREZOR :: u16 where "T_CODE_ENTRY_CPACE_TREZOR = 1026"
definition T_CODE_ENTRY_CPACE_HOST_TAG :: u16 where "T_CODE_ENTRY_CPACE_HOST_TAG = 1027"
definition T_CODE_ENTRY_SECRET :: u16 where "T_CODE_ENTRY_SECRET = 1028"
definition MGMT_GET_FEATURES :: u16 where "MGMT_GET_FEATURES = 55"
definition MGMT_FEATURES :: u16 where "MGMT_FEATURES = 17"
definition PAIRING_METHOD_CODE_ENTRY :: int where "PAIRING_METHOD_CODE_ENTRY = 2"

definition random32 :: "'w host \<Rightarrow> ('w, bytes) cio" where "random32 H = random_bytes H 32"
definition random16 :: "'w host \<Rightarrow> ('w, bytes) cio" where "random16 H = random_bytes H 16"

definition as32 :: "bytes \<Rightarrow> bytes res" where
  "as32 v = (if length v = 32 then Inr v else thp_err ''expected a 32-byte field from device'')"

definition expect_type :: "u16 \<Rightarrow> u16 \<Rightarrow> string \<Rightarrow> unit res" where
  "expect_type actual expected what =
     (if actual = expected then Inr () else Err (unexpected_type what expected actual))"

definition ask_code :: "'w host \<Rightarrow> ('w, string) cio" where
  "ask_code H = (\<lambda>(c, w). let (s, w') = request_code H w in Some (Inr s, (c, w')))"

definition parse_code :: "string \<Rightarrow> u32 res" where
  "parse_code code_str = (case parse_u32 (trim code_str) of
     None \<Rightarrow> Err (Pairing ''no valid pairing code was entered'') | Some n \<Rightarrow> Inr n)"

definition codeentry_pairing ::
    "'s send \<Rightarrow> ('s, bytes) io \<Rightarrow> ('s, bytes) io \<Rightarrow> ('s, string) io \<Rightarrow> crypto \<Rightarrow> proto \<Rightarrow>
     bytes \<Rightarrow> bytes \<Rightarrow> string \<Rightarrow> string \<Rightarrow> ('s, bytes) io" where
  "codeentry_pairing send rand16 rand32 ask C P hh host_pub host_name app_name =
     io_bind (send T_PAIRING_REQUEST (enc_pairing_request P host_name app_name)) (\<lambda>(rt, _).
     io_bind (io_res (expect_type rt T_PAIRING_REQUEST_APPROVED ''ThpPairingRequestApproved'')) (\<lambda>_.
     io_bind (send T_SELECT_METHOD (enc_select_method P PAIRING_METHOD_CODE_ENTRY)) (\<lambda>(rt, rp).
     io_bind (io_res (expect_type rt T_CODE_ENTRY_COMMITMENT ''ThpCodeEntryCommitment'')) (\<lambda>_.
     io_bind (io_res (decoded ''commitment decode: '' (dec_code_entry_commitment P rp))) (\<lambda>commitment.
     io_bind rand16 (\<lambda>challenge.
     io_bind (send T_CODE_ENTRY_CHALLENGE (enc_code_entry_challenge P challenge)) (\<lambda>(rt, rp).
     io_bind (io_res (expect_type rt T_CODE_ENTRY_CPACE_TREZOR ''ThpCodeEntryCpaceTrezor'')) (\<lambda>_.
     io_bind (io_res (decoded ''cpace-trezor decode: '' (dec_code_entry_cpace_trezor P rp))) (\<lambda>key.
     io_bind (io_res (as32 key)) (\<lambda>cpace_trezor_pub.
     io_bind ask (\<lambda>code_str.
     io_bind (io_res (parse_code code_str)) (\<lambda>code_num.
     io_bind (io_res (format_code code_num)) (\<lambda>code.
     io_bind rand32 (\<lambda>host_priv.
     let host = host_cpace C code hh cpace_trezor_pub host_priv in
     io_bind (send T_CODE_ENTRY_CPACE_HOST_TAG
       (enc_code_entry_cpace_host_tag P (host_public host) (cpace_tag host))) (\<lambda>(rt, rp).
     io_bind (io_res (expect_type rt T_CODE_ENTRY_SECRET ''ThpCodeEntrySecret'')) (\<lambda>_.
     io_bind (io_res (decoded ''secret decode: '' (dec_code_entry_secret P rp))) (\<lambda>secret.
     if sha256 C secret \<noteq> commitment
     then io_fail (Error (Pairing ''device secret does not match its commitment''))
     else
       io_bind (send T_CREDENTIAL_REQUEST (enc_credential_request P host_pub)) (\<lambda>(rt, rp).
       io_bind (io_res (expect_type rt T_CREDENTIAL_RESPONSE ''ThpCredentialResponse'')) (\<lambda>_.
       io_res (decoded ''credential decode: '' (dec_credential_response P rp)))))))))))))))))))))"

definition run_codeentry_pairing ::
    "'w host \<Rightarrow> crypto \<Rightarrow> proto \<Rightarrow> bytes \<Rightarrow> bytes \<Rightarrow> string \<Rightarrow> string \<Rightarrow> ('w, bytes) cio" where
  "run_codeentry_pairing H C P =
     codeentry_pairing (transceive H C P) (random16 H) (random32 H) (ask_code H) C P"

definition end_request :: "'w host \<Rightarrow> crypto \<Rightarrow> proto \<Rightarrow> ('w, unit) cio" where
  "end_request H C P = io_bind (transceive H C P T_END_REQUEST []) (\<lambda>(rt, _).
     io_res (expect_type rt T_END_RESPONSE ''ThpEndResponse''))"

definition get_features :: "'w host \<Rightarrow> crypto \<Rightarrow> proto \<Rightarrow> ('w, features) cio" where
  "get_features H C P =
     io_bind (transceive_on H C P 0 MGMT_GET_FEATURES (enc_get_features P)) (\<lambda>(rt, rp).
     io_bind (io_res (expect_type rt MGMT_FEATURES ''Features'')) (\<lambda>_.
     io_res (decoded ''features decode: '' (dec_features P rp))))"

section \<open>Lemmas\<close>

lemmas pairing_types =
  T_PAIRING_REQUEST_def T_PAIRING_REQUEST_APPROVED_def T_SELECT_METHOD_def T_CREDENTIAL_REQUEST_def
  T_CREDENTIAL_RESPONSE_def T_CODE_ENTRY_COMMITMENT_def T_CODE_ENTRY_CHALLENGE_def
  T_CODE_ENTRY_CPACE_TREZOR_def T_CODE_ENTRY_CPACE_HOST_TAG_def T_CODE_ENTRY_SECRET_def

lemma expect_type_same [simp]: "expect_type t t what = Inr ()"
  by (simp add: expect_type_def)

lemma inversions:
  "expect_type t t' what = Inr u \<longleftrightarrow> t = t'"
  "decoded w r = Inr d \<longleftrightarrow> r = Inr d"
  "as32 v = Inr v' \<longleftrightarrow> v' = v \<and> length v = 32"
  "parse_code code_str = Inr n \<longleftrightarrow> parse_u32 (trim code_str) = Some n"
  by (auto simp: expect_type_def decoded_def as32_def parse_code_def split: sum.splits option.splits)

text \<open>The three requests every pairing opens with.\<close>

definition pairing_opening :: "proto \<Rightarrow> string \<Rightarrow> string \<Rightarrow> bytes \<Rightarrow> (u16 \<times> bytes) list" where
  "pairing_opening P host_name app_name challenge =
     [(T_PAIRING_REQUEST, enc_pairing_request P host_name app_name),
      (T_SELECT_METHOD, enc_select_method P PAIRING_METHOD_CODE_ENTRY),
      (T_CODE_ENTRY_CHALLENGE, enc_code_entry_challenge P challenge)]"

text \<open>The whole exchange of a pairing that ends with a credential.\<close>

definition pairing_requests :: "crypto \<Rightarrow> proto \<Rightarrow> string \<Rightarrow> string \<Rightarrow> bytes \<Rightarrow> bytes \<Rightarrow> host_cpace_result \<Rightarrow> (u16 \<times> bytes) list" where
  "pairing_requests C P host_name app_name challenge host_pub host =
     pairing_opening P host_name app_name challenge @
     [(T_CODE_ENTRY_CPACE_HOST_TAG, enc_code_entry_cpace_host_tag P (host_public host) (cpace_tag host)),
      (T_CREDENTIAL_REQUEST, enc_credential_request P host_pub)]"

section \<open>Properties\<close>

text \<open>
  C8: what a returned credential means, against any device.  Whatever the replies are, pairing
  returns a credential exactly when the first five replies have the expected types, decode, carry a
  32-byte CPace key and a secret whose hash is the commitment received before the code was entered,
  and the user entered a valid code; the credential is the one in the fifth reply, and the host has
  sent exactly the five requests of the choreography, the fourth with the CPace key and tag computed
  from the entered code, the handshake hash and the device's key.
\<close>

theorem credential_only_if_committed:
  "transcript (codeentry_pairing scripted (io_return challenge) (io_return hpriv) (io_return code_str)
      C P hh host_pub host_name app_name) rs = Some (Inr cred, ms) \<longleftrightarrow>
   (\<exists>a b k s cr rest key secret n. rs = (T_PAIRING_REQUEST_APPROVED, a) # (T_CODE_ENTRY_COMMITMENT, b)
        # (T_CODE_ENTRY_CPACE_TREZOR, k) # (T_CODE_ENTRY_SECRET, s) # (T_CREDENTIAL_RESPONSE, cr) # rest
      \<and> dec_code_entry_commitment P b = Inr (sha256 C secret)
      \<and> dec_code_entry_cpace_trezor P k = Inr key \<and> length key = 32
      \<and> parse_u32 (trim code_str) = Some n
      \<and> dec_code_entry_secret P s = Inr secret \<and> dec_credential_response P cr = Inr cred
      \<and> ms = pairing_requests C P host_name app_name challenge host_pub
               (host_cpace C (as_bytes (zero_padded 6 (unat n mod 1000000))) hh key hpriv))"
  unfolding transcript_succeeds codeentry_pairing_def io_bind_return
  apply (simp add: succeeds_steps inversions Let_def format_code_ok split_beta
      pairing_requests_def pairing_opening_def)
  apply (rule iffI; elim exE conjE; simp)
  apply blast
  done

text \<open>
  C38: the two refusals of the choreography that protect the user.  Against a device that commits,
  sends a 32-byte CPace key and reveals a secret: without a valid code pairing stops after the three
  opening requests, so nothing derived from a code is sent; with a secret that does not hash to the
  commitment it fails after the fourth, without asking for a credential.
\<close>

theorem pairing_refusals:
  assumes "dec_code_entry_commitment P b = Inr commitment" "dec_code_entry_cpace_trezor P k = Inr key"
    and "length key = 32" "dec_code_entry_secret P s = Inr secret" "sha256 C secret \<noteq> commitment"
  shows "case parse_u32 (trim code_str) of
      None \<Rightarrow> transcript (codeentry_pairing scripted (io_return challenge) (io_return hpriv) (io_return code_str)
          C P hh host_pub host_name app_name)
          ((T_PAIRING_REQUEST_APPROVED, a) # (T_CODE_ENTRY_COMMITMENT, b) # (T_CODE_ENTRY_CPACE_TREZOR, k) # rs) =
        Some (Err (Pairing ''no valid pairing code was entered''), pairing_opening P host_name app_name challenge)
    | Some n \<Rightarrow> transcript (codeentry_pairing scripted (io_return challenge) (io_return hpriv) (io_return code_str)
          C P hh host_pub host_name app_name)
          ((T_PAIRING_REQUEST_APPROVED, a) # (T_CODE_ENTRY_COMMITMENT, b) # (T_CODE_ENTRY_CPACE_TREZOR, k)
             # (T_CODE_ENTRY_SECRET, s) # rs) =
        Some (Err (Pairing ''device secret does not match its commitment''),
          butlast (pairing_requests C P host_name app_name challenge host_pub
            (host_cpace C (as_bytes (zero_padded 6 (unat n mod 1000000))) hh key hpriv)))"
  using assms
  by (simp add: transcript_def codeentry_pairing_def as32_def parse_code_def format_code_ok Let_def
      pairing_requests_def pairing_opening_def butlast_append split: option.splits)

theorem pairing_refusals_witness:
  "\<exists>ms. transcript (codeentry_pairing scripted (io_return [5]) (io_return [6]) (io_return ''42'')
      demo_crypto demo_proto [] [] ''h'' ''a'')
     [(T_PAIRING_REQUEST_APPROVED, []), (T_CODE_ENTRY_COMMITMENT, []), (T_CODE_ENTRY_CPACE_TREZOR, replicate 32 9),
      (T_CODE_ENTRY_SECRET, [1])] = Some (Err (Pairing ''device secret does not match its commitment''), ms) \<and> length ms = 4"
proof -
  have "trim ''42'' = ''42''" by (rule trim_plain) (simp_all add: plain_def)
  then have code: "parse_u32 (trim ''42'') = Some 42"
    by (simp add: parse_u32_def is_digit_def decimal_def digit_value_def)
  have "length (sha256 demo_crypto [1]) = 32" using demo_hash_lengths by (simp add: hash_lengths_def)
  then have ne: "sha256 demo_crypto [1] \<noteq> []" by auto
  have len: "length (butlast (pairing_requests demo_crypto demo_proto h a c p r)) = 4" for h a c p r
    by (simp add: pairing_requests_def pairing_opening_def)
  have dec: "dec_code_entry_commitment demo_proto [] = Inr []"
    "dec_code_entry_cpace_trezor demo_proto (replicate 32 9) = Inr (replicate 32 9)"
    "length (replicate 32 (9 :: 8 word)) = 32" "dec_code_entry_secret demo_proto [1] = Inr [1]"
    by (simp_all add: demo_proto_def)
  show ?thesis
    using pairing_refusals [OF dec ne, where code_str = "''42''" and challenge = "[5]" and hpriv = "[6]"
        and hh = "[]" and host_pub = "[]" and host_name = "''h''" and app_name = "''a''" and a = "[]" and rs = "[]"]
    unfolding code option.case using len by (intro exI conjI)
qed

end
