(* ===== verification/Bitcoin.thy ===== *)
theory Bitcoin
  imports Exchange Chain_Call
begin

unbundle bit_operations_syntax

text \<open>
  Bitcoin (\<^verbatim>\<open>chains/bitcoin.rs\<close>): account keys, message signatures and the \<open>SignTx\<close>
  streaming exchange that signs a PSBT.  The \<^verbatim>\<open>bitcoin\<close> crate is third-party code: the
  records below hold the fields of its types that the source reads or changes, together with one
  opaque field for everything else, and its functions (parsing and printing a PSBT, transaction ids,
  addresses, DER signatures) are parameters, as are the generated protobuf codecs.
\<close>

section \<open>Data of the bitcoin crate\<close>

record tx_in =
  ti_txid :: bytes
  ti_vout :: u32
  ti_script_sig :: bytes
  ti_sequence :: u32
  ti_witness :: "bytes list"

record tx_out =
  to_value :: u64
  to_script_pubkey :: bytes

record transaction =
  tx_version :: int
  tx_lock_time :: u32
  tx_input :: "tx_in list"
  tx_output :: "tx_out list"

text \<open>A \<^verbatim>\<open>BTreeMap\<close> from keys to derivations is the list of its entries in key order.\<close>

type_synonym derivations = "(bytes \<times> bytes \<times> u32 list) list"

datatype sighash_type = Sighash_All | Sighash_Other u32

record ('g, 'x) psbt_input =
  pi_witness_utxo :: "tx_out option"
  pi_non_witness_utxo :: "transaction option"
  pi_bip32_derivation :: derivations
  pi_partial_sigs :: "bytes \<rightharpoonup> 'g \<times> sighash_type"
  pi_other :: 'x

record 'x psbt_output =
  po_bip32_derivation :: derivations
  po_other :: 'x

record ('g, 'x) psbt =
  unsigned_tx :: transaction
  psbt_inputs :: "('g, 'x) psbt_input list"
  psbt_outputs :: "'x psbt_output list"
  psbt_other :: 'x

datatype network = Bitcoin_Network | Testnet

record ('g, 'x) btc_lib =
  psbt_from_str :: "string \<Rightarrow> string + ('g, 'x) psbt"
  psbt_to_string :: "('g, 'x) psbt \<Rightarrow> string"
  compute_txid :: "transaction \<Rightarrow> bytes"
  address_from_script :: "bytes \<Rightarrow> network \<Rightarrow> string + string"
  from_der :: "bytes \<Rightarrow> string + 'g"

section \<open>Messages\<close>

definition BTC_GET_PUBLIC_KEY :: u16 where "BTC_GET_PUBLIC_KEY = 11"
definition BTC_PUBLIC_KEY :: u16 where "BTC_PUBLIC_KEY = 12"
definition BTC_SIGN_TX :: u16 where "BTC_SIGN_TX = 15"
definition BTC_TX_REQUEST :: u16 where "BTC_TX_REQUEST = 21"
definition BTC_TX_ACK :: u16 where "BTC_TX_ACK = 22"
definition BTC_SIGN_MESSAGE :: u16 where "BTC_SIGN_MESSAGE = 38"
definition BTC_MESSAGE_SIGNATURE :: u16 where "BTC_MESSAGE_SIGNATURE = 40"

text \<open>The enumerations of \<^verbatim>\<open>messages-bitcoin.proto\<close>, with their wire values.\<close>

datatype input_script_type =
  Spendaddress | Spendmultisig | External | Spendwitness | Spendp2shwitness | Spendtaproot

fun input_script_code :: "input_script_type \<Rightarrow> int" where
  "input_script_code Spendaddress = 0"
| "input_script_code Spendmultisig = 1"
| "input_script_code External = 2"
| "input_script_code Spendwitness = 3"
| "input_script_code Spendp2shwitness = 4"
| "input_script_code Spendtaproot = 5"

datatype output_script_type =
  Paytoaddress | Paytoscripthash | Paytomultisig | Paytoopreturn | Paytowitness | Paytop2shwitness | Paytotaproot

fun output_script_code :: "output_script_type \<Rightarrow> int" where
  "output_script_code Paytoaddress = 0"
| "output_script_code Paytoscripthash = 1"
| "output_script_code Paytomultisig = 2"
| "output_script_code Paytoopreturn = 3"
| "output_script_code Paytowitness = 4"
| "output_script_code Paytop2shwitness = 5"
| "output_script_code Paytotaproot = 6"

datatype request_type =
  Txinput | Txoutput | Txmeta | Txfinished | Txextradata | Txoriginput | Txorigoutput | Txpaymentreq

definition request_type_of :: "int \<Rightarrow> request_type option" where
  "request_type_of n = (let ts = [Txinput, Txoutput, Txmeta, Txfinished, Txextradata, Txoriginput, Txorigoutput, Txpaymentreq]
     in if 0 \<le> n \<and> n < 8 then Some (ts ! nat n) else None)"

record btc_sign_tx =
  st_outputs_count :: u32
  st_inputs_count :: u32
  st_coin_name :: "string option"
  st_version :: "u32 option"
  st_lock_time :: "u32 option"
  st_serialize :: "bool option"

record btc_tx_input =
  bi_script_type :: "int option"
  bi_address_n :: "u32 list"
  bi_prev_hash :: bytes
  bi_prev_index :: u32
  bi_sequence :: "u32 option"
  bi_amount :: u64

record btc_tx_output =
  bo_address :: "string option"
  bo_address_n :: "u32 list"
  bo_amount :: u64
  bo_script_type :: "int option"

record btc_prev_tx =
  pt_version :: u32
  pt_lock_time :: u32
  pt_inputs_count :: u32
  pt_outputs_count :: u32

record btc_prev_input =
  bp_prev_hash :: bytes
  bp_prev_index :: u32
  bp_script_sig :: bytes
  bp_sequence :: u32

record btc_prev_output =
  bq_amount :: u64
  bq_script_pubkey :: bytes

record tx_request_details =
  rd_request_index :: "u32 option"
  rd_tx_hash :: "bytes option"

record tx_request_serialized =
  rs_signature_index :: "u32 option"
  rs_signature :: "bytes option"

record tx_request =
  rq_request_type :: "int option"
  rq_details :: "tx_request_details option"
  rq_serialized :: "tx_request_serialized option"

record btc_public_key =
  pk_xpub :: string
  pk_root_fingerprint :: "u32 option"

record bitcoin_message_signature =
  bms_address :: string
  bms_signature :: bytes

record btc_proto =
  enc_btc_sign_message :: "u32 list \<Rightarrow> bytes \<Rightarrow> string option \<Rightarrow> int option \<Rightarrow> bytes"
  dec_btc_message_signature :: "bytes \<Rightarrow> string + bitcoin_message_signature"
  enc_btc_get_public_key :: "u32 list \<Rightarrow> bool option \<Rightarrow> string option \<Rightarrow> int option \<Rightarrow> bool option \<Rightarrow> bytes"
  dec_btc_public_key :: "bytes \<Rightarrow> string + btc_public_key"
  enc_btc_sign_tx :: "btc_sign_tx \<Rightarrow> bytes"
  dec_btc_tx_request :: "bytes \<Rightarrow> string + tx_request"
  enc_tx_ack_input :: "btc_tx_input \<Rightarrow> bytes"
  enc_tx_ack_output :: "btc_tx_output \<Rightarrow> bytes"
  enc_tx_ack_prev_meta :: "btc_prev_tx \<Rightarrow> bytes"
  enc_tx_ack_prev_input :: "btc_prev_input \<Rightarrow> bytes"
  enc_tx_ack_prev_output :: "btc_prev_output \<Rightarrow> bytes"
  show_request_type :: "int \<Rightarrow> string"

section \<open>Paths and keys\<close>

definition btc_account_path :: "u32 \<Rightarrow> u32 \<Rightarrow> u32 list" where
  "btc_account_path account coin_type = [0x80000000 OR 84, 0x80000000 OR coin_type, 0x80000000 OR account]"

definition coin_name :: "u32 \<Rightarrow> string" where
  "coin_name coin_type = (if coin_type = 1 then ''Testnet'' else ''Bitcoin'')"

definition script_type_for_path :: "u32 list \<Rightarrow> input_script_type" where
  "script_type_for_path address_n =
     (case map_option (\<lambda>p. p AND NOT 0x80000000) (case address_n of [] \<Rightarrow> None | p # _ \<Rightarrow> Some p) of
        Some purpose \<Rightarrow>
          if purpose = 44 then Spendaddress
          else if purpose = 49 then Spendp2shwitness
          else Spendwitness
      | None \<Rightarrow> Spendwitness)"

definition btc_sign_message :: "'w host \<Rightarrow> crypto \<Rightarrow> proto \<Rightarrow> btc_proto \<Rightarrow> u32 list \<Rightarrow> bytes \<Rightarrow> u32 \<Rightarrow> u8 \<Rightarrow>
    ('w, bitcoin_message_signature) cio" where
  "btc_sign_message H C P B address_n message coin_type session_id =
     io_bind (transceive_on H C P session_id BTC_SIGN_MESSAGE
       (enc_btc_sign_message B address_n message (Some (coin_name coin_type))
         (Some (input_script_code (script_type_for_path address_n))))) (\<lambda>reply.
     io_res (expect_reply ''MessageSignature'' BTC_MESSAGE_SIGNATURE (dec_btc_message_signature B) reply))"

definition xpub_of :: "btc_public_key \<Rightarrow> string res" where
  "xpub_of pk = (if pk_xpub pk = [] then thp_err ''PublicKey carried an empty xpub'' else Inr (pk_xpub pk))"

definition get_account_xpub :: "'w host \<Rightarrow> crypto \<Rightarrow> proto \<Rightarrow> btc_proto \<Rightarrow> u32 list \<Rightarrow> u32 \<Rightarrow> u8 \<Rightarrow> ('w, string) cio" where
  "get_account_xpub H C P B address_n coin_type session_id =
     io_bind (transceive_on H C P session_id BTC_GET_PUBLIC_KEY
       (enc_btc_get_public_key B address_n (Some False) (Some (coin_name coin_type))
         (Some (input_script_code (script_type_for_path address_n))) (Some True))) (\<lambda>reply.
     io_res (res_bind (expect_reply ''PublicKey'' BTC_PUBLIC_KEY (dec_btc_public_key B) reply) xpub_of))"

definition fingerprint_of :: "btc_public_key \<Rightarrow> bytes res" where
  "fingerprint_of pk = (case pk_root_fingerprint pk of
     None \<Rightarrow> thp_err ''PublicKey missing root_fingerprint'' | Some fp \<Rightarrow> Inr (u32_be fp))"

definition get_master_fingerprint :: "'w host \<Rightarrow> crypto \<Rightarrow> proto \<Rightarrow> btc_proto \<Rightarrow> u8 \<Rightarrow> ('w, bytes) cio" where
  "get_master_fingerprint H C P B session_id =
     io_bind (transceive_on H C P session_id BTC_GET_PUBLIC_KEY
       (enc_btc_get_public_key B (btc_account_path 0 0) (Some False) (Some ''Bitcoin'')
         (Some (input_script_code Spendwitness)) (Some True))) (\<lambda>reply.
     io_res (res_bind (expect_reply ''PublicKey'' BTC_PUBLIC_KEY (dec_btc_public_key B) reply) fingerprint_of))"

section \<open>Answers to the device's requests\<close>

definition get_or :: "'a list \<Rightarrow> nat \<Rightarrow> string \<Rightarrow> 'a res" where
  "get_or xs i msg = (if i < length xs then Inr (xs ! i) else thp_err msg)"

text \<open>The first entry of a derivation map, if it has one: its key and its path.\<close>

definition first_derivation :: "derivations \<Rightarrow> (bytes \<times> u32 list) option" where
  "first_derivation ds = (case ds of [] \<Rightarrow> None | (pubkey, fp, path) # _ \<Rightarrow> Some (pubkey, path))"

definition input_amount :: "('g, 'x) psbt_input \<Rightarrow> tx_in \<Rightarrow> nat \<Rightarrow> u64 res" where
  "input_amount pin txin i =
     (case pi_witness_utxo pin of
        Some utxo \<Rightarrow> Inr (to_value utxo)
      | None \<Rightarrow> (case pi_non_witness_utxo pin of
          Some prev \<Rightarrow>
            res_bind (get_or (tx_output prev) (unat (ti_vout txin))
              (''PSBT input '' @ show_nat i @ '' prev output out of range'')) (\<lambda>out.
            Inr (to_value out))
        | None \<Rightarrow> thp_err (''PSBT input '' @ show_nat i @ '' has neither witness_utxo nor non_witness_utxo'')))"

definition build_input_ack :: "('g, 'x) psbt \<Rightarrow> nat \<Rightarrow> btc_tx_input res" where
  "build_input_ack psbt i =
     res_bind (get_or (tx_input (unsigned_tx psbt)) i
       (''TxRequest input index '' @ show_nat i @ '' out of range'')) (\<lambda>txin.
     res_bind (get_or (psbt_inputs psbt) i (''PSBT input '' @ show_nat i @ '' missing'')) (\<lambda>pin.
     res_bind (input_amount pin txin i) (\<lambda>amount.
     case first_derivation (pi_bip32_derivation pin) of
       None \<Rightarrow> thp_err (''PSBT input '' @ show_nat i @ '' missing bip32_derivation'')
     | Some (_, address_n) \<Rightarrow>
         Inr \<lparr>bi_script_type = Some (input_script_code (script_type_for_path address_n)),
           bi_address_n = address_n, bi_prev_hash = rev (ti_txid txin), bi_prev_index = ti_vout txin,
           bi_sequence = Some (ti_sequence txin), bi_amount = amount\<rparr>)))"

definition change_script_type :: "u32 list \<Rightarrow> output_script_type" where
  "change_script_type address_n = (case script_type_for_path address_n of
     Spendp2shwitness \<Rightarrow> Paytop2shwitness | Spendaddress \<Rightarrow> Paytoaddress | _ \<Rightarrow> Paytowitness)"

definition change_of :: "('g, 'x) psbt \<Rightarrow> nat \<Rightarrow> 'x psbt_output option" where
  "change_of psbt i =
     (if i < length (psbt_outputs psbt) \<and> po_bip32_derivation (psbt_outputs psbt ! i) \<noteq> []
      then Some (psbt_outputs psbt ! i) else None)"

definition build_output_ack :: "('g, 'x) btc_lib \<Rightarrow> ('g, 'x) psbt \<Rightarrow> nat \<Rightarrow> network \<Rightarrow> btc_tx_output res" where
  "build_output_ack L psbt i network =
     res_bind (get_or (tx_output (unsigned_tx psbt)) i
       (''TxRequest output index '' @ show_nat i @ '' out of range'')) (\<lambda>txout.
     case change_of psbt i of
       Some po \<Rightarrow> (case first_derivation (po_bip32_derivation po) of
           None \<Rightarrow> Inl (Panic ''non-empty bip32_derivation'')
         | Some (_, address_n) \<Rightarrow>
             Inr \<lparr>bo_address = None, bo_address_n = address_n, bo_amount = to_value txout,
               bo_script_type = Some (output_script_code (change_script_type address_n))\<rparr>)
     | None \<Rightarrow> (case address_from_script L (to_script_pubkey txout) network of
           Inl e \<Rightarrow> thp_err (''output '' @ show_nat i @ '' address from script: '' @ e)
         | Inr addr \<Rightarrow>
             Inr \<lparr>bo_address = Some addr, bo_address_n = [], bo_amount = to_value txout,
               bo_script_type = Some (output_script_code Paytoaddress)\<rparr>))"

definition prev_tx_matches :: "('g, 'x) btc_lib \<Rightarrow> bytes \<Rightarrow> ('g, 'x) psbt_input \<Rightarrow> bool" where
  "prev_tx_matches L tx_hash pin = (case pi_non_witness_utxo pin of
     None \<Rightarrow> False | Some prev \<Rightarrow> rev (compute_txid L prev) = tx_hash)"

definition find_prev_tx :: "('g, 'x) btc_lib \<Rightarrow> ('g, 'x) psbt \<Rightarrow> bytes \<Rightarrow> transaction res" where
  "find_prev_tx L psbt tx_hash =
     (case Option.bind (find (prev_tx_matches L tx_hash) (psbt_inputs psbt)) pi_non_witness_utxo of
        Some prev \<Rightarrow> Inr prev
      | None \<Rightarrow> thp_err (''Trezor asked for a previous transaction the PSBT doesn'' @ [CHR 39] @
          ''t carry; re-sync the wallet (it must include full previous transactions)''))"

definition build_prev_meta_ack :: "('g, 'x) btc_lib \<Rightarrow> ('g, 'x) psbt \<Rightarrow> bytes \<Rightarrow> btc_prev_tx res" where
  "build_prev_meta_ack L psbt tx_hash =
     res_bind (find_prev_tx L psbt tx_hash) (\<lambda>prev.
     Inr \<lparr>pt_version = of_int (tx_version prev), pt_lock_time = tx_lock_time prev,
       pt_inputs_count = of_nat (length (tx_input prev)), pt_outputs_count = of_nat (length (tx_output prev))\<rparr>)"

definition build_prev_input_ack :: "('g, 'x) btc_lib \<Rightarrow> ('g, 'x) psbt \<Rightarrow> bytes \<Rightarrow> nat \<Rightarrow> btc_prev_input res" where
  "build_prev_input_ack L psbt tx_hash i =
     res_bind (find_prev_tx L psbt tx_hash) (\<lambda>prev.
     res_bind (get_or (tx_input prev) i (''prev tx input index '' @ show_nat i @ '' out of range'')) (\<lambda>txin.
     Inr \<lparr>bp_prev_hash = rev (ti_txid txin), bp_prev_index = ti_vout txin,
       bp_script_sig = ti_script_sig txin, bp_sequence = ti_sequence txin\<rparr>))"

definition build_prev_output_ack :: "('g, 'x) btc_lib \<Rightarrow> ('g, 'x) psbt \<Rightarrow> bytes \<Rightarrow> nat \<Rightarrow> btc_prev_output res" where
  "build_prev_output_ack L psbt tx_hash i =
     res_bind (find_prev_tx L psbt tx_hash) (\<lambda>prev.
     res_bind (get_or (tx_output prev) i (''prev tx output index '' @ show_nat i @ '' out of range'')) (\<lambda>txout.
     Inr \<lparr>bq_amount = to_value txout, bq_script_pubkey = to_script_pubkey txout\<rparr>))"

section \<open>Signing\<close>

definition show_i32 :: "int \<Rightarrow> string" where
  "show_i32 n = (if n < 0 then CHR ''-'' # show_nat (nat (- n)) else show_nat (nat n))"

text \<open>The signatures received so far: a \<^verbatim>\<open>BTreeMap\<close>, as the list of its entries in key order.\<close>

type_synonym sig_map = "(u32 \<times> bytes) list"

fun sigs_insert :: "u32 \<Rightarrow> bytes \<Rightarrow> sig_map \<Rightarrow> sig_map" where
  "sigs_insert k v [] = [(k, v)]"
| "sigs_insert k v ((k', v') # m) =
     (if k < k' then (k, v) # (k', v') # m
      else if k = k' then (k, v) # m
      else (k', v') # sigs_insert k v m)"

definition note_signature :: "tx_request \<Rightarrow> sig_map \<Rightarrow> sig_map" where
  "note_signature req sigs = (case rq_serialized req of
     None \<Rightarrow> sigs
   | Some ser \<Rightarrow> (case (rs_signature_index ser, rs_signature ser) of
       (Some i, Some sig) \<Rightarrow> sigs_insert i sig sigs
     | _ \<Rightarrow> sigs))"

text \<open>What to send next: \<open>None\<close> when the device is finished.\<close>

definition tx_ack :: "('g, 'x) btc_lib \<Rightarrow> btc_proto \<Rightarrow> ('g, 'x) psbt \<Rightarrow> network \<Rightarrow> tx_request \<Rightarrow> bytes option res" where
  "tx_ack L B psbt network req =
     (let request_index = unat (case_option 0 id (Option.bind (rq_details req) rd_request_index));
          tx_hash = Option.bind (rq_details req) rd_tx_hash;
          rtype = case_option 3 id (rq_request_type req)
      in case request_type_of rtype of
        Some Txfinished \<Rightarrow> Inr None
      | Some Txinput \<Rightarrow> (case tx_hash of
            Some h \<Rightarrow> res_bind (build_prev_input_ack L psbt h request_index) (\<lambda>a. Inr (Some (enc_tx_ack_prev_input B a)))
          | None \<Rightarrow> res_bind (build_input_ack psbt request_index) (\<lambda>a. Inr (Some (enc_tx_ack_input B a))))
      | Some Txoutput \<Rightarrow> (case tx_hash of
            Some h \<Rightarrow> res_bind (build_prev_output_ack L psbt h request_index) (\<lambda>a. Inr (Some (enc_tx_ack_prev_output B a)))
          | None \<Rightarrow> res_bind (build_output_ack L psbt request_index network) (\<lambda>a. Inr (Some (enc_tx_ack_output B a))))
      | Some Txmeta \<Rightarrow> (case tx_hash of
            Some h \<Rightarrow> res_bind (build_prev_meta_ack L psbt h) (\<lambda>a. Inr (Some (enc_tx_ack_prev_meta B a)))
          | None \<Rightarrow> thp_err ''TXMETA request without a tx_hash'')
      | _ \<Rightarrow> thp_err (''Trezor requested unsupported tx item '' @ show_request_type B rtype @ '' (request_type '' @
            show_i32 rtype @ ''); RBF-origin / extra-data streaming is not supported''))"

definition btc_sign_request :: "('g, 'x) psbt \<Rightarrow> u32 \<Rightarrow> btc_sign_tx" where
  "btc_sign_request psbt coin_type =
     \<lparr>st_outputs_count = of_nat (length (tx_output (unsigned_tx psbt))),
      st_inputs_count = of_nat (length (tx_input (unsigned_tx psbt))),
      st_coin_name = Some (coin_name coin_type), st_version = Some (of_int (tx_version (unsigned_tx psbt))),
      st_lock_time = Some (tx_lock_time (unsigned_tx psbt)), st_serialize = Some True\<rparr>"

definition sign_psbt_body :: "'s send \<Rightarrow> ('g, 'x) btc_lib \<Rightarrow> btc_proto \<Rightarrow> ('g, 'x) psbt \<Rightarrow> network \<Rightarrow>
    (u16 \<times> bytes) \<times> sig_map \<Rightarrow> ('s, ((u16 \<times> bytes) \<times> sig_map) + sig_map) io" where
  "sign_psbt_body send L B psbt network = (\<lambda>(reply, sigs).
     io_bind (io_res (expect_reply ''TxRequest'' BTC_TX_REQUEST (dec_btc_tx_request B) reply)) (\<lambda>req.
     let sigs' = note_signature req sigs in
     io_bind (io_res (tx_ack L B psbt network req)) (\<lambda>next.
     case next of
       None \<Rightarrow> io_return (Inr sigs')
     | Some ack \<Rightarrow> io_bind (send BTC_TX_ACK ack) (\<lambda>reply'. io_return (Inl (reply', sigs'))))))"

definition merge_one :: "('g, 'x) btc_lib \<Rightarrow> ('g, 'x) psbt \<Rightarrow> u32 \<Rightarrow> bytes \<Rightarrow> ('g, 'x) psbt res" where
  "merge_one L psbt i der =
     res_bind (get_or (psbt_inputs psbt) (unat i) (''signature for unknown input '' @ show_nat (unat i))) (\<lambda>pin.
     case first_derivation (pi_bip32_derivation pin) of
       None \<Rightarrow> thp_err (''input '' @ show_nat (unat i) @ '' missing bip32_derivation'')
     | Some (secp_pub, _) \<Rightarrow>
         res_bind (decoded ''device signature parse: '' (from_der L der)) (\<lambda>sig.
         Inr (psbt\<lparr>psbt_inputs := (psbt_inputs psbt)[unat i :=
           pin\<lparr>pi_partial_sigs := (pi_partial_sigs pin)(secp_pub \<mapsto> (sig, Sighash_All))\<rparr>]\<rparr>)))"

fun merge_sigs :: "('g, 'x) btc_lib \<Rightarrow> ('g, 'x) psbt \<Rightarrow> sig_map \<Rightarrow> ('g, 'x) psbt res" where
  "merge_sigs L psbt [] = Inr psbt"
| "merge_sigs L psbt ((i, der) # sigs) = res_bind (merge_one L psbt i der) (\<lambda>psbt'. merge_sigs L psbt' sigs)"

text \<open>The exchange over any sending operation: \<open>open_send\<close> sends the first message, \<open>send\<close> the others.\<close>

definition sign_psbt_over :: "'s send \<Rightarrow> 's send \<Rightarrow> ('g, 'x) btc_lib \<Rightarrow> btc_proto \<Rightarrow> string \<Rightarrow> u32 \<Rightarrow> ('s, string) io" where
  "sign_psbt_over open_send send L B psbt_base64 coin_type =
     io_bind (io_res (decoded ''PSBT parse: '' (psbt_from_str L psbt_base64))) (\<lambda>psbt.
     let network = (if coin_type = 1 then Testnet else Bitcoin_Network) in
     io_bind (open_send BTC_SIGN_TX (enc_btc_sign_tx B (btc_sign_request psbt coin_type))) (\<lambda>reply.
     io_bind (io_loop (sign_psbt_body send L B psbt network) (reply, [])) (\<lambda>sigs.
     io_bind (io_res (merge_sigs L psbt sigs)) (\<lambda>signed.
     io_return (psbt_to_string L signed)))))"

definition btc_sign_psbt :: "'w host \<Rightarrow> crypto \<Rightarrow> proto \<Rightarrow> ('g, 'x) btc_lib \<Rightarrow> btc_proto \<Rightarrow> string \<Rightarrow> u32 \<Rightarrow> u8 \<Rightarrow>
    ('w, string) cio" where
  "btc_sign_psbt H C P L B psbt_base64 coin_type session_id =
     sign_psbt_over (transceive_on H C P session_id) (transceive H C P) L B psbt_base64 coin_type"

text \<open>One concrete library, for evaluating the definitions.\<close>

definition demo_btc :: "(bytes, unit) btc_lib" where
  "demo_btc = \<lparr>psbt_from_str = (\<lambda>s. Inl ''empty''), psbt_to_string = (\<lambda>p. []),
     compute_txid = (\<lambda>t. replicate 31 0 @ [of_nat (length (tx_input t))]),
     address_from_script = (\<lambda>s n. Inr (map (\<lambda>b. char_of (unat b)) s)), from_der = Inr\<rparr>"

section \<open>Lemmas\<close>

lemma btc_requests:
  "chain_request (get_account_xpub H C P B path coin) (\<lambda>xpub. xpub \<noteq> [])"
  "chain_request (get_master_fingerprint H C P B) (\<lambda>fp. length fp = 4)"
  "chain_request (btc_sign_message H C P B path msg coin) (\<lambda>_. True)"
  unfolding get_account_xpub_def [abs_def] get_master_fingerprint_def [abs_def] btc_sign_message_def [abs_def]
  by (rule chain_requestI;
      auto simp: res_bind_eq_Inr xpub_of_def fingerprint_of_def split: if_splits option.splits)+

lemma btc_sign_psbt_request: "chain_request (btc_sign_psbt H C P L B b64 coin) (\<lambda>_. True)"
  unfolding btc_sign_psbt_def [abs_def] sign_psbt_over_def sign_psbt_body_def Let_def
  by (intro chain_request_res chain_request_exchange keeps_intros)

end
