(* ===== verification/Rlp.thy ===== *)
theory Rlp
  imports Prelude
begin

text \<open>
  The RLP reader and the EIP-1559 envelope decoder of \<^verbatim>\<open>chains/ethereum.rs\<close>, and the
  independent encoder of its tests.  A \<^verbatim>\<open>usize\<close> has 64 bits; lengths read from the wire
  are \<open>u64\<close> values, positions are naturals below \<open>2\<^sup>6\<^sup>4\<close>, and the additions the source makes with
  \<^verbatim>\<open>checked_add\<close> are checked here.
\<close>

section \<open>Decoding\<close>

definition checked_add :: "nat \<Rightarrow> nat \<Rightarrow> nat option" where
  "checked_add a b = (if a + b < 2 ^ 64 then Some (a + b) else None)"

text \<open>The fold \<^verbatim>\<open>v = (v << 8) | b\<close> over a word of 64 bits.\<close>

definition be_to_u64 :: "bytes \<Rightarrow> u64" where
  "be_to_u64 bs = foldl (\<lambda>v b. push_bit 8 v OR ucast b) 0 bs"

definition rlp_read_len :: "bytes \<Rightarrow> nat \<Rightarrow> nat \<Rightarrow> (nat \<times> nat) res" where
  "rlp_read_len buf pos n = (case checked_add pos n of
     None \<Rightarrow> thp_err ''RLP length-prefix overflow''
   | Some end_pos \<Rightarrow>
       if length buf < end_pos then thp_err ''RLP length-prefix exceeds buffer''
       else res_bind (slice buf pos end_pos) (\<lambda>bs. Inr (unat (be_to_u64 bs), end_pos)))"

text \<open>The header of an item that is not a single byte: kind, payload length, payload position.\<close>

definition rlp_header :: "bytes \<Rightarrow> nat \<Rightarrow> nat \<Rightarrow> (bool \<times> nat \<times> nat) res" where
  "rlp_header buf b pos =
     (if b \<le> 0xb7 then Inr (False, b - 0x80, pos)
      else if b \<le> 0xbf then res_bind (rlp_read_len buf pos (b - 0xb7)) (\<lambda>(len, p). Inr (False, len, p))
      else if b \<le> 0xf7 then Inr (True, b - 0xc0, pos)
      else res_bind (rlp_read_len buf pos (b - 0xf7)) (\<lambda>(len, p). Inr (True, len, p)))"

definition rlp_payload :: "bytes \<Rightarrow> bool \<times> nat \<times> nat \<Rightarrow> (bool \<times> bytes \<times> nat) res" where
  "rlp_payload buf = (\<lambda>(is_list, len, pos). case checked_add pos len of
     None \<Rightarrow> thp_err ''RLP length overflow''
   | Some end_pos \<Rightarrow>
       if length buf < end_pos then thp_err ''RLP item length exceeds buffer''
       else res_bind (slice buf pos end_pos) (\<lambda>payload. Inr (is_list, payload, end_pos)))"

definition rlp_read :: "bytes \<Rightarrow> nat \<Rightarrow> (bool \<times> bytes \<times> nat) res" where
  "rlp_read buf pos =
     (if \<not> pos < length buf then thp_err ''RLP truncated''
      else
        let b = unat (buf ! pos); pos1 = pos + 1 in
        if b \<le> 0x7f then Inr (False, [buf ! pos], pos1)
        else res_bind (rlp_header buf b pos1) (rlp_payload buf))"

lemma rlp_read_len_pos: "rlp_read_len buf pos n = Inr (len, p) \<Longrightarrow> p = pos + n \<and> p \<le> length buf"
  by (auto simp: rlp_read_len_def checked_add_def slice_simps split: if_splits option.splits)

lemma rlp_read_pos: "rlp_read buf pos = Inr (l, item, p) \<Longrightarrow> pos < p \<and> p \<le> length buf"
  by (auto simp: rlp_read_def rlp_header_def rlp_payload_def Let_def checked_add_def res_bind_eq_Inr
      dest!: rlp_read_len_pos split: if_splits option.splits)

text \<open>The item loop of \<open>rlp_decode_list\<close>; every read moves the position forward.\<close>

function rlp_items :: "bytes \<Rightarrow> nat \<Rightarrow> bytes list res" where
  "rlp_items payload ipos =
     (if ipos < length payload then
        case rlp_read payload ipos of
          Inl e \<Rightarrow> Inl e
        | Inr (_, item, ipos') \<Rightarrow> res_bind (rlp_items payload ipos') (\<lambda>items. Inr (item # items))
      else Inr [])"
  by pat_completeness auto
termination
  by (relation "measure (\<lambda>(payload, ipos). length payload - ipos)") (auto dest!: rlp_read_pos)

declare rlp_items.simps [simp del]

definition rlp_decode_list :: "bytes \<Rightarrow> bytes list res" where
  "rlp_decode_list buf =
     res_bind (rlp_read buf 0) (\<lambda>(is_list, payload, _).
     if \<not> is_list then thp_err ''EIP-1559 envelope body is not an RLP list''
     else rlp_items payload 0)"

record eip1559_tx =
  tx_chain_id :: u64
  tx_nonce :: bytes
  tx_max_priority_fee :: bytes
  tx_max_fee :: bytes
  tx_gas_limit :: bytes
  tx_to :: bytes
  tx_value :: bytes
  tx_data :: bytes

definition decode_eip1559_envelope :: "bytes \<Rightarrow> eip1559_tx res" where
  "decode_eip1559_envelope envelope =
     (if envelope = [] \<or> hd envelope \<noteq> 0x02 then thp_err ''not an EIP-1559 (0x02-typed) envelope''
      else
        res_bind (slice envelope 1 (length envelope)) (\<lambda>body.
        res_bind (rlp_decode_list body) (\<lambda>items.
        if length items < 8 then
          thp_err (''EIP-1559 payload has '' @ show_nat (length items) @ '' items, expected at least 8'')
        else Inr \<lparr>tx_chain_id = be_to_u64 (items ! 0), tx_nonce = items ! 1,
          tx_max_priority_fee = items ! 2, tx_max_fee = items ! 3, tx_gas_limit = items ! 4,
          tx_to = items ! 5, tx_value = items ! 6, tx_data = items ! 7\<rparr>)))"

definition hex_lower :: "bytes \<Rightarrow> string" where
  "hex_lower bs = concat (map hex2 bs)"

section \<open>The test encoder\<close>

text \<open>\<open>minimal_be\<close>: the loop pushes low bytes and reverses at the end.\<close>

fun minimal_be_loop :: "nat \<Rightarrow> bytes" where
  "minimal_be_loop n = (if n = 0 then [] else of_nat (n mod 256) # minimal_be_loop (n div 256))"

declare minimal_be_loop.simps [simp del]

definition minimal_be :: "nat \<Rightarrow> bytes" where
  "minimal_be n = rev (minimal_be_loop n)"

definition rlp_str_prefix :: "nat \<Rightarrow> bytes" where
  "rlp_str_prefix len = (if len < 56 then [0x80 + of_nat len]
     else let lb = minimal_be len in (0xb7 + of_nat (length lb)) # lb)"

definition rlp_bytes :: "bytes \<Rightarrow> bytes" where
  "rlp_bytes data = (if length data = 1 \<and> data ! 0 < 0x80 then data
     else rlp_str_prefix (length data) @ data)"

definition rlp_list :: "bytes list \<Rightarrow> bytes" where
  "rlp_list items =
     (let inner = concat items in
      (if length inner < 56 then [0xc0 + of_nat (length inner)]
       else let lb = minimal_be (length inner) in (0xf7 + of_nat (length lb)) # lb) @ inner)"

section \<open>Lemmas\<close>

lemma rlp_read_len_nopanic [nopanic]: "\<not> is_panic (rlp_read_len buf pos n)"
  by (auto simp: rlp_read_len_def checked_add_def slice_simps split: option.splits)

lemma rlp_payload_nopanic [nopanic]: "\<not> is_panic (rlp_payload buf h)"
  by (auto simp: rlp_payload_def checked_add_def slice_simps split: option.splits prod.splits)

lemma rlp_header_nopanic [nopanic]: "\<not> is_panic (rlp_header buf b pos)"
  unfolding rlp_header_def split_beta by (intro nopanic)

lemma rlp_read_nopanic [nopanic]: "\<not> is_panic (rlp_read buf pos)"
  unfolding rlp_read_def Let_def by (intro nopanic)

lemma rlp_items_nopanic [nopanic]: "\<not> is_panic (rlp_items payload ipos)"
proof (induction payload ipos rule: rlp_items.induct)
  case (1 payload ipos)
  then show ?case
    using rlp_read_nopanic [of payload ipos]
    by (subst rlp_items.simps) (auto simp: is_panic_Inl split: sum.splits)
qed

text \<open>The value of a byte string as a big-endian number.\<close>

definition be_value :: "bytes \<Rightarrow> nat" where
  "be_value bs = foldl (\<lambda>v b. 256 * v + unat b) 0 bs"

lemma be_value_snoc: "be_value (bs @ [b]) = 256 * be_value bs + unat b"
  by (simp add: be_value_def)

lemma shift_or: "push_bit 8 (v :: u64) OR ucast (b :: u8) = 256 * v + ucast b"
proof -
  have "push_bit 8 v AND ucast b = 0"
    by (rule bit_word_eqI) (auto simp: bit_simps dest: bit_imp_le_length)
  then have "push_bit 8 v OR ucast b = push_bit 8 v + ucast b"
    by (simp add: disjunctive_add_eq_or)
  then show ?thesis by (simp add: push_bit_eq_mult ac_simps)
qed

lemma be_to_u64_value: "be_to_u64 bs = of_nat (be_value bs)"
proof (induction bs rule: rev_induct)
  case (snoc b bs)
  then show ?case by (simp add: be_to_u64_def shift_or be_value_def)
qed (simp add: be_to_u64_def be_value_def)

lemma minimal_be_unfold: "0 < n \<Longrightarrow> minimal_be n = minimal_be (n div 256) @ [of_nat (n mod 256)]"
  unfolding minimal_be_def by (subst minimal_be_loop.simps) simp

lemma minimal_be_0: "minimal_be 0 = []"
  unfolding minimal_be_def by (subst minimal_be_loop.simps) simp

lemma be_value_minimal_be: "be_value (minimal_be n) = n"
proof (induction n rule: less_induct)
  case (less n)
  show ?case
  proof (cases "n = 0")
    case False
    then have "be_value (minimal_be (n div 256)) = n div 256" by (intro less) simp
    moreover have "unat (of_nat (n mod 256) :: u8) = n mod 256" by (rule unat_of_nat_small) simp
    ultimately show ?thesis using False by (simp add: minimal_be_unfold be_value_snoc)
  qed (simp add: minimal_be_0 be_value_def)
qed

lemma length_minimal_be: "n < 256 ^ k \<Longrightarrow> length (minimal_be n) \<le> k"
proof (induction k arbitrary: n)
  case (Suc k)
  show ?case
  proof (cases "n = 0")
    case False
    have "n div 256 < 256 ^ k" using Suc.prems by (simp add: less_mult_imp_div_less mult.commute)
    with Suc.IH [of "n div 256"] False show ?thesis by (simp add: minimal_be_unfold)
  qed (simp add: minimal_be_0)
qed (simp add: minimal_be_0)

lemma minimal_be_64:
  assumes "n < 2 ^ 64"
  shows "unat (be_to_u64 (minimal_be n)) = n" "length (minimal_be n) \<le> 8"
    and "0 < n \<Longrightarrow> minimal_be n \<noteq> []"
  using assms length_minimal_be [of n 8]
  by (auto simp: be_to_u64_value be_value_minimal_be unat_of_nat_small minimal_be_unfold)

text \<open>Reading back an item wherever it stands in the buffer.\<close>

lemma rlp_read_long:
  assumes "lb = minimal_be (length body)" "56 \<le> length body" "buf = pre @ (c # lb @ body) @ post"
    and "length buf < 2 ^ 64" "unat c = base + length lb" "base = 0xb7 \<or> base = 0xf7"
  shows "rlp_read buf (length pre) = Inr (base = 0xf7, body, length pre + length (c # lb @ body))"
proof -
  have len: "length body < 2 ^ 64" using assms(3,4) by simp
  note lb = minimal_be_64 [OF len, folded assms(1)]
  have "0 < length body" using assms(2) by linarith
  with lb(3) have pos: "0 < length lb" by blast
  have "slice buf (Suc (length pre)) (Suc (length pre) + length lb) = Inr lb"
    by (simp add: assms(3) slice_def)
  then have "rlp_read_len buf (Suc (length pre)) (length lb) = Inr (length body, Suc (length pre) + length lb)"
    using assms(3,4) lb(1) by (simp add: rlp_read_len_def checked_add_def)
  then have "rlp_header buf (unat c) (Suc (length pre)) = Inr (base = 0xf7, length body, Suc (length pre) + length lb)"
    using assms(5,6) lb(2) pos by (auto simp: rlp_header_def)
  moreover have "rlp_payload buf (base = 0xf7, length body, Suc (length pre) + length lb)
      = Inr (base = 0xf7, body, length pre + length (c # lb @ body))"
    using assms(3,4) by (simp add: rlp_payload_def checked_add_def slice_def)
  moreover have "buf ! length pre = c" "length pre < length buf" by (simp_all add: assms(3) nth_append)
  moreover have "\<not> unat c \<le> 0x7f" using assms(5,6) by auto
  ultimately show ?thesis by (simp add: rlp_read_def Let_def)
qed

lemma rlp_read_short:
  assumes "length body < 56" "buf = pre @ (c # body) @ post" "length buf < 2 ^ 64"
    and "unat c = base + length body" "base = 0x80 \<or> base = 0xc0"
  shows "rlp_read buf (length pre) = Inr (base = 0xc0, body, length pre + length (c # body))"
proof -
  have "rlp_header buf (unat c) (Suc (length pre)) = Inr (base = 0xc0, length body, Suc (length pre))"
    using assms by (auto simp: rlp_header_def)
  moreover have "rlp_payload buf (base = 0xc0, length body, Suc (length pre))
      = Inr (base = 0xc0, body, length pre + length (c # body))"
    using assms(2,3) by (simp add: rlp_payload_def checked_add_def slice_def)
  moreover have "buf ! length pre = c" "length pre < length buf" "\<not> unat c \<le> 0x7f"
    using assms by (auto simp: nth_append)
  ultimately show ?thesis by (simp add: rlp_read_def Let_def)
qed

lemma unat_tag:
  "k + n < 256 \<Longrightarrow> unat (of_nat k + of_nat n :: u8) = k + n"
  using unat_of_nat_small [of "k + n", where 'a = 8] by simp

lemma rlp_read_bytes:
  assumes "buf = pre @ rlp_bytes data @ post" "length buf < 2 ^ 64"
  shows "rlp_read buf (length pre) = Inr (False, data, length pre + length (rlp_bytes data))"
proof (cases "length data = 1 \<and> data ! 0 < 0x80")
  case True
  then obtain b where b: "data = [b]" "b < 0x80" by (cases data) auto
  with assms(1) have "buf = pre @ b # post" by (simp add: rlp_bytes_def)
  moreover have "unat b \<le> 0x7f" using b(2) by (simp add: word_less_nat_alt)
  ultimately show ?thesis using b by (simp add: rlp_read_def rlp_bytes_def nth_append)
next
  case False
  then have enc: "rlp_bytes data = rlp_str_prefix (length data) @ data" by (auto simp: rlp_bytes_def)
  show ?thesis
  proof (cases "length data < 56")
    case True
    with enc assms unat_tag [of "0x80" "length data"] show ?thesis
      using rlp_read_short [of data buf pre "0x80 + of_nat (length data)" post "0x80"]
      by (simp add: rlp_str_prefix_def)
  next
    case False
    let ?lb = "minimal_be (length data)"
    have "length ?lb \<le> 8" using minimal_be_64 [of "length data"] assms enc by simp
    with False enc assms unat_tag [of "0xb7" "length ?lb"] show ?thesis
      using rlp_read_long [OF refl, of data buf pre "0xb7 + of_nat (length ?lb)" post "0xb7"]
      by (simp add: rlp_str_prefix_def Let_def)
  qed
qed

lemma rlp_read_list:
  assumes "buf = pre @ rlp_list items @ post" "length buf < 2 ^ 64"
  shows "rlp_read buf (length pre) = Inr (True, concat items, length pre + length (rlp_list items))"
proof (cases "length (concat items) < 56")
  case True
  with assms unat_tag [of "0xc0" "length (concat items)"] show ?thesis
    using rlp_read_short [of "concat items" buf pre "0xc0 + of_nat (length (concat items))" post "0xc0"]
    by (simp add: rlp_list_def Let_def)
next
  case False
  let ?lb = "minimal_be (length (concat items))"
  have "length ?lb \<le> 8" using minimal_be_64 [of "length (concat items)"] assms by (simp add: rlp_list_def Let_def)
  with False assms unat_tag [of "0xf7" "length ?lb"] show ?thesis
    using rlp_read_long [OF refl, of "concat items" buf pre "0xf7 + of_nat (length ?lb)" post "0xf7"]
    by (simp add: rlp_list_def Let_def)
qed

text \<open>An item of a list: a byte string or a nested list of already encoded items.\<close>

datatype rlp_item = Bytes bytes | Nested "bytes list"

primrec enc_item :: "rlp_item \<Rightarrow> bytes" where
  "enc_item (Bytes b) = rlp_bytes b"
| "enc_item (Nested items) = rlp_list items"

primrec item_payload :: "rlp_item \<Rightarrow> bytes" where
  "item_payload (Bytes b) = b"
| "item_payload (Nested items) = concat items"

lemma rlp_read_item:
  assumes "buf = pre @ enc_item it @ post" "length buf < 2 ^ 64"
  shows "\<exists>l. rlp_read buf (length pre) = Inr (l, item_payload it, length pre + length (enc_item it))"
  using assms rlp_read_bytes rlp_read_list by (cases it) auto

lemma enc_item_nonempty: "enc_item it \<noteq> []"
  by (cases it) (auto simp: rlp_bytes_def rlp_str_prefix_def rlp_list_def Let_def)

lemma rlp_items_encoded:
  assumes "payload = pre @ concat (map enc_item its)" "length payload < 2 ^ 64"
  shows "rlp_items payload (length pre) = Inr (map item_payload its)"
  using assms
proof (induction its arbitrary: pre)
  case Nil
  then show ?case by (subst rlp_items.simps) simp
next
  case (Cons it its)
  then have p: "payload = (pre @ enc_item it) @ concat (map enc_item its)" by simp
  obtain l where "rlp_read payload (length pre) = Inr (l, item_payload it, length (pre @ enc_item it))"
    using rlp_read_item [of payload pre it] Cons.prems by auto
  with Cons.IH [OF p Cons.prems(2)] enc_item_nonempty [of it] show ?case
    by (subst rlp_items.simps) (simp add: p)
qed

lemma rlp_decode_encoded:
  assumes "length (rlp_list (map enc_item its)) < 2 ^ 64"
  shows "rlp_decode_list (rlp_list (map enc_item its)) = Inr (map item_payload its)"
proof -
  have "rlp_read (rlp_list (map enc_item its)) 0 =
      Inr (True, concat (map enc_item its), length (rlp_list (map enc_item its)))"
    using rlp_read_list [of _ "[]" "map enc_item its" "[]"] assms by simp
  moreover have "length (concat (map enc_item its)) < 2 ^ 64"
    using assms by (simp add: rlp_list_def Let_def split: if_splits)
  ultimately show ?thesis
    using rlp_items_encoded [of _ "[]" its] by (simp add: rlp_decode_list_def)
qed

lemma decode_envelope_encoded:
  assumes "its = [Bytes chain, Bytes nonce, Bytes prio, Bytes fee, Bytes gas, Bytes to, Bytes val, Bytes dat] @ rest"
    and "length (rlp_list (map enc_item its)) < 2 ^ 64"
  shows "decode_eip1559_envelope (0x02 # rlp_list (map enc_item its)) =
    Inr \<lparr>tx_chain_id = of_nat (be_value chain), tx_nonce = nonce, tx_max_priority_fee = prio,
      tx_max_fee = fee, tx_gas_limit = gas, tx_to = to, tx_value = val, tx_data = dat\<rparr>"
  using rlp_decode_encoded [OF assms(2)]
  by (simp add: decode_eip1559_envelope_def slice_def assms(1) be_to_u64_value)

section \<open>Properties\<close>

text \<open>The decoder is total and never panics, whatever bytes it is given.\<close>

lemma decode_eip1559_nopanic [nopanic]: "\<not> is_panic (decode_eip1559_envelope envelope)"
proof (cases envelope)
  case (Cons b body)
  then have "slice envelope 1 (length envelope) = Inr body" by (simp add: slice_def)
  moreover have "\<not> is_panic (rlp_decode_list body)"
    unfolding rlp_decode_list_def split_beta by (intro nopanic)
  ultimately show ?thesis
    unfolding decode_eip1559_envelope_def by (simp del: is_panic_map, intro impI nopanic)
qed (simp add: decode_eip1559_envelope_def)

text \<open>
  C24: an envelope built by the independent encoder decodes to its fields unchanged, whatever the
  number of further items and the nested access list; the chain id is the big-endian value of its
  field modulo \<open>2\<^sup>6\<^sup>4\<close>, so a longer chain id field is silently truncated.
\<close>

theorem decode_eip1559_encoded:
  assumes "its = [Bytes chain, Bytes nonce, Bytes prio, Bytes fee, Bytes gas, Bytes to, Bytes val, Bytes dat] @ rest"
    and "length (rlp_list (map enc_item its)) < 2 ^ 64"
  shows "\<exists>tx. decode_eip1559_envelope (0x02 # rlp_list (map enc_item its)) = Inr tx
    \<and> unat (tx_chain_id tx) = be_value chain mod 2 ^ 64 \<and> tx_nonce tx = nonce
    \<and> tx_max_priority_fee tx = prio \<and> tx_max_fee tx = fee \<and> tx_gas_limit tx = gas
    \<and> tx_to tx = to \<and> tx_value tx = val \<and> tx_data tx = dat"
  using decode_envelope_encoded [OF assms] by (simp add: unat_of_nat)

theorem decode_eip1559_encoded_witness:
  "\<exists>tx. decode_eip1559_envelope (0x02 # rlp_list (map enc_item
      [Bytes [1, 0, 0, 0, 0, 0, 0, 0, 5], Bytes [5], Bytes [1], Bytes [2], Bytes [0x52, 8],
       Bytes (replicate 20 0x11), Bytes [], Bytes (replicate 68 0xa9), Nested []])) = Inr tx
    \<and> unat (tx_chain_id tx) = 5 \<and> tx_nonce tx = [5] \<and> tx_data tx = replicate 68 0xa9"
proof -
  let ?its = "[Bytes [1, 0, 0, 0, 0, 0, 0, 0, 5], Bytes [5], Bytes [1], Bytes [2], Bytes [0x52, 8],
       Bytes (replicate 20 0x11), Bytes [], Bytes (replicate 68 0xa9)] @ [Nested []]"
  have "length (rlp_list (map enc_item ?its)) < 2 ^ 64"
    by (simp add: rlp_list_def rlp_bytes_def rlp_str_prefix_def Let_def minimal_be_def minimal_be_loop.simps)
  from decode_eip1559_encoded [OF refl this] show ?thesis by (auto simp: be_value_def)
qed

end
