(* ===== verification/Ethereum.thy ===== *)
theory Ethereum
  imports Chain_Call Rlp
begin

text \<open>
  The Ethereum requests of \<^verbatim>\<open>chains/ethereum.rs\<close> over a seeded session: address, public
  key, message signatures and EIP-1559 transactions.
\<close>

definition ETH_GET_ADDRESS :: u16 where "ETH_GET_ADDRESS = 56"
definition ETH_ADDRESS :: u16 where "ETH_ADDRESS = 57"
definition ETH_GET_PUBLIC_KEY :: u16 where "ETH_GET_PUBLIC_KEY = 450"
definition ETH_PUBLIC_KEY :: u16 where "ETH_PUBLIC_KEY = 451"
definition ETH_SIGN_MESSAGE :: u16 where "ETH_SIGN_MESSAGE = 64"
definition ETH_MESSAGE_SIGNATURE :: u16 where "ETH_MESSAGE_SIGNATURE = 66"
definition ETH_SIGN_TX_EIP1559 :: u16 where "ETH_SIGN_TX_EIP1559 = 452"
definition ETH_TX_REQUEST :: u16 where "ETH_TX_REQUEST = 59"

text \<open>The fields the crate sets of \<^verbatim>\<open>EthereumSignTxEip1559\<close> and reads of \<^verbatim>\<open>EthereumTxRequest\<close>.\<close>

record eth_sign_tx =
  es_address_n :: "u32 list"
  es_nonce :: bytes
  es_max_gas_fee :: bytes
  es_max_priority_fee :: bytes
  es_gas_limit :: bytes
  es_to :: "string option"
  es_value :: bytes
  es_data_initial_chunk :: "bytes option"
  es_data_length :: u32
  es_chain_id :: u64

record eth_tx_request =
  er_signature_v :: "u32 option"
  er_signature_r :: "bytes option"
  er_signature_s :: "bytes option"

record eth_proto =
  enc_eth_get_address :: "u32 list \<Rightarrow> bool option \<Rightarrow> bytes"
  dec_eth_address :: "bytes \<Rightarrow> string + string option"
  enc_eth_get_public_key :: "u32 list \<Rightarrow> bool option \<Rightarrow> bytes"
  dec_eth_public_key :: "bytes \<Rightarrow> string + bytes"
  enc_eth_sign_message :: "u32 list \<Rightarrow> bytes \<Rightarrow> bytes"
  dec_eth_message_signature :: "bytes \<Rightarrow> string + bytes"
  enc_eth_sign_tx :: "eth_sign_tx \<Rightarrow> bytes"
  dec_eth_tx_request :: "bytes \<Rightarrow> string + eth_tx_request"

definition eth_address_of :: "string option \<Rightarrow> string res" where
  "eth_address_of a = (case a of None \<Rightarrow> thp_err ''EthereumAddress missing address'' | Some s \<Rightarrow> Inr s)"

definition eth_get_address :: "'w host \<Rightarrow> crypto \<Rightarrow> proto \<Rightarrow> eth_proto \<Rightarrow> u32 list \<Rightarrow> u8 \<Rightarrow> ('w, string) cio" where
  "eth_get_address H C P E path session_id =
     io_bind (transceive_on H C P session_id ETH_GET_ADDRESS (enc_eth_get_address E path (Some False))) (\<lambda>reply.
     io_res (res_bind (expect_reply ''EthereumAddress'' ETH_ADDRESS (dec_eth_address E) reply) eth_address_of))"

definition eth_account_path :: "u32 \<Rightarrow> u32 list" where
  "eth_account_path account = [0x8000002C, 0x8000003C, 0x80000000 OR account, 0, 0]"

definition eth_get_public_key :: "'w host \<Rightarrow> crypto \<Rightarrow> proto \<Rightarrow> eth_proto \<Rightarrow> u32 list \<Rightarrow> u8 \<Rightarrow> ('w, bytes) cio" where
  "eth_get_public_key H C P E path session_id =
     io_bind (transceive_on H C P session_id ETH_GET_PUBLIC_KEY (enc_eth_get_public_key E path (Some False))) (\<lambda>reply.
     io_res (expect_reply ''EthereumPublicKey'' ETH_PUBLIC_KEY (dec_eth_public_key E) reply))"

text \<open>The two message signatures differ in how much of the device's signature they keep.\<close>

definition sig_prefix :: "nat \<Rightarrow> bytes \<Rightarrow> bytes res" where
  "sig_prefix n sig =
     (if length sig < n then thp_err (''Ethereum signature shorter than '' @ show_nat n @ '' bytes'')
      else slice sig 0 n)"

definition eth_sign_message_with :: "nat \<Rightarrow> 'w host \<Rightarrow> crypto \<Rightarrow> proto \<Rightarrow> eth_proto \<Rightarrow> u32 list \<Rightarrow> bytes \<Rightarrow> u8 \<Rightarrow> ('w, bytes) cio" where
  "eth_sign_message_with n H C P E path message session_id =
     io_bind (transceive_on H C P session_id ETH_SIGN_MESSAGE (enc_eth_sign_message E path message)) (\<lambda>reply.
     io_res (res_bind (expect_reply ''EthereumMessageSignature'' ETH_MESSAGE_SIGNATURE (dec_eth_message_signature E) reply)
       (sig_prefix n)))"

definition eth_sign_message :: "'w host \<Rightarrow> crypto \<Rightarrow> proto \<Rightarrow> eth_proto \<Rightarrow> u32 list \<Rightarrow> bytes \<Rightarrow> u8 \<Rightarrow> ('w, bytes) cio" where
  "eth_sign_message = eth_sign_message_with 64"

definition eth_sign_message_full :: "'w host \<Rightarrow> crypto \<Rightarrow> proto \<Rightarrow> eth_proto \<Rightarrow> u32 list \<Rightarrow> bytes \<Rightarrow> u8 \<Rightarrow> ('w, bytes) cio" where
  "eth_sign_message_full = eth_sign_message_with 65"

definition eth_sign_request :: "u32 list \<Rightarrow> eip1559_tx \<Rightarrow> eth_sign_tx" where
  "eth_sign_request path tx = \<lparr>es_address_n = path, es_nonce = tx_nonce tx, es_max_gas_fee = tx_max_fee tx,
     es_max_priority_fee = tx_max_priority_fee tx, es_gas_limit = tx_gas_limit tx,
     es_to = Some (if tx_to tx = [] then [] else ''0x'' @ hex_lower (tx_to tx)), es_value = tx_value tx,
     es_data_initial_chunk = Some (tx_data tx), es_data_length = of_nat (length (tx_data tx)),
     es_chain_id = tx_chain_id tx\<rparr>"

definition eth_signature_of :: "eth_tx_request \<Rightarrow> secp256k1_signature res" where
  "eth_signature_of req = (case (er_signature_r req, er_signature_s req) of
     (Some r, Some s) \<Rightarrow>
       let raw_v = case_option 0 id (er_signature_v req);
           v = (if 27 \<le> raw_v then ucast (raw_v - 27) else ucast raw_v)
       in Inr \<lparr>sig_v = v, sig_r = r, sig_s = s\<rparr>
   | _ \<Rightarrow> thp_err ''EthereumTxRequest carried no signature (device asked for more data?)'')"

definition sign_eip1559 :: "'w host \<Rightarrow> crypto \<Rightarrow> proto \<Rightarrow> eth_proto \<Rightarrow> u32 list \<Rightarrow> bytes \<Rightarrow> u8 \<Rightarrow> ('w, secp256k1_signature) cio" where
  "sign_eip1559 H C P E path envelope session_id =
     io_bind (io_res (decode_eip1559_envelope envelope)) (\<lambda>tx.
     io_bind (transceive_on H C P session_id ETH_SIGN_TX_EIP1559 (enc_eth_sign_tx E (eth_sign_request path tx))) (\<lambda>reply.
     io_res (res_bind (expect_reply ''EthereumTxRequest'' ETH_TX_REQUEST (dec_eth_tx_request E) reply) eth_signature_of)))"

section \<open>Lemmas\<close>

lemma sig_prefix_Inr: "sig_prefix n sig = Inr s \<Longrightarrow> length s = n"
  by (auto simp: sig_prefix_def slice_simps split: if_splits)

lemma eth_sign_message_with_request:
  "chain_request (\<lambda>sid. eth_sign_message_with n H C P E path msg sid) (\<lambda>sig. length sig = n)"
  unfolding eth_sign_message_with_def
  by (rule chain_requestI) (auto simp: res_bind_eq_Inr dest: sig_prefix_Inr)

lemma eth_message_signatures:
  "chain_request (\<lambda>sid. eth_sign_message H C P E path msg sid) (\<lambda>sig. length sig = 64)
   \<and> chain_request (\<lambda>sid. eth_sign_message_full H C P E path msg sid) (\<lambda>sig. length sig = 65)"
  by (simp add: eth_sign_message_def eth_sign_message_full_def eth_sign_message_with_request)

section \<open>Properties\<close>


definition demo_eth :: eth_proto where
  "demo_eth = \<lparr>enc_eth_get_address = (\<lambda>p d. []), dec_eth_address = (\<lambda>b. Inr (Some ''0x'')),
     enc_eth_get_public_key = (\<lambda>p d. []), dec_eth_public_key = Inr, enc_eth_sign_message = (\<lambda>p m. m),
     dec_eth_message_signature = Inr, enc_eth_sign_tx = (\<lambda>r. es_nonce r),
     dec_eth_tx_request = (\<lambda>b. Inr \<lparr>er_signature_v = Some 28, er_signature_r = Some b, er_signature_s = Some b\<rparr>)\<rparr>"



end
