(* ===== verification/Solana.thy ===== *)
theory Solana
  imports Chain_Call
begin

text \<open>The Solana requests of \<^verbatim>\<open>chains/solana.rs\<close>: address, transaction and message signatures.\<close>

definition SOL_GET_ADDRESS :: u16 where "SOL_GET_ADDRESS = 902"
definition SOL_ADDRESS :: u16 where "SOL_ADDRESS = 903"
definition SOL_SIGN_TX :: u16 where "SOL_SIGN_TX = 904"
definition SOL_TX_SIGNATURE :: u16 where "SOL_TX_SIGNATURE = 905"
definition SOL_SIGN_MESSAGE :: u16 where "SOL_SIGN_MESSAGE = 906"
definition SOL_MESSAGE_SIGNATURE :: u16 where "SOL_MESSAGE_SIGNATURE = 907"

record sol_proto =
  enc_sol_get_address :: "u32 list \<Rightarrow> bool option \<Rightarrow> bytes"
  dec_sol_address :: "bytes \<Rightarrow> string + string"
  enc_sol_sign_tx :: "u32 list \<Rightarrow> bytes \<Rightarrow> bytes"
  dec_sol_tx_signature :: "bytes \<Rightarrow> string + bytes"
  enc_sol_sign_message :: "u32 list \<Rightarrow> bytes \<Rightarrow> bytes"
  dec_sol_message_signature :: "bytes \<Rightarrow> string + bytes"

definition sol_account_path :: "u32 \<Rightarrow> u32 list" where
  "sol_account_path account =
     [0x80000000 OR 44, 0x80000000 OR 501, 0x80000000 OR account, 0x80000000]"

definition nonempty :: "string \<Rightarrow> string \<Rightarrow> string res" where
  "nonempty what addr = (if addr = [] then thp_err (what @ '' carried an empty address'') else Inr addr)"

definition sol_get_address :: "'w host \<Rightarrow> crypto \<Rightarrow> proto \<Rightarrow> sol_proto \<Rightarrow> u32 list \<Rightarrow> u8 \<Rightarrow> ('w, string) cio" where
  "sol_get_address H C P S path session_id =
     io_bind (transceive_on H C P session_id SOL_GET_ADDRESS (enc_sol_get_address S path (Some False))) (\<lambda>reply.
     io_res (res_bind (expect_reply ''SolanaAddress'' SOL_ADDRESS (dec_sol_address S) reply)
       (nonempty ''SolanaAddress'')))"

definition sig64 :: "string \<Rightarrow> bytes \<Rightarrow> bytes res" where
  "sig64 what sig = (if length sig \<noteq> 64
     then thp_err (what @ '' was '' @ show_nat (length sig) @ '' bytes, expected 64'') else Inr sig)"

definition sol_sign_tx :: "'w host \<Rightarrow> crypto \<Rightarrow> proto \<Rightarrow> sol_proto \<Rightarrow> u32 list \<Rightarrow> bytes \<Rightarrow> u8 \<Rightarrow> ('w, bytes) cio" where
  "sol_sign_tx H C P S path serialized_tx session_id =
     io_bind (transceive_on H C P session_id SOL_SIGN_TX (enc_sol_sign_tx S path serialized_tx)) (\<lambda>reply.
     io_res (res_bind (expect_reply ''SolanaTxSignature'' SOL_TX_SIGNATURE (dec_sol_tx_signature S) reply)
       (sig64 ''Solana signature'')))"

definition sol_sign_message :: "'w host \<Rightarrow> crypto \<Rightarrow> proto \<Rightarrow> sol_proto \<Rightarrow> u32 list \<Rightarrow> bytes \<Rightarrow> u8 \<Rightarrow> ('w, bytes) cio" where
  "sol_sign_message H C P S path message session_id =
     io_bind (transceive_on H C P session_id SOL_SIGN_MESSAGE (enc_sol_sign_message S path message)) (\<lambda>reply.
     io_res (res_bind (expect_reply ''SolanaMessageSignature'' SOL_MESSAGE_SIGNATURE (dec_sol_message_signature S) reply)
       (sig64 ''Solana message signature'')))"

section \<open>Properties\<close>

lemma solana_replies:
  "chain_request (\<lambda>sid. sol_get_address H C P S path sid) (\<lambda>addr. addr \<noteq> [])
   \<and> chain_request (\<lambda>sid. sol_sign_tx H C P S path tx sid) (\<lambda>sig. length sig = 64)
   \<and> chain_request (\<lambda>sid. sol_sign_message H C P S path msg sid) (\<lambda>sig. length sig = 64)"
  unfolding sol_get_address_def sol_sign_tx_def sol_sign_message_def
  by (intro conjI chain_requestI) (auto simp: res_bind_eq_Inr nonempty_def sig64_def split: if_splits)

end
