(* ===== verification/Tron.thy ===== *)
theory Tron
  imports Chain_Call
begin

text \<open>
  The Tron requests of \<^verbatim>\<open>chains/tron.rs\<close>: the address, and the two-step signing exchange
  (header first, then the contract the device asks for).
\<close>

definition TRON_GET_ADDRESS :: u16 where "TRON_GET_ADDRESS = 2200"
definition TRON_ADDRESS :: u16 where "TRON_ADDRESS = 2201"
definition TRON_SIGN_TX :: u16 where "TRON_SIGN_TX = 2202"
definition TRON_SIGNATURE :: u16 where "TRON_SIGNATURE = 2203"
definition TRON_CONTRACT_REQUEST :: u16 where "TRON_CONTRACT_REQUEST = 2204"
definition TRON_TRANSFER_CONTRACT :: u16 where "TRON_TRANSFER_CONTRACT = 2205"
definition TRON_TRIGGER_SMART_CONTRACT :: u16 where "TRON_TRIGGER_SMART_CONTRACT = 2206"

text \<open>The generated message types, with the fields the crate reads or sets.\<close>

record tron_raw_contract =
  rc_type :: int
  rc_value :: bytes

record tron_raw =
  rt_ref_block_bytes :: bytes
  rt_ref_block_hash :: bytes
  rt_expiration :: u64
  rt_data :: "bytes option"
  rt_contract :: "tron_raw_contract list"
  rt_timestamp :: u64
  rt_fee_limit :: "u64 option"

record tron_sign_tx_msg =
  ts_address_n :: "u32 list"
  ts_ref_block_bytes :: bytes
  ts_ref_block_hash :: bytes
  ts_expiration :: u64
  ts_data :: "bytes option"
  ts_timestamp :: u64
  ts_fee_limit :: "u64 option"

text \<open>
  The codecs; \<open>'t\<close> and \<open>'g\<close> are the transfer and trigger messages, which the crate only decodes
  and encodes again, and \<open>show_contract_type\<close> is the debug rendering of a contract type.
\<close>

record ('t, 'g) tron_proto =
  enc_tron_get_address :: "u32 list \<Rightarrow> bool option \<Rightarrow> bytes"
  dec_tron_address :: "bytes \<Rightarrow> string + string"
  dec_tron_raw :: "bytes \<Rightarrow> string + tron_raw"
  enc_tron_sign_tx :: "tron_sign_tx_msg \<Rightarrow> bytes"
  dec_transfer :: "bytes \<Rightarrow> string + 't"
  enc_transfer :: "'t \<Rightarrow> bytes"
  dec_trigger :: "bytes \<Rightarrow> string + 'g"
  enc_trigger :: "'g \<Rightarrow> bytes"
  dec_tron_signature :: "bytes \<Rightarrow> string + bytes"
  show_contract_type :: "int \<Rightarrow> string"

definition TransferContract :: int where "TransferContract = 1"
definition TriggerSmartContract :: int where "TriggerSmartContract = 31"

definition tron_account_path :: "u32 \<Rightarrow> u32 list" where
  "tron_account_path account = [0x80000000 OR 44, 0x80000000 OR 195, 0x80000000 OR account, 0, 0]"

definition tron_address_of :: "string \<Rightarrow> string res" where
  "tron_address_of addr = (if addr = [] then thp_err ''TronAddress carried an empty address'' else Inr addr)"

definition tron_get_address :: "'w host \<Rightarrow> crypto \<Rightarrow> proto \<Rightarrow> ('t, 'g) tron_proto \<Rightarrow> u32 list \<Rightarrow> u8 \<Rightarrow> ('w, string) cio" where
  "tron_get_address H C P T path session_id =
     io_bind (transceive_on H C P session_id TRON_GET_ADDRESS (enc_tron_get_address T path (Some False))) (\<lambda>reply.
     io_res (res_bind (expect_reply ''TronAddress'' TRON_ADDRESS (dec_tron_address T) reply) tron_address_of))"

definition tron_header :: "u32 list \<Rightarrow> tron_raw \<Rightarrow> tron_sign_tx_msg" where
  "tron_header path raw = \<lparr>ts_address_n = path, ts_ref_block_bytes = rt_ref_block_bytes raw,
     ts_ref_block_hash = rt_ref_block_hash raw, ts_expiration = rt_expiration raw, ts_data = rt_data raw,
     ts_timestamp = rt_timestamp raw, ts_fee_limit = rt_fee_limit raw\<rparr>"

definition tron_contract :: "('t, 'g) tron_proto \<Rightarrow> tron_raw_contract \<Rightarrow> (u16 \<times> bytes) res" where
  "tron_contract T contract =
     (if rc_type contract = TransferContract then
        res_bind (decoded ''TronTransferContract decode: '' (dec_transfer T (rc_value contract))) (\<lambda>c.
        Inr (TRON_TRANSFER_CONTRACT, enc_transfer T c))
      else if rc_type contract = TriggerSmartContract then
        res_bind (decoded ''TronTriggerSmartContract decode: '' (dec_trigger T (rc_value contract))) (\<lambda>c.
        Inr (TRON_TRIGGER_SMART_CONTRACT, enc_trigger T c))
      else thp_err (''unsupported Tron contract '' @ show_contract_type T (rc_type contract) @
        ''; only TRX transfer and TRC-20 (TriggerSmartContract) are supported''))"

text \<open>Everything the source resolves before it opens the exchange.\<close>

definition tron_prepare :: "('t, 'g) tron_proto \<Rightarrow> u32 list \<Rightarrow> bytes \<Rightarrow> (tron_sign_tx_msg \<times> u16 \<times> bytes) res" where
  "tron_prepare T path raw_tx_proto =
     res_bind (decoded ''Tron raw_data decode: '' (dec_tron_raw T raw_tx_proto)) (\<lambda>raw.
     case rt_contract raw of
       [] \<Rightarrow> thp_err ''Tron transaction has no contract''
     | contract # _ \<Rightarrow>
         res_bind (tron_contract T contract) (\<lambda>(contract_type, contract_body).
         Inr (tron_header path raw, contract_type, contract_body)))"

definition tron_split :: "bytes \<Rightarrow> secp256k1_signature res" where
  "tron_split sig =
     (if length sig \<noteq> 65
      then thp_err (''Tron signature was '' @ show_nat (length sig) @ '' bytes, expected 65 (r||s||v)'')
      else
        res_bind (idx sig 64) (\<lambda>v.
        res_bind (slice sig 0 32) (\<lambda>r.
        res_bind (slice sig 32 64) (\<lambda>s.
        Inr \<lparr>sig_v = v, sig_r = r, sig_s = s\<rparr>))))"

definition tron_sign_tx :: "'w host \<Rightarrow> crypto \<Rightarrow> proto \<Rightarrow> ('t, 'g) tron_proto \<Rightarrow> u32 list \<Rightarrow> bytes \<Rightarrow> u8 \<Rightarrow>
    ('w, secp256k1_signature) cio" where
  "tron_sign_tx H C P T path raw_tx_proto session_id =
     io_bind (io_res (tron_prepare T path raw_tx_proto)) (\<lambda>(sign_tx, contract_type, contract_body).
     io_bind (transceive_on H C P session_id TRON_SIGN_TX (enc_tron_sign_tx T sign_tx)) (\<lambda>(rt, _).
     if rt \<noteq> TRON_CONTRACT_REQUEST
     then io_fail (Error (unexpected_type ''TronContractRequest'' TRON_CONTRACT_REQUEST rt))
     else
       io_bind (transceive H C P contract_type contract_body) (\<lambda>reply.
       io_res (res_bind (expect_reply ''TronSignature'' TRON_SIGNATURE (dec_tron_signature T) reply) tron_split))))"

section \<open>Lemmas\<close>

definition tron_sig_ok :: "secp256k1_signature \<Rightarrow> bool" where
  "tron_sig_ok sig \<longleftrightarrow> length (sig_r sig) = 32 \<and> length (sig_s sig) = 32"

lemma tron_split_join:
  "tron_split sig = Inr out \<Longrightarrow> sig_r out @ sig_s out @ [sig_v out] = sig \<and> tron_sig_ok out"
proof -
  assume a: "tron_split sig = Inr out"
  then have len: "length sig = 65" by (auto simp: tron_split_def split: if_splits)
  have "sig = take 32 sig @ take 32 (drop 32 sig) @ drop 32 (drop 32 sig)"
    by (simp only: append_take_drop_id)
  moreover have "drop 32 (drop 32 sig) = drop 64 sig" by simp
  moreover have "drop 64 sig = [sig ! 64]"
    using len Cons_nth_drop_Suc [of 64 sig] by simp
  ultimately show ?thesis
    using a len by (auto simp: tron_split_def slice_simps tron_sig_ok_def)
qed

lemma wlp_tron_sign_tx:
  "chain_request (\<lambda>sid. tron_sign_tx H C P T path raw sid) tron_sig_ok"
  unfolding chain_request_def
proof (intro allI)
  fix sid w and c :: connection
  let ?Q = "\<lambda>r s. kept c (fst s) \<and> (case r of Inr a \<Rightarrow> active_session_id (fst s) = sid \<and> tron_sig_ok a | Inl _ \<Rightarrow> True)"
  have step: "wlp (io_bind (transceive H C P t b) (\<lambda>reply. io_res (res_bind (expect_reply n e d reply) tron_split))) ?Q (c1, w1)"
    if "same_wallet (c\<lparr>active_session_id := sid\<rparr>) c1" for t b n e d c1 w1
    unfolding wlp_simps using that
    by (intro wlp_transceive)
      (auto simp: same_wallet_def kept_def res_bind_eq_Inr dest!: tron_split_join split: sum.splits)
  show "wlp (tron_sign_tx H C P T path raw sid) ?Q (c, w)"
  proof (cases "tron_prepare T path raw")
    case (Inr p)
    obtain m t b where p: "p = (m, t, b)" by (cases p)
    show ?thesis
      unfolding tron_sign_tx_def Inr p wlp_bind wlp_effects sum.case prod.case
      by (rule wlp_transceive_on) (use step in \<open>auto simp: wlp_effects same_wallet_def kept_def wlp_if\<close>)
  qed (simp add: tron_sign_tx_def wlp_simps kept_def)
qed

section \<open>Properties\<close>

text \<open>
  The split of the device's Tron signature into components and recovery byte is undone by
  concatenation, gives two 32-byte components, and fails exactly on a signature that does not have
  65 bytes; it never panics.
\<close>

lemma tron_signature_split:
  "case tron_split sig of
     Inr out \<Rightarrow> length sig = 65 \<and> tron_sig_ok out \<and> sig_r out @ sig_s out @ [sig_v out] = sig
   | Inl (Error _) \<Rightarrow> length sig \<noteq> 65
   | Inl (Panic _) \<Rightarrow> False"
proof -
  have "length sig = 65" if "tron_split sig = Inr out" for out
    using that by (auto simp: tron_split_def split: if_splits)
  moreover have "length sig \<noteq> 65 \<and> (\<exists>e. f = Error e)" if "tron_split sig = Inl f" for f
    using that by (auto simp: tron_split_def slice_simps split: if_splits)
  ultimately show ?thesis
    using tron_split_join [of sig] by (auto split: sum.splits fault.splits)
qed

text \<open>
  A Tron transaction whose contract is neither a transfer nor a smart-contract trigger is refused
  before the device is involved: nothing is written, and connection and transport are exactly as
  before.
\<close>

lemma tron_fails_fast:
  assumes "dec_tron_raw T raw_bytes = Inr raw" "rt_contract raw = contract # rest"
    and "rc_type contract \<notin> {1, 31}"
  shows "\<exists>why. tron_sign_tx H C P T path raw_bytes sid s = Some (Err (Thp why), s)
    \<and> take (length ''unsupported Tron contract '') why = ''unsupported Tron contract ''"
  using assms
  by (simp add: tron_sign_tx_def tron_prepare_def tron_contract_def TransferContract_def
      TriggerSmartContract_def thp_def)

definition demo_tron :: "(bytes, bytes) tron_proto" where
  "demo_tron = \<lparr>enc_tron_get_address = (\<lambda>p d. []), dec_tron_address = (\<lambda>b. Inr ''T''),
     dec_tron_raw = (\<lambda>b. Inr \<lparr>rt_ref_block_bytes = [], rt_ref_block_hash = [], rt_expiration = 1, rt_data = None,
       rt_contract = [\<lparr>rc_type = 4, rc_value = b\<rparr>], rt_timestamp = 2, rt_fee_limit = None\<rparr>),
     enc_tron_sign_tx = (\<lambda>m. []), dec_transfer = Inr, enc_transfer = id, dec_trigger = Inr, enc_trigger = id,
     dec_tron_signature = Inr, show_contract_type = show_int\<rparr>"

end
