(* ===== verification/Client.thy ===== *)
theory Client
  imports Mock_Device Pairing_Flow Bitcoin Ethereum Solana Tron
begin

text \<open>
  The exported client (\<^verbatim>\<open>client.rs\<close>): pairing, reconnecting with a credential, the pinned
  connection that operations share, and one method per chain operation.  The client's state is the
  pinned connection, if there is one, and the world behind the transport; the mutex around the pinned
  connection is held for a whole call, so calls that use it are steps on this state.  The environment
  record bundles the code that is not part of the crate.
\<close>

record ('w, 't, 'r, 'g, 'x) client_env =
  env_host :: "'w host"
  env_crypto :: crypto
  env_proto :: proto
  env_eth :: eth_proto
  env_sol :: sol_proto
  env_tron :: "('t, 'r) tron_proto"
  env_btc :: btc_proto
  env_lib :: "('g, 'x) btc_lib"

datatype passphrase_spec = Standard | OnDevice | Host_Passphrase string

record thp_probe_result =
  tp_internal_model :: string
  tp_protocol_version_major :: u32
  tp_protocol_version_minor :: u32
  tp_pairing_methods :: "int list"
  tp_trezor_state :: bytes

record paired_session =
  ps_device_id :: string
  ps_model :: string
  ps_firmware_version :: string
  ps_initialized :: bool
  ps_credential :: bytes

record trezor_features =
  tf_device_id :: string
  tf_model :: string
  tf_firmware_version :: string
  tf_initialized :: bool

type_synonym ('w, 'a) clio = "(connection option \<times> 'w, 'a) io"

section \<open>Connections as values\<close>

text \<open>Run an operation on a connection the caller owns, and hand the connection back.\<close>

definition run_on :: "connection \<Rightarrow> ('w, 'a) cio \<Rightarrow> ('w, 'a \<times> connection) io" where
  "run_on c m = (\<lambda>w. map_option (\<lambda>(r, (c', w')). (map_sum id (\<lambda>a. (a, c')) r, w')) (m (c, w)))"

definition on_world :: "('w, 'a) io \<Rightarrow> ('p \<times> 'w, 'a) io" where
  "on_world m = (\<lambda>(p, w). map_option (\<lambda>(r, w'). (r, (p, w'))) (m w))"

definition to_array32 :: "bytes \<Rightarrow> bytes res" where
  "to_array32 v = (if length v = 32 then Inr v else thp_err ''expected a 32-byte host static key'')"

definition resolve_path :: "string option \<Rightarrow> u32 list \<Rightarrow> u32 list res" where
  "resolve_path path fallback = (case path of Some p \<Rightarrow> parse_path p | None \<Rightarrow> Inr fallback)"

definition unpaired :: "session_keys \<Rightarrow> bool" where
  "unpaired keys \<longleftrightarrow> (case trezor_state keys of [] \<Rightarrow> False | b # _ \<Rightarrow> b = 0)"

definition paired_setup :: "'w host \<Rightarrow> crypto \<Rightarrow> proto \<Rightarrow> bytes \<Rightarrow> bytes \<Rightarrow> ('w, unit) cio" where
  "paired_setup H C P host_static_priv credential =
     io_bind (allocate H P) (\<lambda>allocation.
     io_bind (handshake H C P (ca_device_properties_raw allocation) host_static_priv (Some credential)) (\<lambda>keys.
     if unpaired keys
     then io_fail (Error (Pairing ''stored credential was rejected; re-pair the Trezor''))
     else
       io_bind (set_session (from_handshake keys)) (\<lambda>_.
       end_request H C P)))"

definition open_paired_connection :: "'w host \<Rightarrow> crypto \<Rightarrow> proto \<Rightarrow> bytes \<Rightarrow> bytes \<Rightarrow> ('w, connection) io" where
  "open_paired_connection H C P host_static_priv credential =
     io_bind (run_on (connection_new BLE_PACKET_SIZE) (paired_setup H C P host_static_priv credential)) (\<lambda>(_, c).
     io_return c)"

section \<open>The pinned connection\<close>

definition wallet_key :: "passphrase_spec \<Rightarrow> string option \<times> bool" where
  "wallet_key p = (case p of Standard \<Rightarrow> (None, False) | OnDevice \<Rightarrow> (None, True)
     | Host_Passphrase passphrase \<Rightarrow> (Some passphrase, False))"

definition wallet_changed :: "string option \<times> bool \<Rightarrow> connection option \<Rightarrow> bool" where
  "wallet_changed key slot = (case slot of None \<Rightarrow> False | Some c \<Rightarrow> seeded_key c \<noteq> Some key)"

definition ensure_conn :: "('w, 't, 'r, 'g, 'x) client_env \<Rightarrow> bytes \<Rightarrow> bytes \<Rightarrow> passphrase_spec \<Rightarrow> ('w, unit) clio" where
  "ensure_conn \<Gamma> host_static_priv credential passphrase =
     (let (pp, on_device) = wallet_key passphrase in
      io_bind (io_modify (\<lambda>(slot, w). (if wallet_changed (pp, on_device) slot then None else slot, w))) (\<lambda>_.
      io_bind (io_get fst) (\<lambda>slot.
      case slot of
        Some _ \<Rightarrow> io_return ()
      | None \<Rightarrow>
          io_bind (io_res (to_array32 host_static_priv)) (\<lambda>hsp.
          io_bind (on_world (open_paired_connection (env_host \<Gamma>) (env_crypto \<Gamma>) (env_proto \<Gamma>) hsp credential)) (\<lambda>c.
          io_bind (on_world (run_on c (create_seeded_session (env_host \<Gamma>) (env_crypto \<Gamma>) (env_proto \<Gamma>) pp on_device))) (\<lambda>(_, c').
          io_modify (\<lambda>(_, w). (Some c', w))))))))"

text \<open>An operation on the pinned connection; without one the source's \<^verbatim>\<open>expect\<close> panics.\<close>

definition on_pinned :: "('w, 'a) cio \<Rightarrow> ('w, 'a) clio" where
  "on_pinned m = (\<lambda>(slot, w). case slot of
     None \<Rightarrow> Some (Inl (Panic ''connection just established''), (None, w))
   | Some c \<Rightarrow> map_option (\<lambda>(r, (c', w')). (r, (Some c', w'))) (m (c, w)))"

text \<open>An error empties the slot; a panic unwinds without doing so.\<close>

definition unpin_on_error :: "('w, 'a) clio \<Rightarrow> ('w, 'a) clio" where
  "unpin_on_error m = (\<lambda>s. map_option (\<lambda>(r, (slot, w)). case r of
     Inl (Error e) \<Rightarrow> (r, (None, w)) | _ \<Rightarrow> (r, (slot, w))) (m s))"

definition with_pinned :: "('w, 't, 'r, 'g, 'x) client_env \<Rightarrow> bytes \<Rightarrow> bytes \<Rightarrow> passphrase_spec \<Rightarrow> ('w, 'a) cio \<Rightarrow> ('w, 'a) clio" where
  "with_pinned \<Gamma> host_static_priv credential passphrase m =
     io_bind (unpin_on_error (ensure_conn \<Gamma> host_static_priv credential passphrase)) (\<lambda>_.
     unpin_on_error (on_pinned m))"

section \<open>Pairing and identity\<close>

text \<open>Random bytes whose failure is reported as an error.\<close>

definition random_or_error :: "'w host \<Rightarrow> nat \<Rightarrow> ('w, bytes) cio" where
  "random_or_error H n = (\<lambda>(c, w). case getrandom H n w of
     (Inl e, w') \<Rightarrow> Some (thp_err (''RNG failure: '' @ e), (c, w'))
   | (Inr b, w') \<Rightarrow> Some (Inr b, (c, w')))"

definition probe :: "'w host \<Rightarrow> crypto \<Rightarrow> proto \<Rightarrow> ('w, thp_probe_result) cio" where
  "probe H C P =
     io_bind (allocate H P) (\<lambda>allocation.
     io_bind (random_or_error H 32) (\<lambda>host_static.
     io_bind (handshake H C P (ca_device_properties_raw allocation) host_static None) (\<lambda>keys.
     let props = ca_device_properties allocation in
     io_return \<lparr>tp_internal_model = internal_model props, tp_protocol_version_major = protocol_version_major props,
       tp_protocol_version_minor = protocol_version_minor props, tp_pairing_methods = pairing_methods props,
       tp_trezor_state = trezor_state keys\<rparr>)))"

text \<open>A call that opens a connection of its own and drops it.\<close>

definition on_fresh :: "('w, 'a) cio \<Rightarrow> ('w, 'a) clio" where
  "on_fresh m = io_bind (on_world (run_on (connection_new BLE_PACKET_SIZE) m)) (\<lambda>(a, _). io_return a)"

definition thp_probe :: "('w, 't, 'r, 'g, 'x) client_env \<Rightarrow> ('w, thp_probe_result) clio" where
  "thp_probe \<Gamma> = on_fresh (probe (env_host \<Gamma>) (env_crypto \<Gamma>) (env_proto \<Gamma>))"

definition firmware_version :: "features \<Rightarrow> string" where
  "firmware_version f = show_nat (unat (f_major_version f)) @ ''.'' @ show_nat (unat (f_minor_version f)) @ ''.'' @
     show_nat (unat (f_patch_version f))"

definition establish :: "'w host \<Rightarrow> crypto \<Rightarrow> proto \<Rightarrow> bytes \<Rightarrow> string \<Rightarrow> string \<Rightarrow> bytes option \<Rightarrow> ('w, paired_session) cio" where
  "establish H C P host_static host_name app_name stored_credential =
     io_bind (allocate H P) (\<lambda>allocation.
     io_bind (handshake H C P (ca_device_properties_raw allocation) host_static stored_credential) (\<lambda>keys.
     let already_paired = (stored_credential \<noteq> None \<and> \<not> unpaired keys) in
     io_bind (set_session (from_handshake keys)) (\<lambda>_.
     io_bind (if already_paired then io_return (case_option [] id stored_credential)
              else run_codeentry_pairing H C P (handshake_hash keys) (host_static_pubkey keys) host_name app_name) (\<lambda>credential.
     io_bind (end_request H C P) (\<lambda>_.
     io_bind (get_features H C P) (\<lambda>f.
     io_return \<lparr>ps_device_id = case_option [] id (f_device_id f), ps_model = case_option [] id (f_model f),
       ps_firmware_version = firmware_version f, ps_initialized = case_option False id (f_initialized f),
       ps_credential = credential\<rparr>))))))"

definition establish_paired_session :: "('w, 't, 'r, 'g, 'x) client_env \<Rightarrow> bytes \<Rightarrow> string \<Rightarrow> string \<Rightarrow> bytes option \<Rightarrow>
    ('w, paired_session) clio" where
  "establish_paired_session \<Gamma> host_static_priv host_name app_name stored_credential =
     io_bind (io_res (to_array32 host_static_priv)) (\<lambda>host_static.
     on_fresh (establish (env_host \<Gamma>) (env_crypto \<Gamma>) (env_proto \<Gamma>) host_static host_name app_name stored_credential))"

definition device_id_of :: "features \<Rightarrow> string res" where
  "device_id_of f = (case f_device_id f of None \<Rightarrow> thp_err ''device returned no device_id'' | Some i \<Rightarrow> Inr i)"

text \<open>The missing identifier is reported after the slot was dealt with, so it does not empty it.\<close>

definition identify_paired :: "('w, 't, 'r, 'g, 'x) client_env \<Rightarrow> bytes \<Rightarrow> bytes \<Rightarrow> ('w, string) clio" where
  "identify_paired \<Gamma> host_static_priv credential =
     io_bind (with_pinned \<Gamma> host_static_priv credential Standard
       (get_features (env_host \<Gamma>) (env_crypto \<Gamma>) (env_proto \<Gamma>))) (\<lambda>f.
     io_res (device_id_of f))"

definition get_attestor_pubkey :: "('w, 't, 'r, 'g, 'x) client_env \<Rightarrow> bytes \<Rightarrow> bytes \<Rightarrow> ('w, bytes) clio" where
  "get_attestor_pubkey \<Gamma> host_static_priv credential =
     with_pinned \<Gamma> host_static_priv credential Standard
       (eth_get_public_key (env_host \<Gamma>) (env_crypto \<Gamma>) (env_proto \<Gamma>) (env_eth \<Gamma>) (eth_account_path 0) SEEDED_SESSION_ID)"

definition sign_message_eth :: "('w, 't, 'r, 'g, 'x) client_env \<Rightarrow> bytes \<Rightarrow> bytes \<Rightarrow> bytes \<Rightarrow> ('w, bytes) clio" where
  "sign_message_eth \<Gamma> host_static_priv credential message =
     with_pinned \<Gamma> host_static_priv credential Standard
       (eth_sign_message (env_host \<Gamma>) (env_crypto \<Gamma>) (env_proto \<Gamma>) (env_eth \<Gamma>) (eth_account_path 0) message SEEDED_SESSION_ID)"

definition identify :: "('w, trezor_features) clio" where
  "identify = io_fail (Error (not_implemented ''identify (THP handshake)''))"

definition pair :: "('w, bytes) clio" where
  "pair = io_fail (Error (not_implemented ''pair (secp256k1 attestor pubkey)''))"

definition sign_message :: "bytes \<Rightarrow> ('w, bytes) clio" where
  "sign_message message = io_fail (Error (not_implemented ''sign_message (secp256k1 R||S)''))"

section \<open>Chain methods\<close>

text \<open>The path is resolved before the pinned connection is looked at.\<close>

definition with_path :: "('w, 't, 'r, 'g, 'x) client_env \<Rightarrow> bytes \<Rightarrow> bytes \<Rightarrow> passphrase_spec \<Rightarrow> string option \<Rightarrow> u32 list \<Rightarrow>
    (u32 list \<Rightarrow> ('w, 'a) cio) \<Rightarrow> ('w, 'a) clio" where
  "with_path \<Gamma> host_static_priv credential passphrase path fallback m =
     io_bind (io_res (resolve_path path fallback)) (\<lambda>address_n.
     with_pinned \<Gamma> host_static_priv credential passphrase (m address_n))"

definition get_bitcoin_account_xpub :: "('w, 't, 'r, 'g, 'x) client_env \<Rightarrow> bytes \<Rightarrow> bytes \<Rightarrow> passphrase_spec \<Rightarrow> u32 \<Rightarrow> u32 \<Rightarrow>
    string option \<Rightarrow> ('w, string) clio" where
  "get_bitcoin_account_xpub \<Gamma> host_static_priv credential passphrase account network_coin_type path =
     with_path \<Gamma> host_static_priv credential passphrase path (btc_account_path account network_coin_type)
       (\<lambda>address_n. get_account_xpub (env_host \<Gamma>) (env_crypto \<Gamma>) (env_proto \<Gamma>) (env_btc \<Gamma>) address_n network_coin_type SEEDED_SESSION_ID)"

definition get_bitcoin_master_fingerprint :: "('w, 't, 'r, 'g, 'x) client_env \<Rightarrow> bytes \<Rightarrow> bytes \<Rightarrow> passphrase_spec \<Rightarrow> ('w, bytes) clio" where
  "get_bitcoin_master_fingerprint \<Gamma> host_static_priv credential passphrase =
     with_pinned \<Gamma> host_static_priv credential passphrase
       (get_master_fingerprint (env_host \<Gamma>) (env_crypto \<Gamma>) (env_proto \<Gamma>) (env_btc \<Gamma>) SEEDED_SESSION_ID)"

definition sign_psbt :: "('w, 't, 'r, 'g, 'x) client_env \<Rightarrow> bytes \<Rightarrow> bytes \<Rightarrow> passphrase_spec \<Rightarrow> string \<Rightarrow> string \<Rightarrow> string \<Rightarrow> u32 \<Rightarrow> u32 \<Rightarrow>
    string option \<Rightarrow> ('w, string) clio" where
  "sign_psbt \<Gamma> host_static_priv credential passphrase psbt_base64 fingerprint_hex account_xpub account coin_type path =
     with_pinned \<Gamma> host_static_priv credential passphrase
       (btc_sign_psbt (env_host \<Gamma>) (env_crypto \<Gamma>) (env_proto \<Gamma>) (env_lib \<Gamma>) (env_btc \<Gamma>) psbt_base64 coin_type SEEDED_SESSION_ID)"

definition sign_bitcoin_message :: "('w, 't, 'r, 'g, 'x) client_env \<Rightarrow> bytes \<Rightarrow> bytes \<Rightarrow> passphrase_spec \<Rightarrow> u32 list \<Rightarrow> bytes \<Rightarrow> u32 \<Rightarrow>
    ('w, bitcoin_message_signature) clio" where
  "sign_bitcoin_message \<Gamma> host_static_priv credential passphrase address_n message coin_type =
     with_pinned \<Gamma> host_static_priv credential passphrase
       (btc_sign_message (env_host \<Gamma>) (env_crypto \<Gamma>) (env_proto \<Gamma>) (env_btc \<Gamma>) address_n message coin_type SEEDED_SESSION_ID)"

definition get_ethereum_address :: "('w, 't, 'r, 'g, 'x) client_env \<Rightarrow> bytes \<Rightarrow> bytes \<Rightarrow> passphrase_spec \<Rightarrow> u32 \<Rightarrow> string option \<Rightarrow>
    ('w, string) clio" where
  "get_ethereum_address \<Gamma> host_static_priv credential passphrase account path =
     with_path \<Gamma> host_static_priv credential passphrase path (eth_account_path account)
       (\<lambda>address_n. eth_get_address (env_host \<Gamma>) (env_crypto \<Gamma>) (env_proto \<Gamma>) (env_eth \<Gamma>) address_n SEEDED_SESSION_ID)"

definition sign_ethereum_tx :: "('w, 't, 'r, 'g, 'x) client_env \<Rightarrow> bytes \<Rightarrow> bytes \<Rightarrow> passphrase_spec \<Rightarrow> bytes \<Rightarrow> u32 \<Rightarrow> string option \<Rightarrow>
    ('w, secp256k1_signature) clio" where
  "sign_ethereum_tx \<Gamma> host_static_priv credential passphrase envelope account path =
     with_path \<Gamma> host_static_priv credential passphrase path (eth_account_path account)
       (\<lambda>address_n. sign_eip1559 (env_host \<Gamma>) (env_crypto \<Gamma>) (env_proto \<Gamma>) (env_eth \<Gamma>) address_n envelope SEEDED_SESSION_ID)"

definition sign_ethereum_message :: "('w, 't, 'r, 'g, 'x) client_env \<Rightarrow> bytes \<Rightarrow> bytes \<Rightarrow> passphrase_spec \<Rightarrow> u32 \<Rightarrow> bytes \<Rightarrow> string option \<Rightarrow>
    ('w, bytes) clio" where
  "sign_ethereum_message \<Gamma> host_static_priv credential passphrase account message path =
     with_path \<Gamma> host_static_priv credential passphrase path (eth_account_path account)
       (\<lambda>address_n. eth_sign_message_full (env_host \<Gamma>) (env_crypto \<Gamma>) (env_proto \<Gamma>) (env_eth \<Gamma>) address_n message SEEDED_SESSION_ID)"

definition get_solana_address :: "('w, 't, 'r, 'g, 'x) client_env \<Rightarrow> bytes \<Rightarrow> bytes \<Rightarrow> passphrase_spec \<Rightarrow> u32 \<Rightarrow> string option \<Rightarrow>
    ('w, string) clio" where
  "get_solana_address \<Gamma> host_static_priv credential passphrase account path =
     with_path \<Gamma> host_static_priv credential passphrase path (sol_account_path account)
       (\<lambda>address_n. sol_get_address (env_host \<Gamma>) (env_crypto \<Gamma>) (env_proto \<Gamma>) (env_sol \<Gamma>) address_n SEEDED_SESSION_ID)"

definition sign_solana_tx :: "('w, 't, 'r, 'g, 'x) client_env \<Rightarrow> bytes \<Rightarrow> bytes \<Rightarrow> passphrase_spec \<Rightarrow> bytes \<Rightarrow> u32 \<Rightarrow> string option \<Rightarrow>
    ('w, bytes) clio" where
  "sign_solana_tx \<Gamma> host_static_priv credential passphrase message_bytes account path =
     with_path \<Gamma> host_static_priv credential passphrase path (sol_account_path account)
       (\<lambda>address_n. sol_sign_tx (env_host \<Gamma>) (env_crypto \<Gamma>) (env_proto \<Gamma>) (env_sol \<Gamma>) address_n message_bytes SEEDED_SESSION_ID)"

definition sign_solana_message :: "('w, 't, 'r, 'g, 'x) client_env \<Rightarrow> bytes \<Rightarrow> bytes \<Rightarrow> passphrase_spec \<Rightarrow> bytes \<Rightarrow> u32 \<Rightarrow> string option \<Rightarrow>
    ('w, bytes) clio" where
  "sign_solana_message \<Gamma> host_static_priv credential passphrase envelope account path =
     with_path \<Gamma> host_static_priv credential passphrase path (sol_account_path account)
       (\<lambda>address_n. sol_sign_message (env_host \<Gamma>) (env_crypto \<Gamma>) (env_proto \<Gamma>) (env_sol \<Gamma>) address_n envelope SEEDED_SESSION_ID)"

text \<open>The crate's feature \<^verbatim>\<open>tron\<close> is on by default; the methods below are those of that build.\<close>

definition get_tron_address :: "('w, 't, 'r, 'g, 'x) client_env \<Rightarrow> bytes \<Rightarrow> bytes \<Rightarrow> passphrase_spec \<Rightarrow> u32 \<Rightarrow> string option \<Rightarrow>
    ('w, string) clio" where
  "get_tron_address \<Gamma> host_static_priv credential passphrase account path =
     with_path \<Gamma> host_static_priv credential passphrase path (tron_account_path account)
       (\<lambda>address_n. tron_get_address (env_host \<Gamma>) (env_crypto \<Gamma>) (env_proto \<Gamma>) (env_tron \<Gamma>) address_n SEEDED_SESSION_ID)"

definition get_tron_pubkey :: "u32 \<Rightarrow> ('w, bytes) clio" where
  "get_tron_pubkey account = io_fail (Error (not_implemented ''get_tron_pubkey (Trezor Tron has no public-key message)''))"

definition sign_tron_tx :: "('w, 't, 'r, 'g, 'x) client_env \<Rightarrow> bytes \<Rightarrow> bytes \<Rightarrow> passphrase_spec \<Rightarrow> bytes \<Rightarrow> u32 \<Rightarrow> string option \<Rightarrow>
    ('w, secp256k1_signature) clio" where
  "sign_tron_tx \<Gamma> host_static_priv credential passphrase raw_tx_proto account path =
     with_path \<Gamma> host_static_priv credential passphrase path (tron_account_path account)
       (\<lambda>address_n. tron_sign_tx (env_host \<Gamma>) (env_crypto \<Gamma>) (env_proto \<Gamma>) (env_tron \<Gamma>) address_n raw_tx_proto SEEDED_SESSION_ID)"

section \<open>Calls\<close>

text \<open>Every call a host can make, as data; its result is dropped, its effect on the state is kept.\<close>

datatype client_call =
    Thp_Probe
  | Establish bytes string string "bytes option"
  | Identify_Paired bytes bytes
  | Attestor_Pubkey bytes bytes
  | Sign_Message_Eth bytes bytes bytes
  | Identify | Pair | Sign_Message bytes
  | Bitcoin_Xpub bytes bytes passphrase_spec u32 u32 "string option"
  | Bitcoin_Fingerprint bytes bytes passphrase_spec
  | Sign_Psbt bytes bytes passphrase_spec string string string u32 u32 "string option"
  | Bitcoin_Message bytes bytes passphrase_spec "u32 list" bytes u32
  | Ethereum_Address bytes bytes passphrase_spec u32 "string option"
  | Ethereum_Tx bytes bytes passphrase_spec bytes u32 "string option"
  | Ethereum_Message bytes bytes passphrase_spec u32 bytes "string option"
  | Solana_Address bytes bytes passphrase_spec u32 "string option"
  | Solana_Tx bytes bytes passphrase_spec bytes u32 "string option"
  | Solana_Message bytes bytes passphrase_spec bytes u32 "string option"
  | Tron_Address bytes bytes passphrase_spec u32 "string option"
  | Tron_Pubkey u32
  | Tron_Tx bytes bytes passphrase_spec bytes u32 "string option"

definition drop_result :: "('s, 'a) io \<Rightarrow> ('s, unit) io" where
  "drop_result m = io_bind m (\<lambda>_. io_return ())"

fun perform :: "('w, 't, 'r, 'g, 'x) client_env \<Rightarrow> client_call \<Rightarrow> ('w, unit) clio" where
  "perform \<Gamma> Thp_Probe = drop_result (thp_probe \<Gamma>)"
| "perform \<Gamma> (Establish h n a c) = drop_result (establish_paired_session \<Gamma> h n a c)"
| "perform \<Gamma> (Identify_Paired h c) = drop_result (identify_paired \<Gamma> h c)"
| "perform \<Gamma> (Attestor_Pubkey h c) = drop_result (get_attestor_pubkey \<Gamma> h c)"
| "perform \<Gamma> (Sign_Message_Eth h c m) = drop_result (sign_message_eth \<Gamma> h c m)"
| "perform \<Gamma> Identify = drop_result identify"
| "perform \<Gamma> Pair = drop_result pair"
| "perform \<Gamma> (Sign_Message m) = drop_result (sign_message m)"
| "perform \<Gamma> (Bitcoin_Xpub h c p a n path) = drop_result (get_bitcoin_account_xpub \<Gamma> h c p a n path)"
| "perform \<Gamma> (Bitcoin_Fingerprint h c p) = drop_result (get_bitcoin_master_fingerprint \<Gamma> h c p)"
| "perform \<Gamma> (Sign_Psbt h c p b f x a n path) = drop_result (sign_psbt \<Gamma> h c p b f x a n path)"
| "perform \<Gamma> (Bitcoin_Message h c p a m n) = drop_result (sign_bitcoin_message \<Gamma> h c p a m n)"
| "perform \<Gamma> (Ethereum_Address h c p a path) = drop_result (get_ethereum_address \<Gamma> h c p a path)"
| "perform \<Gamma> (Ethereum_Tx h c p e a path) = drop_result (sign_ethereum_tx \<Gamma> h c p e a path)"
| "perform \<Gamma> (Ethereum_Message h c p a m path) = drop_result (sign_ethereum_message \<Gamma> h c p a m path)"
| "perform \<Gamma> (Solana_Address h c p a path) = drop_result (get_solana_address \<Gamma> h c p a path)"
| "perform \<Gamma> (Solana_Tx h c p t a path) = drop_result (sign_solana_tx \<Gamma> h c p t a path)"
| "perform \<Gamma> (Solana_Message h c p e a path) = drop_result (sign_solana_message \<Gamma> h c p e a path)"
| "perform \<Gamma> (Tron_Address h c p a path) = drop_result (get_tron_address \<Gamma> h c p a path)"
| "perform \<Gamma> (Tron_Pubkey a) = drop_result (get_tron_pubkey a)"
| "perform \<Gamma> (Tron_Tx h c p t a path) = drop_result (sign_tron_tx \<Gamma> h c p t a path)"

text \<open>The wallet a call works on: none for the calls that never look at the pinned connection.\<close>

fun call_wallet :: "client_call \<Rightarrow> passphrase_spec option" where
  "call_wallet Thp_Probe = None"
| "call_wallet (Establish h n a c) = None"
| "call_wallet (Identify_Paired h c) = Some Standard"
| "call_wallet (Attestor_Pubkey h c) = Some Standard"
| "call_wallet (Sign_Message_Eth h c m) = Some Standard"
| "call_wallet Identify = None"
| "call_wallet Pair = None"
| "call_wallet (Sign_Message m) = None"
| "call_wallet (Bitcoin_Xpub h c p a n path) = Some p"
| "call_wallet (Bitcoin_Fingerprint h c p) = Some p"
| "call_wallet (Sign_Psbt h c p b f x a n path) = Some p"
| "call_wallet (Bitcoin_Message h c p a m n) = Some p"
| "call_wallet (Ethereum_Address h c p a path) = Some p"
| "call_wallet (Ethereum_Tx h c p e a path) = Some p"
| "call_wallet (Ethereum_Message h c p a m path) = Some p"
| "call_wallet (Solana_Address h c p a path) = Some p"
| "call_wallet (Solana_Tx h c p t a path) = Some p"
| "call_wallet (Solana_Message h c p e a path) = Some p"
| "call_wallet (Tron_Address h c p a path) = Some p"
| "call_wallet (Tron_Pubkey a) = None"
| "call_wallet (Tron_Tx h c p t a path) = Some p"

end
