(* ===== verification/Client_Safety.thy ===== *)
theory Client_Safety
  imports Client
begin

text \<open>
  What the client guarantees on every transport: which wallet an operation runs on, what a call
  leaves pinned, and the state after any history of calls; and the probe against the in-memory device.
\<close>

section \<open>Rules for connections as values\<close>

lemma wlp_run_on [wlp_simps]:
  "wlp (run_on c m) Q w \<longleftrightarrow> wlp m (\<lambda>r s. Q (map_sum id (\<lambda>a. (a, fst s)) r) (snd s)) (c, w)"
  by (auto simp: wlp_def run_on_def split: option.splits)

lemma wlp_on_world [wlp_simps]: "wlp (on_world m) Q (p, w) \<longleftrightarrow> wlp m (\<lambda>r w'. Q r (p, w')) w"
  by (auto simp: wlp_def on_world_def split: option.splits)

lemma wlp_on_pinned [wlp_simps]:
  "wlp (on_pinned m) Q (Some c, w) \<longleftrightarrow> wlp m (\<lambda>r s. Q r (Some (fst s), snd s)) (c, w)"
  by (auto simp: wlp_def on_pinned_def split: option.splits)

lemma wlp_unpin_on_error [wlp_simps]:
  "wlp (unpin_on_error m) Q s \<longleftrightarrow> wlp m (\<lambda>r s'. Q r (case r of Inl (Error e) \<Rightarrow> None | _ \<Rightarrow> fst s', snd s')) s"
  by (auto simp: wlp_def unpin_on_error_def split: option.splits sum.splits fault.splits)

lemma wlp_drop_result [wlp_simps]:
  "wlp (drop_result m) Q s \<longleftrightarrow> wlp m (\<lambda>r s'. Q (map_sum id (\<lambda>_. ()) r) s') s"
  unfolding drop_result_def wlp_simps by (rule arg_cong [where f = "\<lambda>Q. wlp m Q s"]) (auto simp: fun_eq_iff split: sum.splits)

section \<open>Operations that keep the wallet\<close>

lemmas chain_operations =
  get_features_def end_request_def eth_get_public_key_def eth_sign_message_def eth_sign_message_full_def
  eth_sign_message_with_def eth_get_address_def sign_eip1559_def sol_get_address_def sol_sign_tx_def sol_sign_message_def
  tron_get_address_def tron_sign_tx_def get_account_xpub_def get_master_fingerprint_def btc_sign_message_def
  btc_sign_psbt_def sign_psbt_over_def sign_psbt_body_def

lemma keeps_chain_operations:
  "keeps kept (get_features H C P)"
  "keeps kept (eth_get_public_key H C P E path sid)"
  "keeps kept (eth_sign_message H C P E path msg sid)"
  "keeps kept (eth_sign_message_full H C P E path msg sid)"
  "keeps kept (eth_get_address H C P E path sid)"
  "keeps kept (sign_eip1559 H C P E path env sid)"
  "keeps kept (sol_get_address H C P S path sid)"
  "keeps kept (sol_sign_tx H C P S path msg sid)"
  "keeps kept (sol_sign_message H C P S path msg sid)"
  "keeps kept (tron_get_address H C P T path sid)"
  "keeps kept (tron_sign_tx H C P T path raw sid)"
  "keeps kept (get_account_xpub H C P B path coin sid)"
  "keeps kept (get_master_fingerprint H C P B sid)"
  "keeps kept (btc_sign_message H C P B path msg coin sid)"
  "keeps kept (btc_sign_psbt H C P L B b64 coin sid)"
  unfolding chain_operations Let_def by (intro keeps_intros)+

section \<open>Opening a connection\<close>

text \<open>Before there is a session, allocation and handshake change only the channel and the sequence bits.\<close>

definition unseeded :: "connection \<Rightarrow> connection \<Rightarrow> bool" where
  "unseeded c c' \<longleftrightarrow> packet_size c' = packet_size c \<and> conn_session c' = conn_session c
     \<and> active_session_id c' = active_session_id c \<and> seeded_with c' = seeded_with c"

lemma wlp_random_bytes: "(\<And>r w'. Q r (c, w')) \<Longrightarrow> wlp (random_bytes H n) Q (c, w)"
  by (auto simp: wlp_def random_bytes_def split: option.splits sum.splits prod.splits)

lemma wlp_allocate_reads:
  assumes "\<And>r c' w'. unseeded c c' \<Longrightarrow> Q r (c', w')"
  shows "wlp (allocate_reads H P nonce n) Q (c, w)"
  using assms
proof (induction n arbitrary: w)
  case 0
  then show ?case by (simp add: wlp_def unseeded_def)
next
  case (Suc n)
  show ?case
    unfolding allocate_reads.simps wlp_simps
  proof (rule wlp_read_framed, goal_cases)
    case (1 r w')
    have "wlp (allocate_reads H P nonce n) Q (c, w')" using Suc by blast
    then show ?case
      using Suc.prems
      by (auto simp: wlp_simps unseeded_def split: sum.splits fault.splits)
  qed
qed

lemma wlp_allocate:
  assumes "\<And>r c' w'. unseeded c c' \<Longrightarrow> Q r (c', w')"
  shows "wlp (allocate H P) Q (c, w)"
  unfolding allocate_def random_allocation_nonce_def wlp_simps
proof (rule wlp_random_bytes, goal_cases)
  case (1 r w')
  have "wlp (write_framed H CHANNEL_ALLOCATION_REQUEST p) (\<lambda>r s'. case r of Inl e \<Rightarrow> Q (Inl e) s'
      | Inr _ \<Rightarrow> wlp (allocate_reads H P nonce MAX_ALLOC_READS) Q s') (c\<lparr>cid := BROADCAST_CID\<rparr>, w')" for p nonce
    by (rule wlp_write_framed) (auto split: sum.splits simp: unseeded_def intro!: assms wlp_allocate_reads)
  then show ?case
    by (cases r) (auto simp: wlp_simps unseeded_def intro!: assms)
qed

lemma wlp_recv_data_unseeded:
  assumes "\<And>r c' w'. unseeded c c' \<Longrightarrow> Q r (c', w')"
  shows "wlp (recv_data H) Q (c, w)"
  by (rule wlp_recv_data) (auto simp: unseeded_def intro!: assms)

lemma wlp_send_data_unseeded:
  assumes "\<And>r c' w'. unseeded c c' \<Longrightarrow> Q r (c', w')"
  shows "wlp (send_data H base p) Q (c, w)"
  by (rule wlp_send_data) (auto simp: unseeded_def same_channel_def intro!: assms)

lemma unseeded_trans: "unseeded c c' \<Longrightarrow> unseeded c' c'' \<Longrightarrow> unseeded c c''"
  by (simp add: unseeded_def)

lemma wlp_handshake:
  assumes "\<And>r c' w'. unseeded c c' \<Longrightarrow> Q r (c', w')"
  shows "wlp (handshake H C P props priv cred) Q (c, w)"
  unfolding handshake_def host_handshake_new_def random_scalar_def wlp_simps split_beta Let_def
  by (rule wlp_random_bytes,
      auto simp: wlp_simps unseeded_def split: sum.splits
        intro!: assms wlp_send_data_unseeded wlp_recv_data_unseeded)

text \<open>A connection opened with a credential has a session and is not seeded yet.\<close>

lemma wlp_open_paired_connection:
  assumes "\<And>c' w'. packet_size c' = BLE_PACKET_SIZE \<Longrightarrow> conn_session c' \<noteq> None \<Longrightarrow> seeded_with c' = None \<Longrightarrow> Q (Inr c') w'"
    and "\<And>e w'. Q (Inl e) w'"
  shows "wlp (open_paired_connection H C P hsp cred) Q w"
proof -
  let ?c = "connection_new BLE_PACKET_SIZE"
  define ready where "ready c \<longleftrightarrow> packet_size c = BLE_PACKET_SIZE \<and> conn_session c \<noteq> None \<and> seeded_with c = None" for c :: connection
  let ?Q = "\<lambda>r s. r = Inr () \<longrightarrow> ready (fst s)"
  have fin: "wlp (end_request H C P) ?Q (c, w)" if "ready c" for c w
    unfolding end_request_def wlp_simps
    by (rule wlp_transceive) (use that in \<open>auto simp: ready_def same_wallet_def wlp_simps split: sum.splits\<close>)
  have start: "ready (c'\<lparr>conn_session := Some s\<rparr>)" if "unseeded ?c c'" for c' s
    using that by (simp add: ready_def unseeded_def connection_new_def)
  have "wlp (paired_setup H C P hsp cred) ?Q (?c, w)"
    unfolding paired_setup_def set_session_def wlp_simps split_beta
    by (rule wlp_allocate)
      (auto split: sum.splits simp: wlp_simps intro!: wlp_handshake fin start dest: unseeded_trans)
  then show ?thesis
    unfolding open_paired_connection_def wlp_simps split_beta
  proof (rule wlp_conseq, goal_cases)
    case (1 r s)
    with assms show ?case by (cases r) (auto simp: ready_def wlp_simps)
  qed
qed

section \<open>The pinned connection\<close>

text \<open>What is always true of a pinned connection.\<close>

definition pinned_ok :: "connection option \<Rightarrow> bool" where
  "pinned_ok slot \<longleftrightarrow> (case slot of None \<Rightarrow> True
     | Some c \<Rightarrow> packet_size c = BLE_PACKET_SIZE \<and> conn_session c \<noteq> None \<and> seeded_with c \<noteq> None)"

text \<open>The wallet the connection in the slot derives from.\<close>

definition pinned_wallet :: "connection option \<Rightarrow> (string option \<times> bool) option" where
  "pinned_wallet slot = Option.bind slot seeded_with"

lemma wlp_create_seeded:
  assumes "\<And>c' w'. packet_size c' = packet_size c \<Longrightarrow> conn_session c' \<noteq> None \<Longrightarrow> seeded_with c' = Some (pp, od) \<Longrightarrow> Q (Inr ()) (c', w')"
    and "\<And>e c' w'. Q (Inl e) (c', w')" "conn_session c \<noteq> None"
  shows "wlp (create_seeded_session H C P pp od) Q (c, w)"
  by (rule wlp_create_seeded_session) (use assms in \<open>auto simp: same_wallet_def\<close>)

lemma wlp_ensure_conn:
  assumes "\<And>c' w'. pinned_wallet (Some c') = Some (wallet_key p) \<Longrightarrow> (pinned_ok slot \<Longrightarrow> pinned_ok (Some c')) \<Longrightarrow> Q (Inr ()) (Some c', w')"
    and "\<And>e w'. Q (Inl e) (None, w')"
  shows "wlp (ensure_conn \<Gamma> h cred p) Q (slot, w)"
proof -
  obtain pp od where key: "wallet_key p = (pp, od)" by fastforce
  define slot' where "slot' = (if wallet_changed (pp, od) slot then None else slot)"
  show ?thesis
  proof (cases slot')
    case (Some c)
    then have "slot = Some c" "seeded_with c = Some (pp, od)"
      by (auto simp: slot'_def wallet_changed_def seeded_key_def split: if_splits option.splits)
    then show ?thesis
      using Some key assms(1) [of c w]
      by (simp add: ensure_conn_def wlp_simps wallet_changed_def seeded_key_def pinned_wallet_def)
  next
    case None
    have "wlp (io_bind (on_world (open_paired_connection (env_host \<Gamma>) (env_crypto \<Gamma>) (env_proto \<Gamma>) hsp cred)) (\<lambda>c.
          io_bind (on_world (run_on c (create_seeded_session (env_host \<Gamma>) (env_crypto \<Gamma>) (env_proto \<Gamma>) pp od))) (\<lambda>(_, c').
          io_modify (\<lambda>(_, w). (Some c', w))))) Q (None, w)" for hsp
      unfolding wlp_simps split_beta
      by (rule wlp_open_paired_connection)
        (auto split: sum.splits simp: wlp_simps key pinned_wallet_def pinned_ok_def
          intro!: wlp_create_seeded assms)
    then show ?thesis
      using None key assms(2)
      by (auto simp: ensure_conn_def wlp_simps slot'_def [symmetric] to_array32_def split: sum.splits)
  qed
qed

lemma io_bind_cong_wlp:
  assumes "wlp m (\<lambda>r s'. case r of Inl e \<Rightarrow> True | Inr a \<Rightarrow> f a s' = g a s') s"
  shows "io_bind m f s = io_bind m g s"
  using assms by (auto simp: wlp_def io_bind_def split: option.splits sum.splits)

text \<open>An operation that refuses to run on any other wallet.\<close>

definition guarded :: "string option \<times> bool \<Rightarrow> ('w, 'a) cio \<Rightarrow> ('w, 'a) cio" where
  "guarded key m = (\<lambda>(c, w). if seeded_with c = Some key then m (c, w) else Some (Inl (Panic ''wrong wallet''), (c, w)))"

lemma wlp_with_pinned:
  assumes "keeps kept m"
  shows "wlp (with_pinned \<Gamma> h cred p m) (\<lambda>r s. (pinned_ok slot \<longrightarrow> pinned_ok (fst s)) \<and> (case r of
      Inr _ \<Rightarrow> pinned_wallet (fst s) = Some (wallet_key p)
    | Inl (Error _) \<Rightarrow> fst s = None
    | Inl (Panic _) \<Rightarrow> pinned_wallet (fst s) \<in> {None, Some (wallet_key p)})) (slot, w)"
  unfolding with_pinned_def wlp_simps
proof (rule wlp_ensure_conn, goal_cases)
  case (1 c' w')
  have "wlp m (\<lambda>r s. kept c' (fst s)) (c', w')" using assms by (simp add: keeps_def)
  with 1 show ?case
    unfolding sum.case wlp_simps
    by (auto elim!: wlp_conseq simp: kept_def pinned_ok_def pinned_wallet_def wlp_simps split: sum.splits fault.splits)
next
  case (2 e w')
  then show ?case by (auto simp: pinned_ok_def pinned_wallet_def split: fault.splits)
qed

section \<open>Outcomes of calls\<close>

fun call_path :: "client_call \<Rightarrow> string option" where
  "call_path (Bitcoin_Xpub h c p a n path) = path"
| "call_path (Ethereum_Address h c p a path) = path"
| "call_path (Ethereum_Tx h c p e a path) = path"
| "call_path (Ethereum_Message h c p a m path) = path"
| "call_path (Solana_Address h c p a path) = path"
| "call_path (Solana_Tx h c p t a path) = path"
| "call_path (Solana_Message h c p e a path) = path"
| "call_path (Tron_Address h c p a path) = path"
| "call_path (Tron_Tx h c p t a path) = path"
| "call_path _ = None"

definition path_error :: "client_call \<Rightarrow> fault option" where
  "path_error call = Option.bind (call_path call) (\<lambda>s. case parse_path s of Inl e \<Rightarrow> Some e | Inr _ \<Rightarrow> None)"

definition is_identify :: "client_call \<Rightarrow> bool" where
  "is_identify call = (case call of Identify_Paired h c \<Rightarrow> True | _ \<Rightarrow> False)"

definition outcome :: "client_call \<Rightarrow> connection option \<times> 'w \<Rightarrow> unit res \<Rightarrow> connection option \<times> 'w \<Rightarrow> bool" where
  "outcome call s r s' \<longleftrightarrow> (pinned_ok (fst s) \<longrightarrow> pinned_ok (fst s')) \<and> (case path_error call of
     Some e \<Rightarrow> r = Inl e \<and> s' = s
   | None \<Rightarrow> (case call_wallet call of
       None \<Rightarrow> fst s' = fst s
     | Some p \<Rightarrow> (case r of
         Inr _ \<Rightarrow> pinned_wallet (fst s') = Some (wallet_key p)
       | Inl (Error _) \<Rightarrow> fst s' = None \<or> is_identify call \<and> pinned_wallet (fst s') = Some (wallet_key p)
       | Inl (Panic _) \<Rightarrow> pinned_wallet (fst s') \<in> {None, Some (wallet_key p)})))"

lemma outcome_with_pinned:
  assumes "keeps kept m" "path_error call = None" "call_wallet call = Some p"
  shows "wlp (drop_result (with_pinned \<Gamma> h cred p m)) (outcome call (slot, w)) (slot, w)"
  unfolding wlp_simps
  by (rule wlp_conseq [OF wlp_with_pinned [OF assms(1)]])
    (auto simp: outcome_def assms(2,3) split: sum.splits fault.splits)

lemma outcome_with_path:
  assumes "\<And>a. keeps kept (m a)" "call_path call = path" "call_wallet call = Some p"
  shows "wlp (drop_result (with_path \<Gamma> h cred p path fallback m)) (outcome call (slot, w)) (slot, w)"
proof (cases "path_error call")
  case (Some e)
  then obtain s where "path = Some s" "parse_path s = Inl e"
    using assms(2) by (cases path) (auto simp: path_error_def split: sum.splits)
  with Some show ?thesis by (simp add: with_path_def resolve_path_def wlp_simps outcome_def)
next
  case None
  then obtain a where "resolve_path path fallback = Inr a"
    using assms(2) by (cases path) (auto simp: path_error_def resolve_path_def split: sum.splits)
  then have "drop_result (with_path \<Gamma> h cred p path fallback m) = drop_result (with_pinned \<Gamma> h cred p (m a))"
    by (simp add: with_path_def drop_result_def fun_eq_iff io_bind_def)
  then show ?thesis using outcome_with_pinned [OF assms(1) None assms(3)] by simp
qed

lemma outcome_on_fresh:
  assumes "path_error call = None" "call_wallet call = None"
  shows "wlp (drop_result (on_fresh m)) (outcome call (slot, w)) (slot, w)"
  using assms unfolding on_fresh_def wlp_simps split_beta
  by (auto simp: outcome_def wlp_def split: option.splits sum.splits)

lemma call_paths [simp]:
  "path_error Thp_Probe = None" "path_error (Establish h n a cr) = None" "path_error (Identify_Paired h c) = None"
  "path_error (Attestor_Pubkey h c) = None" "path_error (Sign_Message_Eth h c m) = None" "path_error Identify = None"
  "path_error Pair = None" "path_error (Sign_Message m) = None" "path_error (Bitcoin_Fingerprint h c p) = None"
  "path_error (Sign_Psbt h c p b f x a' n' path) = None" "path_error (Bitcoin_Message h c p l m a') = None"
  "path_error (Tron_Pubkey a') = None"
  by (simp_all add: path_error_def)

lemma outcome_stub:
  "path_error call = None \<Longrightarrow> call_wallet call = None \<Longrightarrow>
   wlp (drop_result (io_fail e)) (outcome call (slot, w)) (slot, w)"
  by (simp add: wlp_simps outcome_def)

lemma outcome_identify:
  "wlp (drop_result (identify_paired \<Gamma> h c)) (outcome (Identify_Paired h c) (slot, w)) (slot, w)"
proof -
  show ?thesis
    unfolding identify_paired_def wlp_simps
    by (rule wlp_conseq [OF wlp_with_pinned [OF keeps_chain_operations(1)]])
      (auto simp: outcome_def is_identify_def device_id_of_def wlp_simps split: sum.splits fault.splits option.splits)
qed

lemma perform_outcome:
  "wlp (perform \<Gamma> call) (outcome call (slot, w)) (slot, w)"
proof (cases call)
  case (Establish h n a cr)
  show ?thesis
  proof (cases "to_array32 h")
    case (Inl e)
    then show ?thesis by (simp add: Establish establish_paired_session_def wlp_simps outcome_def)
  next
    case (Inr hs)
    then have "drop_result (establish_paired_session \<Gamma> h n a cr) =
      drop_result (on_fresh (establish (env_host \<Gamma>) (env_crypto \<Gamma>) (env_proto \<Gamma>) hs n a cr))"
      by (simp add: establish_paired_session_def drop_result_def fun_eq_iff io_bind_def)
    then show ?thesis using outcome_on_fresh [of call] by (simp add: Establish)
  qed
qed (simp_all add: thp_probe_def outcome_on_fresh outcome_identify get_attestor_pubkey_def sign_message_eth_def
    identify_def pair_def sign_message_def get_bitcoin_account_xpub_def get_bitcoin_master_fingerprint_def sign_psbt_def
    sign_bitcoin_message_def get_ethereum_address_def sign_ethereum_tx_def sign_ethereum_message_def
    get_solana_address_def sign_solana_tx_def sign_solana_message_def get_tron_address_def get_tron_pubkey_def sign_tron_tx_def
    outcome_with_pinned outcome_with_path outcome_stub keeps_chain_operations)

section \<open>Histories of calls\<close>

inductive client_reach :: "('w, 't, 'r, 'g, 'x) client_env \<Rightarrow> 'w \<Rightarrow> connection option \<times> 'w \<Rightarrow> bool"
  for \<Gamma> :: "('w, 't, 'r, 'g, 'x) client_env" and w0 :: 'w where
  start: "client_reach \<Gamma> w0 (None, w0)"
| call: "client_reach \<Gamma> w0 s \<Longrightarrow> perform \<Gamma> call s = Some (r, s') \<Longrightarrow> client_reach \<Gamma> w0 s'"

text \<open>One concrete environment over the in-memory device.\<close>

definition demo_sol :: sol_proto where
  "demo_sol = \<lparr>enc_sol_get_address = (\<lambda>p d. []), dec_sol_address = (\<lambda>b. Inr ''S''), enc_sol_sign_tx = (\<lambda>p t. t),
     dec_sol_tx_signature = Inr, enc_sol_sign_message = (\<lambda>p m. m), dec_sol_message_signature = Inr\<rparr>"

definition demo_btc_proto :: btc_proto where
  "demo_btc_proto = \<lparr>enc_btc_sign_message = (\<lambda>p m c t. m),
     dec_btc_message_signature = (\<lambda>b. Inr \<lparr>bms_address = [], bms_signature = b\<rparr>),
     enc_btc_get_public_key = (\<lambda>p d c t i. []), dec_btc_public_key = (\<lambda>b. Inr \<lparr>pk_xpub = ''xpub'', pk_root_fingerprint = Some 1\<rparr>),
     enc_btc_sign_tx = (\<lambda>m. []), dec_btc_tx_request = (\<lambda>b. Inr \<lparr>rq_request_type = Some 3, rq_details = None, rq_serialized = None\<rparr>),
     enc_tx_ack_input = (\<lambda>m. []), enc_tx_ack_output = (\<lambda>m. []), enc_tx_ack_prev_meta = (\<lambda>m. []),
     enc_tx_ack_prev_input = (\<lambda>m. []), enc_tx_ack_prev_output = (\<lambda>m. []), show_request_type = (\<lambda>n. [])\<rparr>"

definition demo_env :: "(mock_state mock_inner, bytes, bytes, bytes, unit) client_env" where
  "demo_env = \<lparr>env_host = mock_host (on_message demo_crypto demo_proto (replicate 32 5)), env_crypto = demo_crypto,
     env_proto = demo_proto, env_eth = demo_eth, env_sol = demo_sol, env_tron = demo_tron, env_btc = demo_btc_proto,
     env_lib = demo_btc\<rparr>"

section \<open>Properties\<close>


text \<open>
  C16: what a call leaves pinned.  On every transport and whatever was pinned before: a call whose
  custom path does not parse fails with the parser's error and touches neither the pinned connection
  nor the transport; a call that needs no wallet leaves the pinned connection alone; any other call
  that succeeds leaves a connection of the wallet it asked for, and one that fails leaves none, except
  that \<open>identify_paired\<close> keeps it when only the identifier is missing; and a well-formed pinned
  connection stays well-formed.
\<close>

theorem client_call_outcome: "wlp (perform \<Gamma> call) (outcome call (slot, w)) (slot, w)"
  by (rule perform_outcome)



text \<open>
  C39: the bring-up probe against the in-memory device, from the exported method down to packets.
  It returns the properties the device announced and the state byte of the handshake, the device
  has derived its session keys, and the pinned connection is not touched.
\<close>

theorem probe_completes:
  assumes "crypto_laws C" "dec_device_properties P props = Inr dp" "length props + 14 < 2 ^ 16"
    and "dec_noise_payload P (enc_noise_payload P None) = Inr cr" "length (enc_noise_payload P None) + 68 < 2 ^ 16"
    and "env_host \<Gamma> = mock_host (on_message C P tepriv)" "env_crypto \<Gamma> = C" "env_proto \<Gamma> = P"
  shows "\<exists>w' keys. thp_probe \<Gamma> (slot, mock_new [] [e1, e2, e3] (mock_device_new C props tpriv)) =
      Some (Inr \<lparr>tp_internal_model = internal_model dp, tp_protocol_version_major = protocol_version_major dp,
        tp_protocol_version_minor = protocol_version_minor dp, tp_pairing_methods = pairing_methods dp,
        tp_trezor_state = [2]\<rparr>, (slot, w'))
    \<and> agreed_keys (device w') = Some keys"
proof -
  let ?d = "mock_device_new C props tpriv" and ?c = "connection_new BLE_PACKET_SIZE"
    and ?H = "mock_host (on_message C P tepriv)"
  let ?w = "mock_new [] [e1, e2, e3] ?d" and ?c1 = "?c\<lparr>cid := DEVICE_CID\<rparr>"
  have ps: "INIT_HEADER < BLE_PACKET_SIZE" by (simp add: header_defs BLE_PACKET_SIZE_def)
  have link: "mock_link ([e1, e2, e3], []) [] ?d ?w" by (simp add: mock_link_def mock_new_def none)
  obtain w1 where 1: "allocate ?H P (?c, ?w) =
      Some (Inr \<lparr>ca_cid = DEVICE_CID, ca_device_properties_raw = props, ca_device_properties = dp\<rparr>, (?c1, w1))"
      "mock_link ([e2, e3], []) [] (?d\<lparr>mock_phase := ExpectInit\<rparr>) w1"
    by (rule hsdev.allocate_on_device [OF assms(2,3) ps _ _ link, where C = C and tepriv = tepriv])
      (simp_all add: mock_device_new_def)
  have 2: "random_or_error ?H 32 (?c1, w1) = Some (Inr (resize 32 0 e2), (?c1, w1\<lparr>entropy := [e3]\<rparr>))"
      "mock_link ([e3], []) [] (?d\<lparr>mock_phase := ExpectInit\<rparr>) (w1\<lparr>entropy := [e3]\<rparr>)"
    using 1(2) by (simp_all add: random_or_error_def mock_host_def mock_random_def mock_link_def)
  obtain keys d' w2 where 3: "handshake ?H C P props (resize 32 0 e2) None (?c1, w1\<lparr>entropy := [e3]\<rparr>) = Some (Inr keys, (?c1, w2))"
      "mock_link ([], []) [] d' w2" "agreed_keys d' = Some (key_request keys, key_response keys)" "trezor_state keys = [2]"
    by (rule hsdev.handshake_on_device [OF assms(1,4,5) _ _ _ _ _ _ _ 2(2), where c = ?c1 and tpriv = tpriv
          and props = props and tepriv = tepriv and spriv = "resize 32 0 e2"])
      (use ps in \<open>simp_all add: connection_new_def mock_device_new_def\<close>)
  have "probe ?H C P (?c, ?w) = Some (Inr \<lparr>tp_internal_model = internal_model dp, tp_protocol_version_major = protocol_version_major dp,
        tp_protocol_version_minor = protocol_version_minor dp, tp_pairing_methods = pairing_methods dp,
        tp_trezor_state = [2]\<rparr>, (?c1, w2))"
    using 1(1) 2(1) 3(1,4) by (simp add: probe_def io_bind_def Let_def)
  then have "thp_probe \<Gamma> (slot, ?w) = Some (Inr \<lparr>tp_internal_model = internal_model dp, tp_protocol_version_major = protocol_version_major dp,
        tp_protocol_version_minor = protocol_version_minor dp, tp_pairing_methods = pairing_methods dp,
        tp_trezor_state = [2]\<rparr>, (slot, w2))"
    by (simp add: thp_probe_def assms(6-8) on_fresh_def io_bind_def on_world_def run_on_def)
  moreover have "agreed_keys (device w2) = Some (key_request keys, key_response keys)"
    using 3(2,3) by (simp add: mock_link_def)
  ultimately show ?thesis by blast
qed

theorem probe_completes_witness:
  "\<exists>w' keys. thp_probe demo_env (None, mock_new [] [replicate 8 1, replicate 32 2, replicate 32 3]
       (mock_device_new demo_crypto [10, 4] (replicate 32 0x22))) =
      Some (Inr \<lparr>tp_internal_model = ''T3W1'', tp_protocol_version_major = 2, tp_protocol_version_minor = 0,
        tp_pairing_methods = [2], tp_trezor_state = [2]\<rparr>, (None, w'))
    \<and> agreed_keys (device w') = Some keys"
proof -
  have laws: "crypto_laws demo_crypto"
    by (simp add: crypto_laws_def demo_aead_correct demo_hash_lengths demo_dh_laws)
  have codec: "dec_device_properties demo_proto [10, 4] = Inr
      \<lparr>internal_model = ''T3W1'', protocol_version_major = 2, protocol_version_minor = 0, pairing_methods = [2]\<rparr>"
      "dec_noise_payload demo_proto (enc_noise_payload demo_proto None) = Inr None"
      "length (enc_noise_payload demo_proto None) + 68 < 2 ^ 16"
    by (simp_all add: demo_proto_def)
  show ?thesis
    using probe_completes [OF laws codec(1) _ codec(2,3), where \<Gamma> = demo_env and tepriv = "replicate 32 5"
        and ?e1.0 = "replicate 8 1" and ?e2.0 = "replicate 32 2" and ?e3.0 = "replicate 32 3" and slot = None
        and tpriv = "replicate 32 0x22"]
    by (simp add: demo_env_def)
qed

end
