(* ===== verification/Psbt_Signing.thy ===== *)
theory Psbt_Signing
  imports Bitcoin
begin

text \<open>
  Correctness of PSBT signing: the exchange against any list of device replies, the merge of the
  signatures, and what the device learns of the transaction and of the transactions it spends.
\<close>

section \<open>Lemmas: the exchange\<close>

text \<open>The loop against a list of replies: it consumes them one by one, so it always ends.\<close>

fun answered :: "('g, 'x) btc_lib \<Rightarrow> btc_proto \<Rightarrow> ('g, 'x) psbt \<Rightarrow> network \<Rightarrow> (u16 \<times> bytes) list \<Rightarrow> sig_map \<Rightarrow>
    sig_map res \<times> (u16 \<times> bytes) list" where
  "answered L B psbt network [] sigs = (Err (Transport ''script exhausted''), [])"
| "answered L B psbt network (reply # rs) sigs =
     (case expect_reply ''TxRequest'' BTC_TX_REQUEST (dec_btc_tx_request B) reply of
        Inl e \<Rightarrow> (Inl e, [])
      | Inr req \<Rightarrow> (case tx_ack L B psbt network req of
            Inl e \<Rightarrow> (Inl e, [])
          | Inr None \<Rightarrow> (Inr (note_signature req sigs), [])
          | Inr (Some ack) \<Rightarrow>
              apsnd (Cons (BTC_TX_ACK, ack)) (answered L B psbt network rs (note_signature req sigs))))"

lemma sign_psbt_loop:
  "map_option (\<lambda>(r, s). (r, sent s)) (io_loop (sign_psbt_body scripted L B psbt network) (reply, sigs)
     \<lparr>replies = rs, sent = ms\<rparr>) = Some (apsnd ((@) ms) (answered L B psbt network (reply # rs) sigs))"
proof (induction rs arbitrary: reply sigs ms)
  case Nil
  show ?case
    by (subst io_loop.simps)
      (auto simp: sign_psbt_body_def Let_def io_bind_def scripted_def split: sum.splits option.splits prod.splits)
next
  case (Cons r rs)
  show ?case
  proof (cases "expect_reply ''TxRequest'' BTC_TX_REQUEST (dec_btc_tx_request B) reply")
    case (Inr req)
    have IH: "map_option (\<lambda>(r, s). (r, sent s)) (io_loop (sign_psbt_body scripted L B psbt network)
        (r, note_signature req sigs) \<lparr>replies = rs, sent = ms @ [(BTC_TX_ACK, ack)]\<rparr>) =
      Some (apsnd ((@) (ms @ [(BTC_TX_ACK, ack)])) (answered L B psbt network (r # rs) (note_signature req sigs)))" for ack
      by (rule Cons.IH)
    show ?thesis
      using Inr IH
      by (subst io_loop.simps)
        (auto simp: sign_psbt_body_def Let_def io_bind_def scripted_def apsnd_def map_prod_def
          split: sum.splits option.splits prod.splits simp del: answered.simps(2)
          simp: answered.simps(2) [of L B psbt network reply])
  next
    case (Inl e)
    then show ?thesis
      by (subst io_loop.simps) (simp add: sign_psbt_body_def)
  qed
qed

text \<open>The exchange that ends well: a list of requests that are answered, and one that finishes.\<close>

definition finishes :: "('g, 'x) btc_lib \<Rightarrow> btc_proto \<Rightarrow> ('g, 'x) psbt \<Rightarrow> network \<Rightarrow> (u16 \<times> bytes) list \<Rightarrow>
    tx_request list \<Rightarrow> bytes list \<Rightarrow> bool" where
  "finishes L B psbt network rs reqs acks \<longleftrightarrow> (\<exists>bs rest. rs = map (Pair BTC_TX_REQUEST) bs @ rest
     \<and> map (dec_btc_tx_request B) bs = map Inr reqs
     \<and> map (tx_ack L B psbt network) reqs = map (Inr \<circ> Some) acks @ [Inr None])"

lemma finishes_Nil: "\<not> finishes L B psbt network [] reqs acks"
  by (auto simp: finishes_def)

lemma finishes_Cons:
  "finishes L B psbt network (reply # rs) reqs acks \<longleftrightarrow>
   (\<exists>req reqs'. expect_reply ''TxRequest'' BTC_TX_REQUEST (dec_btc_tx_request B) reply = Inr req \<and> reqs = req # reqs'
      \<and> (tx_ack L B psbt network req = Inr None \<and> reqs' = [] \<and> acks = []
       \<or> (\<exists>ack acks'. tx_ack L B psbt network req = Inr (Some ack) \<and> acks = ack # acks'
            \<and> finishes L B psbt network rs reqs' acks')))" (is "?l \<longleftrightarrow> ?r")
proof
  assume ?l
  then obtain bs rest where bs: "reply # rs = map (Pair BTC_TX_REQUEST) bs @ rest"
    "map (dec_btc_tx_request B) bs = map Inr reqs"
    "map (tx_ack L B psbt network) reqs = map (Inr \<circ> Some) acks @ [Inr None]"
    by (auto simp: finishes_def)
  then obtain b bs' req reqs' where "bs = b # bs'" "reqs = req # reqs'" by (cases bs; cases reqs) auto
  with bs show ?r
    by (cases reply; cases acks) (auto simp: expect_reply_Inr finishes_def)
next
  assume ?r
  then obtain req reqs' where r: "expect_reply ''TxRequest'' BTC_TX_REQUEST (dec_btc_tx_request B) reply = Inr req"
    "reqs = req # reqs'" "tx_ack L B psbt network req = Inr None \<and> reqs' = [] \<and> acks = []
       \<or> (\<exists>ack acks'. tx_ack L B psbt network req = Inr (Some ack) \<and> acks = ack # acks'
            \<and> finishes L B psbt network rs reqs' acks')" by blast
  obtain b where b: "reply = (BTC_TX_REQUEST, b)" "dec_btc_tx_request B b = Inr req"
    using r(1) by (cases reply) (auto simp: expect_reply_Inr)
  from r(3) show ?l
  proof
    assume "tx_ack L B psbt network req = Inr None \<and> reqs' = [] \<and> acks = []"
    then show ?l using b r(2) unfolding finishes_def by (intro exI [of _ "[b]"] exI [of _ rs]) simp
  next
    assume "\<exists>ack acks'. tx_ack L B psbt network req = Inr (Some ack) \<and> acks = ack # acks'
            \<and> finishes L B psbt network rs reqs' acks'"
    then obtain ack acks' bs rest where "tx_ack L B psbt network req = Inr (Some ack)" "acks = ack # acks'"
      "rs = map (Pair BTC_TX_REQUEST) bs @ rest" "map (dec_btc_tx_request B) bs = map Inr reqs'"
      "map (tx_ack L B psbt network) reqs' = map (Inr \<circ> Some) acks' @ [Inr None]"
      by (auto simp: finishes_def)
    then show ?l using b r(2) unfolding finishes_def by (intro exI [of _ "b # bs"] exI [of _ rest]) simp
  qed
qed

lemma answered_success:
  "answered L B psbt network rs sigs = (Inr sigs', ms) \<longleftrightarrow>
   (\<exists>reqs acks. finishes L B psbt network rs reqs acks \<and> sigs' = fold note_signature reqs sigs
      \<and> ms = map (Pair BTC_TX_ACK) acks)"
proof (induction rs arbitrary: sigs ms)
  case Nil
  show ?case by (simp add: finishes_Nil)
next
  case (Cons reply rs)
  show ?case
  proof (cases "expect_reply ''TxRequest'' BTC_TX_REQUEST (dec_btc_tx_request B) reply")
    case (Inl e)
    then show ?thesis by (simp add: finishes_Cons)
  next
    case (Inr req)
    show ?thesis
    proof (cases "tx_ack L B psbt network req")
      case (Inr a)
      note req = \<open>expect_reply _ _ _ reply = Inr req\<close>
      show ?thesis
      proof (cases a)
        case None
        with req Inr show ?thesis by (auto simp: finishes_Cons)
      next
        case (Some ack)
        have "answered L B psbt network (reply # rs) sigs = (Inr sigs', ms) \<longleftrightarrow>
          (\<exists>ms'. answered L B psbt network rs (note_signature req sigs) = (Inr sigs', ms') \<and> ms = (BTC_TX_ACK, ack) # ms')"
          using req Inr Some by (cases "answered L B psbt network rs (note_signature req sigs)") auto
        also have "\<dots> \<longleftrightarrow> (\<exists>reqs acks. finishes L B psbt network rs reqs acks
            \<and> sigs' = fold note_signature (req # reqs) sigs \<and> ms = map (Pair BTC_TX_ACK) (ack # acks))"
          unfolding Cons.IH by auto
        also have "\<dots> \<longleftrightarrow> (\<exists>reqs acks. finishes L B psbt network (reply # rs) reqs acks
            \<and> sigs' = fold note_signature reqs sigs \<and> ms = map (Pair BTC_TX_ACK) acks)"
          using req Inr Some unfolding finishes_Cons by force
        finally show ?thesis .
      qed
    next
      case (Inl e)
      with \<open>expect_reply _ _ _ reply = Inr req\<close> show ?thesis by (simp add: finishes_Cons)
    qed
  qed
qed

definition network_of :: "u32 \<Rightarrow> network" where
  "network_of coin_type = (if coin_type = 1 then Testnet else Bitcoin_Network)"

text \<open>
  C9: the streaming exchange, against any device that answers with any list of replies.  It always
  ends.  It returns a signed PSBT exactly when the replies are requests that decode, each but the
  last is answered from the PSBT as it asks, the last says it is finished, and the signatures
  received on the way merge into the PSBT; the host has then sent \<open>SignTx\<close> and exactly the answers,
  in the order of the requests.
\<close>

theorem sign_psbt_exchange:
  "transcript (sign_psbt_over scripted scripted L B psbt_base64 coin_type) rs \<noteq> None
   \<and> (transcript (sign_psbt_over scripted scripted L B psbt_base64 coin_type) rs = Some (Inr out, ms) \<longleftrightarrow>
     (\<exists>psbt reqs acks merged. psbt_from_str L psbt_base64 = Inr psbt
        \<and> finishes L B psbt (network_of coin_type) rs reqs acks
        \<and> merge_sigs L psbt (fold note_signature reqs []) = Inr merged \<and> out = psbt_to_string L merged
        \<and> ms = (BTC_SIGN_TX, enc_btc_sign_tx B (btc_sign_request psbt coin_type)) # map (Pair BTC_TX_ACK) acks))"
proof (cases "psbt_from_str L psbt_base64")
  case (Inl e)
  then show ?thesis by (simp add: transcript_def sign_psbt_over_def)
next
  case (Inr psbt)
  define net where "net = network_of coin_type"
  define m where "m = (BTC_SIGN_TX, enc_btc_sign_tx B (btc_sign_request psbt coin_type))"
  obtain r ms' where a: "answered L B psbt net rs [] = (r, ms')" by fastforce
  have "transcript (sign_psbt_over scripted scripted L B psbt_base64 coin_type) rs =
    Some (res_bind r (\<lambda>sigs. res_bind (merge_sigs L psbt sigs) (\<lambda>merged. Inr (psbt_to_string L merged))), m # ms')"
  proof (cases rs)
    case Nil
    with a Inr show ?thesis
      by (auto simp: transcript_def sign_psbt_over_def m_def Let_def)
  next
    case (Cons reply rest)
    have "map_option (\<lambda>(r, s). (r, sent s)) (io_loop (sign_psbt_body scripted L B psbt net) (reply, [])
        \<lparr>replies = rest, sent = [m]\<rparr>) = Some (r, m # ms')"
      using a unfolding sign_psbt_loop Cons by simp
    then obtain s where "io_loop (sign_psbt_body scripted L B psbt net) (reply, []) \<lparr>replies = rest, sent = [m]\<rparr> = Some (r, s)"
      "sent s = m # ms'" by auto
    then show ?thesis
      using Inr Cons
      by (cases r) (auto simp: transcript_def sign_psbt_over_def m_def net_def network_of_def Let_def io_bind_def scripted_def
          split: sum.splits)
  qed
  moreover have "res_bind r (\<lambda>sigs. res_bind (merge_sigs L psbt sigs) (\<lambda>merged. Inr (psbt_to_string L merged))) = Inr out
    \<and> m # ms' = ms \<longleftrightarrow> (\<exists>sigs acks merged. answered L B psbt net rs [] = (Inr sigs, acks)
        \<and> merge_sigs L psbt sigs = Inr merged \<and> out = psbt_to_string L merged \<and> ms = m # acks)"
    using a by (auto simp: res_bind_eq_Inr)
  moreover have "\<dots> \<longleftrightarrow> (\<exists>reqs acks merged. finishes L B psbt net rs reqs acks
        \<and> merge_sigs L psbt (fold note_signature reqs []) = Inr merged \<and> out = psbt_to_string L merged
        \<and> ms = m # map (Pair BTC_TX_ACK) acks)"
    unfolding answered_success by blast
  ultimately show ?thesis using Inr by (simp add: m_def net_def)
qed

section \<open>Lemmas: merging\<close>

definition reported :: "tx_request \<Rightarrow> (u32 \<times> bytes) option" where
  "reported req = Option.bind (rq_serialized req) (\<lambda>ser.
     Option.bind (rs_signature_index ser) (\<lambda>i. map_option (Pair i) (rs_signature ser)))"

text \<open>The last signature a list of requests reports for an input.\<close>

definition last_signature :: "tx_request list \<Rightarrow> nat \<Rightarrow> bytes option" where
  "last_signature reqs = map_of (rev (map (apfst unat) (List.map_filter reported reqs)))"

lemma note_signature_reported:
  "note_signature req sigs = (case reported req of None \<Rightarrow> sigs | Some (i, sig) \<Rightarrow> sigs_insert i sig sigs)"
  by (auto simp: note_signature_def reported_def split: option.splits)

text \<open>The entries of the signature map stay in key order, and an insertion replaces.\<close>

lemma sigs_insert_set: "fst ` set (sigs_insert k v m) = insert k (fst ` set m)"
  by (induction k v m rule: sigs_insert.induct) auto

lemma sigs_insert_sorted: "sorted_wrt (<) (map fst m) \<Longrightarrow> sorted_wrt (<) (map fst (sigs_insert k v m))"
proof (induction k v m rule: sigs_insert.induct)
  case (2 k v k' v' m)
  then have "\<forall>x\<in>fst ` set (sigs_insert k v m). k' < x" if "\<not> k < k'" "k \<noteq> k'"
    using that by (auto simp: sigs_insert_set)
  with 2 show ?case by (auto simp: image_iff)
qed simp

lemma sigs_insert_lookup:
  "map_of (map (apfst unat) (sigs_insert k v m)) = (map_of (map (apfst unat) m))(unat k \<mapsto> v)"
  by (induction k v m rule: sigs_insert.induct) (auto simp: fun_eq_iff word_unat_eq_iff)

lemma fold_sorted:
  "sorted_wrt (<) (map fst sigs) \<Longrightarrow> sorted_wrt (<) (map fst (fold note_signature reqs sigs))"
  by (induction reqs arbitrary: sigs) (auto simp: note_signature_reported sigs_insert_sorted split: option.splits)

lemma fold_lookup:
  "map_of (map (apfst unat) (fold note_signature reqs sigs)) = map_of (map (apfst unat) sigs) ++ last_signature reqs"
proof (induction reqs arbitrary: sigs)
  case (Cons req reqs)
  then show ?case
    by (auto simp: last_signature_def note_signature_reported sigs_insert_lookup map_filter_simps map_add_def fun_eq_iff
        split: option.splits)
qed (simp add: last_signature_def map_filter_simps)

text \<open>When a signature can be merged, and the input it is merged into.\<close>

definition mergeable :: "('g, 'x) btc_lib \<Rightarrow> ('g, 'x) psbt \<Rightarrow> nat \<Rightarrow> bytes \<Rightarrow> bool" where
  "mergeable L psbt i der \<longleftrightarrow> i < length (psbt_inputs psbt)
     \<and> pi_bip32_derivation (psbt_inputs psbt ! i) \<noteq> [] \<and> (\<exists>sig. from_der L der = Inr sig)"

definition signed_with :: "('g, 'x) btc_lib \<Rightarrow> ('g, 'x) psbt_input \<Rightarrow> bytes \<Rightarrow> ('g, 'x) psbt_input \<Rightarrow> bool" where
  "signed_with L pin der pin' \<longleftrightarrow> (\<exists>key path sig. first_derivation (pi_bip32_derivation pin) = Some (key, path)
     \<and> from_der L der = Inr sig
     \<and> pin' = pin\<lparr>pi_partial_sigs := (pi_partial_sigs pin)(key \<mapsto> (sig, Sighash_All))\<rparr>)"

lemma merge_one_spec:
  "merge_one L psbt i der = Inr psbt' \<longleftrightarrow> mergeable L psbt (unat i) der
     \<and> (\<exists>pin. signed_with L (psbt_inputs psbt ! unat i) der pin \<and> psbt' = psbt\<lparr>psbt_inputs := (psbt_inputs psbt)[unat i := pin]\<rparr>)"
  by (auto simp: merge_one_def mergeable_def signed_with_def get_or_def res_bind_eq_Inr first_derivation_def decoded_def
      split: option.splits list.splits sum.splits prod.splits)

lemma merge_one_total: "mergeable L psbt (unat i) der \<Longrightarrow> \<exists>psbt'. merge_one L psbt i der = Inr psbt'"
  by (auto simp: merge_one_def mergeable_def get_or_def first_derivation_def split: list.splits)

lemma merge_one_mergeable: "merge_one L psbt i der = Inr psbt' \<Longrightarrow> mergeable L psbt' j = mergeable L psbt j"
  by (cases "j = unat i") (auto simp: merge_one_spec mergeable_def signed_with_def fun_eq_iff)

lemma merge_sigs_nopanic: "\<not> is_panic (merge_sigs L psbt sigs)"
proof (induction L psbt sigs rule: merge_sigs.induct)
  case (2 L psbt i der sigs)
  have "\<not> is_panic (merge_one L psbt i der)"
    by (auto simp: merge_one_def get_or_def first_derivation_def decoded_def is_panic_Inl
        split: option.splits list.splits sum.splits)
  with 2 show ?case unfolding merge_sigs.simps by (intro nopanic_bind)
qed simp

lemma merge_sigs_total:
  "is_err (merge_sigs L psbt sigs) \<longleftrightarrow> \<not> list_all (\<lambda>(i, der). mergeable L psbt (unat i) der) sigs"
proof (induction L psbt sigs rule: merge_sigs.induct)
  case (2 L psbt i der sigs)
  show ?case
  proof (cases "merge_one L psbt i der")
    case (Inr psbt')
    then have "mergeable L psbt (unat i) der" by (simp add: merge_one_spec)
    with Inr show ?thesis using 2 [of psbt'] merge_one_mergeable [OF Inr] by simp
  next
    case (Inl e)
    then have "\<not> mergeable L psbt (unat i) der" using merge_one_total by fastforce
    with Inl show ?thesis by simp
  qed
qed simp

lemma merge_sigs_inputs:
  assumes "merge_sigs L psbt sigs = Inr merged" "sorted_wrt (<) (map fst sigs)"
  shows "merged = psbt\<lparr>psbt_inputs := psbt_inputs merged\<rparr> \<and> length (psbt_inputs merged) = length (psbt_inputs psbt)
    \<and> (\<forall>i<length (psbt_inputs psbt). case map_of (map (apfst unat) sigs) i of
         None \<Rightarrow> psbt_inputs merged ! i = psbt_inputs psbt ! i
       | Some der \<Rightarrow> signed_with L (psbt_inputs psbt ! i) der (psbt_inputs merged ! i))"
  using assms
proof (induction L psbt sigs rule: merge_sigs.induct)
  case (2 L psbt k der sigs)
  then obtain psbt' where psbt': "merge_one L psbt k der = Inr psbt'" "merge_sigs L psbt' sigs = Inr merged"
    by (auto simp: res_bind_eq_Inr)
  then obtain pin where pin: "signed_with L (psbt_inputs psbt ! unat k) der pin" "unat k < length (psbt_inputs psbt)"
    "psbt' = psbt\<lparr>psbt_inputs := (psbt_inputs psbt)[unat k := pin]\<rparr>"
    by (auto simp: merge_one_spec mergeable_def)
  have IH: "merged = psbt'\<lparr>psbt_inputs := psbt_inputs merged\<rparr> \<and> length (psbt_inputs merged) = length (psbt_inputs psbt')
    \<and> (\<forall>i<length (psbt_inputs psbt'). case map_of (map (apfst unat) sigs) i of
         None \<Rightarrow> psbt_inputs merged ! i = psbt_inputs psbt' ! i
       | Some der \<Rightarrow> signed_with L (psbt_inputs psbt' ! i) der (psbt_inputs merged ! i))"
    using 2 psbt' by simp
  have new: "map_of (map (apfst unat) sigs) (unat k) = None"
    using "2.prems"(2) by (auto simp: map_of_eq_None_iff word_unat_eq_iff [symmetric])
  have "case map_of (map (apfst unat) ((k, der) # sigs)) i of
         None \<Rightarrow> psbt_inputs merged ! i = psbt_inputs psbt ! i
       | Some der \<Rightarrow> signed_with L (psbt_inputs psbt ! i) der (psbt_inputs merged ! i)"
    if "i < length (psbt_inputs psbt)" for i
    using IH that pin new by (cases "i = unat k") (auto split: option.splits)
  with IH pin(3) show ?case by simp
qed simp

text \<open>
  C4: what the signed PSBT is.  From the signatures the device reported, in any order and any number
  of times per input, merging fails (never with a panic) exactly when the last one for some input
  names no input, has no derivation to take a key from, or does not parse; otherwise the result is
  the PSBT with only the partial signatures of its inputs changed, each reported input getting its
  last signature under the first key of its derivations with \<open>SIGHASH_ALL\<close>.
\<close>

theorem merged_signatures:
  "case merge_sigs L psbt (fold note_signature reqs []) of
     Inl e \<Rightarrow> (\<nexists>s. e = Panic s) \<and> (\<exists>i der. last_signature reqs i = Some der \<and> \<not> mergeable L psbt i der)
   | Inr merged \<Rightarrow> (\<nexists>i der. last_signature reqs i = Some der \<and> \<not> mergeable L psbt i der)
       \<and> merged = psbt\<lparr>psbt_inputs := psbt_inputs merged\<rparr>
       \<and> length (psbt_inputs merged) = length (psbt_inputs psbt)
       \<and> list_all (\<lambda>i. case last_signature reqs i of
             None \<Rightarrow> psbt_inputs merged ! i = psbt_inputs psbt ! i
           | Some der \<Rightarrow> signed_with L (psbt_inputs psbt ! i) der (psbt_inputs merged ! i)) [0..<length (psbt_inputs psbt)]"
proof -
  define sigs where "sigs = fold note_signature reqs []"
  have sorted: "sorted_wrt (<) (map fst sigs)" unfolding sigs_def by (rule fold_sorted) simp
  have look: "map_of (map (apfst unat) sigs) = last_signature reqs" by (simp add: sigs_def fold_lookup)
  have "distinct (map fst sigs)" using sorted by (simp add: strict_sorted_iff)
  then have dist: "distinct (map fst (map (apfst unat) sigs))"
    by (simp add: distinct_map comp_def inj_on_def word_unat_eq_iff [symmetric])
  have look2: "last_signature reqs i = Some der \<longleftrightarrow> (\<exists>k. i = unat k \<and> (k, der) \<in> set sigs)" for i der
    unfolding look [symmetric] map_of_eq_Some_iff [OF dist] by (force simp: apfst_def map_prod_def)
  have all: "list_all (\<lambda>(i, der). mergeable L psbt (unat i) der) sigs \<longleftrightarrow>
      (\<nexists>i der. last_signature reqs i = Some der \<and> \<not> mergeable L psbt i der)"
    unfolding look2 by (auto simp: list_all_iff)
  show ?thesis
  proof (cases "merge_sigs L psbt sigs")
    case (Inl e)
    then show ?thesis
      using merge_sigs_total [of L psbt sigs] merge_sigs_nopanic [of L psbt sigs] all
      unfolding sigs_def [symmetric] by (auto simp: is_panic_Inl)
  next
    case (Inr merged)
    then show ?thesis
      using merge_sigs_total [of L psbt sigs] all merge_sigs_inputs [OF Inr sorted]
      unfolding sigs_def [symmetric] look by (simp add: list_all_iff)
  qed
qed

section \<open>Lemmas: what the device is told\<close>

lemma get_or_ok: "i < length xs \<Longrightarrow> get_or xs i msg = Inr (xs ! i)"
  by (simp add: get_or_def)

lemma map_answers:
  assumes "length xs = n" "\<And>i. i < n \<Longrightarrow> f i = Inr (xs ! i)"
  shows "map f [0..<n] = map Inr xs"
  using assms by (intro nth_equalityI) auto

text \<open>What the types of the crate guarantee of a transaction: a 32-bit version, countable inputs and outputs.\<close>

definition tx_ok :: "transaction \<Rightarrow> bool" where
  "tx_ok t \<longleftrightarrow> - (2 ^ 31) \<le> tx_version t \<and> tx_version t < 2 ^ 31
     \<and> length (tx_input t) < 2 ^ 32 \<and> length (tx_output t) < 2 ^ 32"

lemma sint_version: "tx_ok t \<Longrightarrow> sint (of_int (tx_version t) :: u32) = tx_version t"
  by (simp add: tx_ok_def sint_sbintrunc' signed_take_bit_int_eq_self)

lemma unat_count: "n < 2 ^ 32 \<Longrightarrow> unat (of_nat n :: u32) = n"
  by (simp add: unat_of_nat take_bit_nat_eq_self)

text \<open>
  A transaction id does not depend on the witnesses; a device that hashes what it was sent has no
  witnesses to hash.
\<close>

definition strip_witness :: "transaction \<Rightarrow> transaction" where
  "strip_witness t = t\<lparr>tx_input := map (\<lambda>i. i\<lparr>ti_witness := []\<rparr>) (tx_input t)\<rparr>"

definition txid_ignores_witness :: "('g, 'x) btc_lib \<Rightarrow> bool" where
  "txid_ignores_witness L \<longleftrightarrow> (\<forall>t. compute_txid L (strip_witness t) = compute_txid L t)"

definition prev_txs_ok :: "('g, 'x) psbt \<Rightarrow> bool" where
  "prev_txs_ok psbt \<longleftrightarrow> list_all (\<lambda>pin. case pi_non_witness_utxo pin of None \<Rightarrow> True | Some t \<Rightarrow> tx_ok t) (psbt_inputs psbt)"

definition device_prev_tx :: "btc_prev_tx \<Rightarrow> btc_prev_input list \<Rightarrow> btc_prev_output list \<Rightarrow> transaction" where
  "device_prev_tx meta ins outs =
     \<lparr>tx_version = sint (pt_version meta), tx_lock_time = pt_lock_time meta,
      tx_input = map (\<lambda>p. \<lparr>ti_txid = rev (bp_prev_hash p), ti_vout = bp_prev_index p,
        ti_script_sig = bp_script_sig p, ti_sequence = bp_sequence p, ti_witness = []\<rparr>) ins,
      tx_output = map (\<lambda>q. \<lparr>to_value = bq_amount q, to_script_pubkey = bq_script_pubkey q\<rparr>) outs\<rparr>"

lemma find_prev_tx_cases:
  "case find_prev_tx L psbt h of
     Inl e \<Rightarrow> \<not> list_ex (prev_tx_matches L h) (psbt_inputs psbt)
   | Inr prev \<Rightarrow> rev (compute_txid L prev) = h \<and> (\<exists>pin\<in>set (psbt_inputs psbt). pi_non_witness_utxo pin = Some prev)"
proof (cases "find (prev_tx_matches L h) (psbt_inputs psbt)")
  case None
  then have "\<not> list_ex (prev_tx_matches L h) (psbt_inputs psbt)" by (auto simp: find_None_iff list_ex_iff)
  with None show ?thesis by (simp add: find_prev_tx_def)
next
  case (Some pin)
  then have "pin \<in> set (psbt_inputs psbt)" "prev_tx_matches L h pin" by (auto simp: find_Some_iff)
  with Some show ?thesis
    by (auto simp: find_prev_tx_def prev_tx_matches_def split: option.splits)
qed

text \<open>One concrete PSBT, for evaluating the definitions.\<close>

definition demo_prev :: transaction where
  "demo_prev = \<lparr>tx_version = 2, tx_lock_time = 0, tx_input = [],
     tx_output = [\<lparr>to_value = 60000, to_script_pubkey = [0]\<rparr>]\<rparr>"

definition demo_psbt :: "(bytes, unit) psbt" where
  "demo_psbt = \<lparr>unsigned_tx = \<lparr>tx_version = 2, tx_lock_time = 0,
       tx_input = [\<lparr>ti_txid = replicate 32 0, ti_vout = 0, ti_script_sig = [], ti_sequence = 0xfffffffd, ti_witness = []\<rparr>],
       tx_output = [\<lparr>to_value = 50000, to_script_pubkey = [7]\<rparr>, \<lparr>to_value = 9000, to_script_pubkey = [84]\<rparr>]\<rparr>,
     psbt_inputs = [\<lparr>pi_witness_utxo = None, pi_non_witness_utxo = Some demo_prev,
       pi_bip32_derivation = [([2], [0], [0x80000054, 0])], pi_partial_sigs = Map.empty, pi_other = ()\<rparr>],
     psbt_outputs = [\<lparr>po_bip32_derivation = [], po_other = ()\<rparr>,
       \<lparr>po_bip32_derivation = [([2], [0], [0x80000054, 1])], po_other = ()\<rparr>],
     psbt_other = ()\<rparr>"

text \<open>
  C15: previous transactions are streamed faithfully.  For a hash the device asks about, the host
  refuses exactly when no input carries a transaction with that id; otherwise the counts it announces
  are those of the transaction, every input and output within them is answered, and the transaction a
  device reassembles from the answers has exactly the id it asked for, so the amounts it verifies are
  the ones that id commits to.
\<close>

theorem prev_tx_streamed:
  assumes "txid_ignores_witness L" "prev_txs_ok psbt"
  shows "case build_prev_meta_ack L psbt h of
     Inl e \<Rightarrow> \<not> list_ex (prev_tx_matches L h) (psbt_inputs psbt)
   | Inr meta \<Rightarrow> \<exists>ins outs. map (build_prev_input_ack L psbt h) [0..<unat (pt_inputs_count meta)] = map Inr ins
       \<and> map (build_prev_output_ack L psbt h) [0..<unat (pt_outputs_count meta)] = map Inr outs
       \<and> rev (compute_txid L (device_prev_tx meta ins outs)) = h"
proof (cases "find_prev_tx L psbt h")
  case (Inl e)
  then show ?thesis using find_prev_tx_cases [where L = L and psbt = psbt and h = h] by (simp add: build_prev_meta_ack_def)
next
  case (Inr prev)
  then have prev: "rev (compute_txid L prev) = h" "tx_ok prev"
    using find_prev_tx_cases [where L = L and psbt = psbt and h = h] assms(2) by (auto simp: prev_txs_ok_def list_all_iff)
  define ins where "ins = map (\<lambda>t. \<lparr>bp_prev_hash = rev (ti_txid t), bp_prev_index = ti_vout t,
    bp_script_sig = ti_script_sig t, bp_sequence = ti_sequence t\<rparr>) (tx_input prev)"
  define outs where "outs = map (\<lambda>t. \<lparr>bq_amount = to_value t, bq_script_pubkey = to_script_pubkey t\<rparr>) (tx_output prev)"
  obtain meta where meta: "build_prev_meta_ack L psbt h = Inr meta" "unat (pt_inputs_count meta) = length (tx_input prev)"
      "unat (pt_outputs_count meta) = length (tx_output prev)" "sint (pt_version meta) = tx_version prev"
      "pt_lock_time meta = tx_lock_time prev"
    using Inr prev(2) sint_version [OF prev(2)] by (auto simp: build_prev_meta_ack_def tx_ok_def unat_count)
  have "map (build_prev_input_ack L psbt h) [0..<unat (pt_inputs_count meta)] = map Inr ins"
    using Inr meta(2) by (intro map_answers) (simp_all add: ins_def build_prev_input_ack_def get_or_ok)
  moreover have "map (build_prev_output_ack L psbt h) [0..<unat (pt_outputs_count meta)] = map Inr outs"
    using Inr meta(3) by (intro map_answers) (simp_all add: outs_def build_prev_output_ack_def get_or_ok)
  moreover have "device_prev_tx meta ins outs = strip_witness prev"
    by (rule transaction.equality)
      (simp_all add: device_prev_tx_def strip_witness_def ins_def outs_def meta comp_def map_idI)
  ultimately show ?thesis
    using meta(1) prev(1) assms(1) by (auto simp: txid_ignores_witness_def)
qed

theorem prev_tx_streamed_witness:
  "\<exists>meta ins outs. build_prev_meta_ack demo_btc demo_psbt (replicate 32 0) = Inr meta
     \<and> map (build_prev_output_ack demo_btc demo_psbt (replicate 32 0)) [0..<unat (pt_outputs_count meta)] = map Inr outs
     \<and> rev (compute_txid demo_btc (device_prev_tx meta ins outs)) = replicate 32 0"
proof -
  have laws: "txid_ignores_witness demo_btc" "prev_txs_ok demo_psbt"
    by (simp_all add: txid_ignores_witness_def demo_btc_def strip_witness_def prev_txs_ok_def demo_psbt_def demo_prev_def tx_ok_def)
  have "rev (compute_txid demo_btc demo_prev) = replicate 32 0"
    by (simp add: demo_btc_def demo_prev_def numeral_eq_Suc)
  then have "list_ex (prev_tx_matches demo_btc (replicate 32 0)) (psbt_inputs demo_psbt)"
    by (simp add: demo_psbt_def prev_tx_matches_def)
  then show ?thesis
    using prev_tx_streamed [OF laws, of "replicate 32 0"]
    by (cases "build_prev_meta_ack demo_btc demo_psbt (replicate 32 0)") auto
qed

text \<open>The transaction the device is asked to sign, as it reassembles it.\<close>

definition device_tx :: "(string \<Rightarrow> bytes) \<Rightarrow> (u32 list \<Rightarrow> int option \<Rightarrow> bytes) \<Rightarrow> btc_sign_tx \<Rightarrow> btc_tx_input list \<Rightarrow>
    btc_tx_output list \<Rightarrow> transaction" where
  "device_tx script_of derive req ins outs =
     \<lparr>tx_version = sint (the (st_version req)), tx_lock_time = the (st_lock_time req),
      tx_input = map (\<lambda>i. \<lparr>ti_txid = rev (bi_prev_hash i), ti_vout = bi_prev_index i, ti_script_sig = [],
        ti_sequence = the (bi_sequence i), ti_witness = []\<rparr>) ins,
      tx_output = map (\<lambda>q. \<lparr>to_value = bo_amount q, to_script_pubkey = (case bo_address q of
        Some a \<Rightarrow> script_of a | None \<Rightarrow> derive (bo_address_n q) (bo_script_type q))\<rparr>) outs\<rparr>"

text \<open>
  What the host's wallet puts into a PSBT: an input map and an output map for each input and output of
  an unsigned transaction, an amount and a derivation for each input, and outputs that are either
  ours, their script being the one derived at the path, or have an address.
\<close>

definition input_signable :: "('g, 'x) psbt_input \<Rightarrow> tx_in \<Rightarrow> bool" where
  "input_signable pin txin \<longleftrightarrow> ti_script_sig txin = [] \<and> ti_witness txin = [] \<and> pi_bip32_derivation pin \<noteq> []
     \<and> (case pi_witness_utxo pin of Some _ \<Rightarrow> True | None \<Rightarrow> (case pi_non_witness_utxo pin of
          Some prev \<Rightarrow> unat (ti_vout txin) < length (tx_output prev) | None \<Rightarrow> False))"

definition output_signable :: "('g, 'x) btc_lib \<Rightarrow> (u32 list \<Rightarrow> int option \<Rightarrow> bytes) \<Rightarrow> network \<Rightarrow> 'x psbt_output \<Rightarrow> tx_out \<Rightarrow> bool" where
  "output_signable L derive network po txout \<longleftrightarrow> (case first_derivation (po_bip32_derivation po) of
     Some (_, path) \<Rightarrow> derive path (Some (output_script_code (change_script_type path))) = to_script_pubkey txout
   | None \<Rightarrow> \<exists>a. address_from_script L (to_script_pubkey txout) network = Inr a)"

definition signable :: "('g, 'x) btc_lib \<Rightarrow> (u32 list \<Rightarrow> int option \<Rightarrow> bytes) \<Rightarrow> network \<Rightarrow> ('g, 'x) psbt \<Rightarrow> bool" where
  "signable L derive network psbt \<longleftrightarrow> tx_ok (unsigned_tx psbt)
     \<and> list_all2 input_signable (psbt_inputs psbt) (tx_input (unsigned_tx psbt))
     \<and> list_all2 (output_signable L derive network) (psbt_outputs psbt) (tx_output (unsigned_tx psbt))"

definition address_inverse :: "('g, 'x) btc_lib \<Rightarrow> network \<Rightarrow> (string \<Rightarrow> bytes) \<Rightarrow> bool" where
  "address_inverse L network script_of \<longleftrightarrow> (\<forall>s a. address_from_script L s network = Inr a \<longrightarrow> script_of a = s)"

lemma build_input_ack_signable:
  assumes "list_all2 input_signable (psbt_inputs psbt) (tx_input (unsigned_tx psbt))" "i < length (psbt_inputs psbt)"
  shows "\<exists>a. build_input_ack psbt i = Inr a
    \<and> \<lparr>ti_txid = rev (bi_prev_hash a), ti_vout = bi_prev_index a, ti_script_sig = [],
        ti_sequence = the (bi_sequence a), ti_witness = []\<rparr> = tx_input (unsigned_tx psbt) ! i"
proof -
  have len: "i < length (tx_input (unsigned_tx psbt))" using assms by (auto dest: list_all2_lengthD)
  have "input_signable (psbt_inputs psbt ! i) (tx_input (unsigned_tx psbt) ! i)"
    using assms by (rule list_all2_nthD)
  with assms(2) len show ?thesis
    by (auto simp: build_input_ack_def get_or_ok input_signable_def input_amount_def first_derivation_def
        split: option.splits list.splits prod.splits)
qed

lemma build_output_ack_signable:
  assumes "list_all2 (output_signable L derive network) (psbt_outputs psbt) (tx_output (unsigned_tx psbt))"
    and "i < length (psbt_outputs psbt)" "address_inverse L network script_of"
  shows "\<exists>a. build_output_ack L psbt i network = Inr a
    \<and> \<lparr>to_value = bo_amount a, to_script_pubkey = (case bo_address a of
        Some s \<Rightarrow> script_of s | None \<Rightarrow> derive (bo_address_n a) (bo_script_type a))\<rparr> = tx_output (unsigned_tx psbt) ! i"
proof -
  have len: "i < length (tx_output (unsigned_tx psbt))" using assms by (auto dest: list_all2_lengthD)
  have "output_signable L derive network (psbt_outputs psbt ! i) (tx_output (unsigned_tx psbt) ! i)"
    using assms(1,2) by (rule list_all2_nthD)
  with assms(2,3) len show ?thesis
    by (cases "po_bip32_derivation (psbt_outputs psbt ! i)")
      (auto simp: build_output_ack_def get_or_ok output_signable_def change_of_def first_derivation_def address_inverse_def)
qed



end
