(* ===== verification/Panic_Freedom.thy ===== *)
theory Panic_Freedom
  imports Client_Safety Psbt_Signing
begin

text \<open>
  No call panics on its own account.  The source contains slices, indices, subtractions, \<^verbatim>\<open>expect\<close>s
  and \<^verbatim>\<open>unwrap\<close>s that panic when their condition fails; here every exported call is shown, on every
  transport and for every input, to reach none of them, except the two \<^verbatim>\<open>expect\<close>s that stand for the
  platform: its random source and the sealing primitive.  The proof is compositional: \<open>safe\<close> is kept by
  every way the code puts operations together, and each operation is safe because its parts are.
\<close>

section \<open>Safe operations\<close>

named_theorems safe_intros \<open>operations that panic only where the platform fails\<close>

definition platform_panics :: "'w host \<Rightarrow> crypto \<Rightarrow> string set" where
  "platform_panics H C =
     {m. m = ''platform RNG'' \<and> (\<exists>n w e w'. getrandom H n w = (Inl e, w'))} \<union>
     {m. m = ''AES-GCM encryption is infallible for valid inputs''
        \<and> (\<exists>key iv aad pt. aes_gcm_encrypt C key iv aad pt = None)}"

definition benign :: "string set \<Rightarrow> 'a res \<Rightarrow> bool" where
  "benign S r \<longleftrightarrow> (\<forall>m. r = Inl (Panic m) \<longrightarrow> m \<in> S)"

definition safe :: "string set \<Rightarrow> ('s, 'a) io \<Rightarrow> bool" where
  "safe S m \<longleftrightarrow> (\<forall>s. wlp m (\<lambda>r _. benign S r) s)"

lemma benign_simps [simp]: "benign S (Inr a)" "benign S (Inl (Error e))" "benign S (Inl (Panic m)) \<longleftrightarrow> m \<in> S"
  by (auto simp: benign_def)

lemma benign_nopanic: "\<not> is_panic r \<Longrightarrow> benign S r"
  by (auto simp: benign_def)

lemma benign_bind: "benign S m \<Longrightarrow> (\<And>a. m = Inr a \<Longrightarrow> benign S (f a)) \<Longrightarrow> benign S (res_bind m f)"
  by (cases m) (auto simp: benign_def)

lemma benign_if: "(b \<Longrightarrow> benign S x) \<Longrightarrow> (\<not> b \<Longrightarrow> benign S y) \<Longrightarrow> benign S (if b then x else y)"
  by simp

lemma safeI: "(\<And>s. wlp m (\<lambda>r _. \<not> is_panic r) s) \<Longrightarrow> safe S m"
  unfolding safe_def by (intro allI, rule wlp_conseq [where Q = "\<lambda>r _. \<not> is_panic r"]) (auto intro: benign_nopanic)

lemma safe_effects [safe_intros]:
  "safe S (io_return a)" "safe S (io_fail (Error e))" "safe S (io_get f)" "safe S (io_modify g)"
  "benign S r \<Longrightarrow> safe S (io_res r)"
  by (simp_all add: safe_def wlp_simps)

lemma safe_state [safe_intros]: "safe S (conn f)" "safe S (update g)"
  by (simp_all add: safe_def wlp_def conn_def update_def)

lemma safe_bind [safe_intros]: "safe S m \<Longrightarrow> (\<And>a. safe S (f a)) \<Longrightarrow> safe S (io_bind m f)"
  unfolding safe_def wlp_bind
proof
  fix s
  assume "\<forall>s. wlp m (\<lambda>r _. benign S r) s" and f: "\<And>a. \<forall>s. wlp (f a) (\<lambda>r _. benign S r) s"
  then have "wlp m (\<lambda>r _. benign S r) s" by blast
  then show "wlp m (\<lambda>r s'. case r of Inl e \<Rightarrow> benign S (Inl e) | Inr a \<Rightarrow> wlp (f a) (\<lambda>r _. benign S r) s') s"
    by (rule wlp_conseq) (use f in \<open>auto simp: benign_def split: sum.splits\<close>)
qed

lemma safe_loop [safe_intros]: "(\<And>x. safe S (body x)) \<Longrightarrow> safe S (io_loop body x)"
  unfolding safe_def
proof
  fix s
  assume body: "\<And>x. \<forall>s. wlp (body x) (\<lambda>r _. benign S r) s"
  show "wlp (io_loop body x) (\<lambda>r _. benign S r) s"
  proof (rule wlp_loop [where I = "\<lambda>_ _. True"])
    fix x s
    have "wlp (body x) (\<lambda>r _. benign S r) s" using body by blast
    then show "wlp (body x) (\<lambda>r s'. case r of Inl e \<Rightarrow> benign S (Inl e) | Inr (Inl x') \<Rightarrow> True
        | Inr (Inr a) \<Rightarrow> benign S (Inr a)) s"
      by (rule wlp_conseq) (auto simp: benign_def split: sum.splits)
  qed simp
qed

lemma safe_if [safe_intros]: "(b \<Longrightarrow> safe S m) \<Longrightarrow> (\<not> b \<Longrightarrow> safe S m') \<Longrightarrow> safe S (if b then m else m')"
  by simp

lemma safe_case_option [safe_intros]:
  "safe S m \<Longrightarrow> (\<And>a. safe S (f a)) \<Longrightarrow> safe S (case x of None \<Rightarrow> m | Some a \<Rightarrow> f a)"
  by (cases x) auto

lemma safe_case_prod [safe_intros]: "(\<And>a b. safe S (f a b)) \<Longrightarrow> safe S (case x of (a, b) \<Rightarrow> f a b)"
  by (cases x) auto

section \<open>The connection driver\<close>

lemma safe_framed [safe_intros]:
  "safe S (write_framed H ctrl p)" "safe S (read_framed H)" "safe S (send_ack H sq)"
  by (rule safeI, clarify, rule wlp_write_framed wlp_read_framed wlp_send_ack; assumption)+

lemma safe_data [safe_intros]: "safe S (send_data H base p)" "safe S (recv_data H)"
  by (rule safeI, clarify, rule wlp_send_data wlp_recv_data; simp)+

lemma benign_seal: "benign (platform_panics H C) (aead_seal C key iv aad pt)"
  by (auto simp: aead_seal_def platform_panics_def split: option.splits)

lemma benign_session: "benign (platform_panics H C) (fst (session_seal C s pt))"
  "benign (platform_panics H C) (fst (session_open C s ct))"
  using benign_seal [of H C "key_send s" "iv_from_nonce (nonce_send s)" "[]" pt]
    benign_nopanic [OF aead_open_nopanic, of _ C "key_recv s" "iv_from_nonce (nonce_recv s)" "[]" ct]
  by (auto simp: session_seal_def session_open_def benign_def split: sum.splits)

lemma safe_random [safe_intros]: "safe (platform_panics H C) (random_bytes H n)"
  by (auto simp: safe_def wlp_def random_bytes_def platform_panics_def split: option.splits sum.splits prod.splits)

lemma safe_app [safe_intros]:
  "safe (platform_panics H C) (send_app H C mt pb)" "safe (platform_panics H C) (recv_app H C)"
proof -
  have "benign (platform_panics H C) (decode_app_message pt)" for pt
    by (rule benign_nopanic) (simp add: decode_app_message_def)
  then show "safe (platform_panics H C) (send_app H C mt pb)" "safe (platform_panics H C) (recv_app H C)"
    unfolding send_app_def recv_app_def Let_def NO_SESSION_def split_beta
    by (intro safe_intros benign_session; assumption)+
qed

lemma safe_transceive [safe_intros]:
  "safe (platform_panics H C) (transceive H C P mt pb)" "safe (platform_panics H C) (transceive_on H C P sid mt pb)"
  unfolding transceive_on_def transceive_def transceive_body_def by (intro safe_intros)+

lemma safe_create_seeded_session [safe_intros]: "safe (platform_panics H C) (create_seeded_session H C P pass on_dev)"
  unfolding create_seeded_session_def by (intro safe_intros)

lemma allocation_response_nopanic: "\<not> is_panic (parse_allocation_response P nonce payload)"
  by (auto simp: parse_allocation_response_def decoded_def Let_def is_panic_Inl split: sum.splits)

lemma safe_allocate [safe_intros]: "safe (platform_panics H C) (allocate H P)"
proof -
  have "safe S (allocate_reads H P nonce n)" for S nonce n
  proof (induction n)
    case (Suc n)
    have "safe S (case parse_allocation_response P nonce p of
        Inr a \<Rightarrow> io_bind (update (\<lambda>c. c\<lparr>cid := ca_cid a, send_seq := 0, recv_seq := 0, pending_data := None\<rparr>)) (\<lambda>_. io_return a)
      | Inl (Panic s) \<Rightarrow> io_fail (Panic s) | Inl (Error _) \<Rightarrow> allocate_reads H P nonce n)" for p
      using allocation_response_nopanic [of P nonce p] Suc
      by (auto split: sum.splits fault.splits intro!: safe_intros)
    then show ?case unfolding allocate_reads.simps using Suc by (intro safe_intros)
  qed (unfold allocate_reads.simps, intro safe_intros)
  then show ?thesis unfolding allocate_def random_allocation_nonce_def by (intro safe_intros)
qed

lemma benign_init_response: "benign (platform_panics H C) (fst (read_init_response C enc hs resp))"
proof (cases "length resp = INIT_RESPONSE_LEN")
  case True
  note b = benign_bind benign_if benign_seal benign_nopanic [OF aead_open_nopanic] benign_nopanic [OF as_array32_nopanic]
    benign_nopanic [OF nopanic_slices(1)] benign_simps(1,2)
  have "benign (platform_panics H C) (init_response_core C enc hs resp)"
    unfolding init_response_core_def Let_def split_beta using True by (intro b) (simp_all add: wire_lens)
  then show ?thesis by (auto simp: read_init_response_def benign_def True split: sum.splits)
qed (simp add: read_init_response_def)

lemma safe_handshake [safe_intros]: "safe (platform_panics H C) (handshake H C P props spriv cred)"
proof -
  have "\<not> is_panic (read_completion_response C hs resp)" for hs resp
    unfolding read_completion_response_def Let_def split_beta by (intro nopanic)
  then show ?thesis
    unfolding handshake_def host_handshake_new_def random_scalar_def Let_def split_beta
    by (intro safe_intros benign_init_response benign_nopanic)
qed

section \<open>Pairing and the chain modules\<close>

lemma nopanic_case_option [nopanic]:
  "(x = None \<Longrightarrow> \<not> is_panic a) \<Longrightarrow> (\<And>y. x = Some y \<Longrightarrow> \<not> is_panic (f y)) \<Longrightarrow>
    \<not> is_panic (case x of None \<Rightarrow> a | Some y \<Rightarrow> f y)"
  by (cases x) auto

lemma nopanic_case_prod [nopanic]:
  "(\<And>a b. x = (a, b) \<Longrightarrow> \<not> is_panic (f a b)) \<Longrightarrow> \<not> is_panic (case x of (a, b) \<Rightarrow> f a b)"
  by (cases x) auto

lemma nopanic_case_list [nopanic]:
  "\<not> is_panic a \<Longrightarrow> (\<And>y ys. \<not> is_panic (f y ys)) \<Longrightarrow> \<not> is_panic (case xs of [] \<Rightarrow> a | y # ys \<Rightarrow> f y ys)"
  by (cases xs) auto

lemma expect_nopanic [nopanic]: "\<not> is_panic (expect_reply what t dec reply)" "\<not> is_panic (expect_type t t' what)"
  by (auto simp: expect_reply_def expect_type_def is_panic_Inl decoded_def split: sum.splits prod.splits)

lemma field_nopanic [nopanic]:
  "\<not> is_panic (as32 v)" "\<not> is_panic (parse_code str)" "\<not> is_panic (format_code code)"
  "\<not> is_panic (to_array32 v)" "\<not> is_panic (device_id_of f)"
  by (auto simp: as32_def parse_code_def format_code_ok to_array32_def device_id_of_def is_panic_Inl split: option.splits)

lemma reply_nopanic [nopanic]:
  "\<not> is_panic (eth_address_of a)" "\<not> is_panic (sig_prefix n sig)" "\<not> is_panic (eth_signature_of req)"
  "\<not> is_panic (nonempty what addr)" "\<not> is_panic (sig64 what sig)" "\<not> is_panic (tron_address_of addr)"
  "\<not> is_panic (xpub_of pk)" "\<not> is_panic (fingerprint_of pk)"
  by (auto simp: eth_address_of_def sig_prefix_def eth_signature_of_def nonempty_def sig64_def tron_address_of_def
      xpub_of_def fingerprint_of_def slice_def is_panic_Inl Let_def split: option.splits)

lemma tron_nopanic [nopanic]:
  "\<not> is_panic (tron_split sig)" "\<not> is_panic (tron_contract T contract)" "\<not> is_panic (tron_prepare T path raw)"
proof -
  show "\<not> is_panic (tron_split sig)" unfolding tron_split_def by (intro nopanic) simp_all
  show c: "\<not> is_panic (tron_contract T contract)" for contract unfolding tron_contract_def by (intro nopanic)
  show "\<not> is_panic (tron_prepare T path raw)" unfolding tron_prepare_def by (intro nopanic c)
qed

lemma btc_nopanic [nopanic]:
  "\<not> is_panic (build_input_ack psbt i)" "\<not> is_panic (build_output_ack L psbt i net)"
  "\<not> is_panic (build_prev_meta_ack L psbt h)" "\<not> is_panic (build_prev_input_ack L psbt h i)"
  "\<not> is_panic (build_prev_output_ack L psbt h i)"
proof -
  have g: "\<not> is_panic (get_or xs i m)" for xs :: "'z list" and i m by (simp add: get_or_def)
  have a: "\<not> is_panic (input_amount pin txin i)" for pin :: "('a, 'b) psbt_input" and txin i
    unfolding input_amount_def by (intro nopanic g)
  show "\<not> is_panic (build_input_ack psbt i)" unfolding build_input_ack_def by (intro nopanic g a)
  show "\<not> is_panic (build_output_ack L psbt i net)"
    unfolding build_output_ack_def change_of_def first_derivation_def
    by (rule nopanic_bind [OF g]) (auto simp: is_panic_Inl split: list.splits sum.splits prod.splits)
  have p: "\<not> is_panic (find_prev_tx L psbt h)" unfolding find_prev_tx_def by (intro nopanic)
  show "\<not> is_panic (build_prev_meta_ack L psbt h)" "\<not> is_panic (build_prev_input_ack L psbt h i)"
      "\<not> is_panic (build_prev_output_ack L psbt h i)"
    unfolding build_prev_meta_ack_def build_prev_input_ack_def build_prev_output_ack_def by (intro nopanic g p)+
qed

lemma tx_ack_nopanic [nopanic]: "\<not> is_panic (tx_ack L B psbt net req)"
proof (cases "request_type_of (case_option 3 id (rq_request_type req))")
  case (Some t)
  then show ?thesis unfolding tx_ack_def Let_def Some option.case by (cases t) (simp_all, (intro nopanic)+)
qed (simp add: tx_ack_def Let_def)

lemma parse_path_nopanic [nopanic]: "\<not> is_panic (resolve_path path fallback)"
proof -
  have one: "\<not> is_panic (parse_component input c)" for input c
    unfolding parse_component_def invalid_path_def Let_def split_beta by (intro nopanic)
  have "\<not> is_panic (parse_components input comps)" for input comps
    by (induction comps) (simp, unfold parse_components.simps, intro nopanic one)
  then show ?thesis unfolding resolve_path_def parse_path_def Let_def by (intro nopanic)
qed

lemma safe_pairing [safe_intros]:
  "safe (platform_panics H C) (run_codeentry_pairing H C P hh pub host app)"
  "safe (platform_panics H C) (end_request H C P)" "safe (platform_panics H C) (get_features H C P)"
proof -
  have "safe S (ask_code H)" for S by (simp add: safe_def wlp_def ask_code_def split_beta)
  then show "safe (platform_panics H C) (run_codeentry_pairing H C P hh pub host app)"
    unfolding run_codeentry_pairing_def codeentry_pairing_def random16_def random32_def Let_def
    by (intro safe_intros benign_nopanic nopanic)
  show "safe (platform_panics H C) (end_request H C P)" "safe (platform_panics H C) (get_features H C P)"
    unfolding end_request_def get_features_def by (intro safe_intros benign_nopanic nopanic)+
qed

lemma safe_chains [safe_intros]:
  "safe (platform_panics H C) (eth_get_address H C P E path sid)"
  "safe (platform_panics H C) (eth_get_public_key H C P E path sid)"
  "safe (platform_panics H C) (eth_sign_message H C P E path msg sid)"
  "safe (platform_panics H C) (eth_sign_message_full H C P E path msg sid)"
  "safe (platform_panics H C) (sign_eip1559 H C P E path env sid)"
  "safe (platform_panics H C) (sol_get_address H C P S path sid)"
  "safe (platform_panics H C) (sol_sign_tx H C P S path tx sid)"
  "safe (platform_panics H C) (sol_sign_message H C P S path msg sid)"
  "safe (platform_panics H C) (tron_get_address H C P T path sid)"
  "safe (platform_panics H C) (tron_sign_tx H C P T path raw sid)"
  "safe (platform_panics H C) (get_account_xpub H C P B path coin sid)"
  "safe (platform_panics H C) (get_master_fingerprint H C P B sid)"
  "safe (platform_panics H C) (btc_sign_message H C P B path msg coin sid)"
  unfolding eth_get_address_def eth_get_public_key_def eth_sign_message_def eth_sign_message_full_def
    eth_sign_message_with_def sign_eip1559_def sol_get_address_def sol_sign_tx_def sol_sign_message_def
    tron_get_address_def tron_sign_tx_def get_account_xpub_def get_master_fingerprint_def btc_sign_message_def
  by (intro safe_intros benign_nopanic nopanic)+

lemma safe_sign_psbt [safe_intros]: "safe (platform_panics H C) (btc_sign_psbt H C P L B b64 coin sid)"
  unfolding btc_sign_psbt_def sign_psbt_over_def sign_psbt_body_def Let_def
  by (intro safe_intros benign_nopanic nopanic merge_sigs_nopanic)

section \<open>The client\<close>

lemma safe_run_on [safe_intros]: "safe S m \<Longrightarrow> safe S (run_on c m)"
proof -
  have "benign S r \<Longrightarrow> benign S (map_sum id f r)" for r :: "'z res" and f :: "'z \<Rightarrow> 'y"
    by (cases r) (auto simp: benign_def)
  then show "safe S m \<Longrightarrow> safe S (run_on c m)" unfolding safe_def wlp_simps by (blast intro: wlp_conseq)
qed

lemma safe_on_world [safe_intros]: "safe S m \<Longrightarrow> safe S (on_world m)"
  by (simp add: safe_def wlp_simps)

lemma safe_unpin [safe_intros]: "safe S m \<Longrightarrow> safe S (unpin_on_error m)"
  by (simp add: safe_def wlp_simps)

lemma safe_drop [safe_intros]: "safe S m \<Longrightarrow> safe S (drop_result m)"
  unfolding drop_result_def by (intro safe_intros)

lemma safe_random_or_error [safe_intros]: "safe S (random_or_error H n)"
  by (auto simp: safe_def wlp_def random_or_error_def split: option.splits sum.splits prod.splits)

lemma safe_set_session [safe_intros]: "safe S (set_session x)"
  unfolding set_session_def by (intro safe_intros)

lemma safe_establish [safe_intros]:
  "safe (platform_panics H C) (paired_setup H C P hsp cred)" "safe (platform_panics H C) (probe H C P)"
  "safe (platform_panics H C) (establish H C P hs host app stored)"
  unfolding paired_setup_def probe_def establish_def Let_def by (intro safe_intros)+

lemma safe_on_fresh [safe_intros]: "safe S m \<Longrightarrow> safe S (on_fresh m)"
  unfolding on_fresh_def by (intro safe_intros)

lemma safe_ensure_conn [safe_intros]:
  "safe (platform_panics (env_host \<Gamma>) (env_crypto \<Gamma>)) (ensure_conn \<Gamma> h c p)"
  unfolding ensure_conn_def open_paired_connection_def Let_def by (intro safe_intros benign_nopanic nopanic)

text \<open>After \<open>ensure_conn\<close> succeeded there is a pinned connection, so its \<^verbatim>\<open>expect\<close> holds.\<close>

lemma safe_with_pinned [safe_intros]:
  assumes "safe (platform_panics (env_host \<Gamma>) (env_crypto \<Gamma>)) m" (is "safe ?S m")
  shows "safe ?S (with_pinned \<Gamma> h c p m)"
  unfolding safe_def
proof clarify
  fix slot w
  have "wlp (ensure_conn \<Gamma> h c p) (\<lambda>r s. benign ?S r) (slot, w)"
    using safe_ensure_conn [unfolded safe_def] by blast
  moreover have "wlp (ensure_conn \<Gamma> h c p) (\<lambda>r s. case r of Inr _ \<Rightarrow> fst s \<noteq> None | Inl _ \<Rightarrow> True) (slot, w)"
    by (rule wlp_ensure_conn) simp_all
  ultimately have "wlp (ensure_conn \<Gamma> h c p)
      (\<lambda>r s. benign ?S r \<and> (case r of Inr _ \<Rightarrow> fst s \<noteq> None | Inl _ \<Rightarrow> True)) (slot, w)"
    by (rule wlp_conj)
  then show "wlp (with_pinned \<Gamma> h c p m) (\<lambda>r _. benign ?S r) (slot, w)"
    unfolding with_pinned_def wlp_simps
  proof (rule wlp_conseq, goal_cases)
    case (1 r s)
    then show ?case
      using assms by (cases s; cases r) (auto simp: wlp_simps safe_def benign_def)
  qed
qed

lemma safe_with_path [safe_intros]:
  "(\<And>address_n. safe (platform_panics (env_host \<Gamma>) (env_crypto \<Gamma>)) (m address_n)) \<Longrightarrow>
    safe (platform_panics (env_host \<Gamma>) (env_crypto \<Gamma>)) (with_path \<Gamma> h c p path fallback m)"
  unfolding with_path_def by (intro safe_intros benign_nopanic nopanic)

lemmas call_defs = thp_probe_def establish_paired_session_def identify_paired_def
  get_attestor_pubkey_def sign_message_eth_def identify_def pair_def sign_message_def
  get_bitcoin_account_xpub_def get_bitcoin_master_fingerprint_def sign_psbt_def sign_bitcoin_message_def
  get_ethereum_address_def sign_ethereum_tx_def sign_ethereum_message_def get_solana_address_def
  sign_solana_tx_def sign_solana_message_def get_tron_address_def get_tron_pubkey_def sign_tron_tx_def

lemma safe_perform: "safe (platform_panics (env_host \<Gamma>) (env_crypto \<Gamma>)) (perform \<Gamma> call)"
  by (cases call; simp only: perform.simps call_defs; intro safe_intros benign_nopanic nopanic)

section \<open>Properties\<close>


end
