(* ===== verification/Simulation.thy ===== *)
theory Simulation
  imports Exchange
begin

text \<open>
  Simulation between two runs of the same code over different states.  The first run is the
  specification; whenever it returns, the second returns the same result, and the states are related
  again.  The relation is kept by every way the code composes operations, so that an exchange proved
  to behave in some way against an abstract partner behaves so over a connection.
\<close>

named_theorems sim_intros \<open>simulation rules\<close>

definition simulates :: "('s \<Rightarrow> 't \<Rightarrow> bool) \<Rightarrow> ('s, 'a) io \<Rightarrow> ('t, 'a) io \<Rightarrow> bool" where
  "simulates R m m' \<longleftrightarrow> (\<forall>s t r s'. R s t \<longrightarrow> m s = Some (r, s') \<longrightarrow> (\<exists>t'. m' t = Some (r, t') \<and> R s' t'))"

lemma simulatesI:
  assumes "\<And>s t r s'. R s t \<Longrightarrow> m s = Some (r, s') \<Longrightarrow> \<exists>t'. m' t = Some (r, t') \<and> R s' t'"
  shows "simulates R m m'"
  using assms by (simp add: simulates_def)

lemma simulatesD:
  assumes "simulates R m m'" "R s t" "m s = Some (r, s')"
  obtains t' where "m' t = Some (r, t')" "R s' t'"
  using assms unfolding simulates_def by blast

lemma sim_effects [sim_intros]:
  "simulates R (io_return a) (io_return a)" "simulates R (io_fail e) (io_fail e)" "simulates R (io_res r) (io_res r)"
  by (auto intro!: simulatesI)

lemma sim_bind [sim_intros]:
  assumes "simulates R m m'" "\<And>a. simulates R (f a) (f' a)"
  shows "simulates R (io_bind m f) (io_bind m' f')"
proof (rule simulatesI)
  fix s t r s' assume st: "R s t" and run: "io_bind m f s = Some (r, s')"
  from run obtain r1 s1 where m: "m s = Some (r1, s1)" by (auto simp: io_bind_def split: bind_splits)
  then obtain t1 where t1: "m' t = Some (r1, t1)" "R s1 t1" by (rule simulatesD [OF assms(1) st])
  show "\<exists>t'. io_bind m' f' t = Some (r, t') \<and> R s' t'"
  proof (cases r1)
    case (Inl e)
    with run m t1 show ?thesis by (simp add: io_bind_Some)
  next
    case (Inr a)
    with run m have "f a s1 = Some (r, s')" by (simp add: io_bind_Some)
    then obtain t' where "f' a t1 = Some (r, t')" "R s' t'" by (rule simulatesD [OF assms(2) t1(2)])
    with Inr t1(1) show ?thesis by (auto simp: io_bind_Some)
  qed
qed

lemma sim_loop [sim_intros]:
  assumes "\<And>x. simulates R (body x) (body' x)"
  shows "simulates R (io_loop body x) (io_loop body' x)"
proof (rule simulatesI)
  fix s t r s' assume st: "R s t" and run: "io_loop body x s = Some (r, s')"
  have "body = body \<longrightarrow> (\<forall>t. R s t \<longrightarrow> (\<exists>t'. io_loop body' x t = Some (fst (r, s'), t') \<and> R (snd (r, s')) t'))"
    using run
  proof (rule io_loop_induct [where P = "\<lambda>b x s y. b = body \<longrightarrow> (\<forall>t. R s t \<longrightarrow> (\<exists>t'. io_loop body' x t = Some (fst y, t') \<and> R (snd y) t'))"],
      intro impI allI)
    fix f b x s y t
    assume IH: "\<And>b x s y. f b x s = Some y \<Longrightarrow> b = body \<longrightarrow> (\<forall>t. R s t \<longrightarrow> (\<exists>t'. io_loop body' x t = Some (fst y, t') \<and> R (snd y) t'))"
      and step: "Option.bind (b x s) (\<lambda>(r, s'). case r of Inl e \<Rightarrow> Some (Inl e, s')
        | Inr (Inl x') \<Rightarrow> f b x' s' | Inr (Inr a) \<Rightarrow> Some (Inr a, s')) = Some y"
      and b: "b = body" and st: "R s t"
    from step obtain r1 s1 where s1: "body x s = Some (r1, s1)" by (auto simp: b split: bind_splits)
    then obtain t1 where t1: "body' x t = Some (r1, t1)" "R s1 t1" by (rule simulatesD [OF assms st])
    from step s1 have y: "(case r1 of Inl e \<Rightarrow> Some (Inl e, s1) | Inr (Inl x') \<Rightarrow> f b x' s1 | Inr (Inr a) \<Rightarrow> Some (Inr a, s1)) = Some y"
      by (simp add: b)
    show "\<exists>t'. io_loop body' x t = Some (fst y, t') \<and> R (snd y) t'"
    proof (cases r1)
      case (Inl e)
      with y t1 show ?thesis by (auto simp: io_loop_fail)
    next
      case (Inr z)
      then show ?thesis using y t1 IH [of b _ s1 y] b
        by (cases z) (auto simp: io_loop_leave io_loop_again)
    qed
  qed
  with st show "\<exists>t'. io_loop body' x t = Some (r, t') \<and> R s' t'" by simp
qed

lemma sim_cases [sim_intros]:
  "simulates R m1 m1' \<Longrightarrow> simulates R m2 m2' \<Longrightarrow> simulates R (if b then m1 else m2) (if b then m1' else m2')"
  "simulates R m3 m3' \<Longrightarrow> (\<And>a. simulates R (f a) (f' a)) \<Longrightarrow>
    simulates R (case x of None \<Rightarrow> m3 | Some a \<Rightarrow> f a) (case x of None \<Rightarrow> m3' | Some a \<Rightarrow> f' a)"
  "(\<And>a b. simulates R (g a b) (g' a b)) \<Longrightarrow> simulates R (case y of (a, b) \<Rightarrow> g a b) (case y of (a, b) \<Rightarrow> g' a b)"
  by (auto split: option.split prod.split)

end
