(* ===== verification/Wallet_Device.thy ===== *)
theory Wallet_Device
  imports Mock_Device Simulation
begin

text \<open>
  Application messages end to end.  The device of this theory is the scripted handshake device of the
  tests which, once the handshake is done, opens application messages with the crate's own session
  code in the device's role, hands them to an application and seals its reply.  The application is
  arbitrary: any function of its state and the request.  The relation \<open>serves\<close> says that host and
  device are in step; under it an exchange over the connection (sealing, sequence bits, packets,
  acknowledgements, button requests) is exactly the exchange with the application.
\<close>

section \<open>A device with an application\<close>

type_synonym 'a app = "u8 \<Rightarrow> u16 \<Rightarrow> bytes \<Rightarrow> 'a \<Rightarrow> (u16 \<times> bytes) \<times> 'a"

record 'a wallet_device =
  wd_mock :: mock_state
  wd_session :: session
  wd_app :: 'a

definition device_session :: "mock_state \<Rightarrow> session" where
  "device_session m = (case agreed_keys m of
     None \<Rightarrow> session_new [] [] 1 0 | Some (kreq, kresp) \<Rightarrow> session_new kresp kreq 1 0)"

definition advance :: "mock_state \<Rightarrow> 'a wallet_device \<Rightarrow> 'a wallet_device" where
  "advance m d = d\<lparr>wd_mock := m, wd_session := device_session m\<rparr>"

definition app_message :: "crypto \<Rightarrow> 'a app \<Rightarrow> 'a wallet_device handler" where
  "app_message C app ctrl payload d =
     (let (r, s) = session_open C (wd_session d) payload; sq = device_seq (wd_mock d) in
      res_bind r (\<lambda>pt.
      res_bind (decode_app_message pt) (\<lambda>(sid, mt, body).
      let ((rt, rp), a) = app sid mt body (wd_app d);
          (r', s') = session_seal C s (encode_app_message sid rt rp) in
      res_bind r' (\<lambda>ct.
      Inr ([(DEVICE_CID, ack_for (seq_of ctrl), []), (DEVICE_CID, with_seq ENCRYPTED_TRANSPORT sq, ct)],
        d\<lparr>wd_mock := (wd_mock d)\<lparr>device_seq := sq XOR 1\<rparr>, wd_session := s', wd_app := a\<rparr>)))))"

definition wallet_message :: "crypto \<Rightarrow> proto \<Rightarrow> bytes \<Rightarrow> 'a app \<Rightarrow> 'a wallet_device handler" where
  "wallet_message C P epriv app ctrl payload d =
     (if is_ack ctrl then Inr ([], d)
      else if mock_phase (wd_mock d) = Done then app_message C app ctrl payload d
      else res_bind (on_message C P epriv ctrl payload (wd_mock d)) (\<lambda>(out, m). Inr (out, advance m d)))"

interpretation wdev: handshake_peer "wallet_message C P epriv app" C P epriv wd_mock advance for C P epriv app
proof
  fix f out m and d :: "'a wallet_device"
  assume d: "mock_phase (wd_mock d) \<noteq> Done"
    and r: "handler_react (on_message C P epriv) f (wd_mock d) = Some (out, m)"
  assume "\<not> is_ack (fst f)"
  with d r show "handler_react (wallet_message C P epriv app) f d = Some (out, advance m d)"
    by (auto simp: handler_react_def wallet_message_def split: sum.splits if_splits)
qed (simp_all add: wallet_message_def advance_def)

section \<open>Exchanges with the application\<close>

text \<open>
  The specification of an exchange: requests go straight to the application; a button request is
  acknowledged and waited out, a failure is an error.  The state is the application's, and what the
  random source and the code prompt hold.  \<open>None\<close>: a message would not fit into a frame with its
  header, tag and checksum, or the application asks for buttons for ever.
\<close>

type_synonym 'a app_world = "'a \<times> bytes list \<times> string list"

definition fits_frame :: "bytes \<Rightarrow> bool" where
  "fits_frame body \<longleftrightarrow> length body + 23 < 2 ^ 16"

definition app_request :: "'a app \<Rightarrow> u8 \<Rightarrow> u16 \<Rightarrow> bytes \<Rightarrow> ('a app_world, u16 \<times> bytes) io" where
  "app_request app sid mt body = (\<lambda>(a, env). let ((rt, rp), a') = app sid mt body a in
     if fits_frame body \<and> fits_frame rp then Some (Inr (rt, rp), (a', env)) else None)"

definition app_round :: "'a app \<Rightarrow> proto \<Rightarrow> u8 \<Rightarrow> u16 \<times> bytes \<Rightarrow> ('a app_world, (u16 \<times> bytes) + (u16 \<times> bytes)) io" where
  "app_round app P sid = (\<lambda>(rt, rp).
     if rt = MSG_BUTTON_REQUEST then
       io_bind (app_request app sid MSG_BUTTON_ACK (enc_button_ack P)) (\<lambda>reply. io_return (Inl reply))
     else if rt = MSG_FAILURE then io_fail (Error (decode_failure P rp))
     else io_return (Inr (rt, rp)))"

definition app_transceive :: "'a app \<Rightarrow> proto \<Rightarrow> u8 \<Rightarrow> 'a app_world send" where
  "app_transceive app P sid mt body = io_bind (app_request app sid mt body) (io_loop (app_round app P sid))"

text \<open>Host and device in step: mirrored sessions, equal sequence bits, nothing under way.\<close>

definition in_step :: "connection \<Rightarrow> 'a wallet_device \<Rightarrow> bool" where
  "in_step c d \<longleftrightarrow> (\<exists>s. conn_session c = Some s \<and> mirrors s (wd_session d)) \<and> mock_phase (wd_mock d) = Done
     \<and> send_seq c = device_seq (wd_mock d) \<and> recv_seq c = device_seq (wd_mock d)
     \<and> (device_seq (wd_mock d) = 0 \<or> device_seq (wd_mock d) = 1) \<and> pending_data c = None \<and> INIT_HEADER < packet_size c"

definition serves :: "u8 \<Rightarrow> 'a app_world \<Rightarrow> connection \<times> 'a wallet_device mock_inner \<Rightarrow> bool" where
  "serves sid = (\<lambda>(a, env) (c, w). \<exists>d. mock_link env [] d w \<and> in_step c d \<and> wd_app d = a \<and> active_session_id c = sid)"

lemma transport_ctrl:
  assumes "sq = 0 \<or> sq = 1"
  shows "\<not> is_ack (with_seq ENCRYPTED_TRANSPORT sq)" "with_seq ENCRYPTED_TRANSPORT sq \<noteq> TRANSPORT_ERROR"
    "seq_of (with_seq ENCRYPTED_TRANSPORT sq) = sq" "\<not> bit (with_seq ENCRYPTED_TRANSPORT sq) 7" "\<not> bit ENCRYPTED_TRANSPORT 7"
  using assms by (auto simp: with_seq_def is_ack_def seq_of_def control_defs)

text \<open>What the device does with a sealed request: it answers with the application's reply, sealed.\<close>

lemma device_answers:
  assumes C: "aead_correct C" and d: "mock_phase (wd_mock d) = Done" "device_seq (wd_mock d) = sq" "sq = 0 \<or> sq = 1"
    and m: "mirrors s (wd_session d)"
    and app: "app sid mt body (wd_app d) = ((rt, rp), a')" "fits_frame body" "fits_frame rp"
  obtains ct s1 rct s2 d' where "session_seal C s (encode_app_message sid mt body) = (Inr ct, s1)" "length ct + 4 < 2 ^ 16"
    and "handler_react (wallet_message C P epriv app) (with_seq ENCRYPTED_TRANSPORT sq, ct) d =
      Some ([(ack_for sq, []), (with_seq ENCRYPTED_TRANSPORT sq, rct)], d')"
    and "session_open C s1 rct = (Inr (encode_app_message sid rt rp), s2)"
    and "mirrors s2 (wd_session d')" "mock_phase (wd_mock d') = Done" "device_seq (wd_mock d') = sq XOR 1" "wd_app d' = a'"
proof -
  have lens: "length (encode_app_message sid mt body) < 2 ^ 36" "length (encode_app_message sid rt rp) < 2 ^ 36"
    using app(2,3) by (simp_all add: fits_frame_def encode_app_length)
  obtain ct s1 t1 where 1: "session_seal C s (encode_app_message sid mt body) = (Inr ct, s1)"
      "session_open C (wd_session d) ct = (Inr (encode_app_message sid mt body), t1)"
      "mirrors s1 t1" "length ct = length (encode_app_message sid mt body) + 16"
    using seal_open [OF C m lens(1)] by blast
  obtain rct t2 s2 where 2: "session_seal C t1 (encode_app_message sid rt rp) = (Inr rct, t2)"
      "session_open C s1 rct = (Inr (encode_app_message sid rt rp), s2)"
      "mirrors t2 s2" "length rct = length (encode_app_message sid rt rp) + 16"
    using seal_open [OF C mirrors_sym [OF 1(3)] lens(2)] by blast
  let ?d' = "d\<lparr>wd_mock := (wd_mock d)\<lparr>device_seq := sq XOR 1\<rparr>, wd_session := t2, wd_app := a'\<rparr>"
  have "handler_react (wallet_message C P epriv app) (with_seq ENCRYPTED_TRANSPORT sq, ct) d =
      Some ([(ack_for sq, []), (with_seq ENCRYPTED_TRANSPORT sq, rct)], ?d')"
    using 1 2 d app transport_ctrl [OF d(3)]
    by (simp add: handler_react_def wallet_message_def app_message_def decode_encode_app encode_app_length sendable_simps fits_frame_def)
  with 1 2 app(2) d mirrors_sym [OF 2(3)] that show ?thesis
    by (simp add: fits_frame_def encode_app_length)
qed

lemma app_exchange:
  assumes C: "aead_correct C" and H: "H = mock_host (wallet_message C P epriv app)"
    and st: "serves sid s (c, w)" and app: "app_request app sid mt body s = Some (Inr (rt, rp), s')"
  obtains c1 w1 c2 w2 where "send_app H C mt body (c, w) = Some (Inr (), (c1, w1))"
    and "recv_app H C (c1, w1) = Some (Inr (rt, rp), (c2, w2))" "serves sid s' (c2, w2)"
proof -
  obtain a env where s: "s = (a, env)" by (cases s)
  with app obtain a' where a': "app sid mt body a = ((rt, rp), a')" "fits_frame body" "fits_frame rp" "s' = (a', env)"
    by (auto simp: app_request_def Let_def split: prod.splits if_splits)
  from st s obtain d k where link: "mock_link env [] d w" and d: "in_step c d" "wd_app d = a" "active_session_id c = sid"
      and k: "conn_session c = Some k" "mirrors k (wd_session d)"
    by (auto simp: serves_def in_step_def)
  define sq where "sq = device_seq (wd_mock d)"
  have sq: "mock_phase (wd_mock d) = Done" "device_seq (wd_mock d) = sq" "sq = 0 \<or> sq = 1" "send_seq c = sq" "recv_seq c = sq"
      "pending_data c = None" "INIT_HEADER < packet_size c"
    using d(1) by (auto simp: in_step_def sq_def)
  obtain ct k1 rct k2 d' where seal: "session_seal C k (encode_app_message sid mt body) = (Inr ct, k1)" "length ct + 4 < 2 ^ 16"
    and react: "handler_react (wallet_message C P epriv app) (with_seq ENCRYPTED_TRANSPORT sq, ct) d =
      Some ([(ack_for sq, []), (with_seq ENCRYPTED_TRANSPORT sq, rct)], d')"
    and op: "session_open C k1 rct = (Inr (encode_app_message sid rt rp), k2)"
    and d': "mirrors k2 (wd_session d')" "mock_phase (wd_mock d') = Done" "device_seq (wd_mock d') = sq XOR 1" "wd_app d' = a'"
    by (rule device_answers [where app = app and sid = sid and mt = mt and body = body and P = P and epriv = epriv,
          OF C sq(1-3) k(2) a'(1) [folded d(2)] a'(2,3)])
  let ?c1 = "c\<lparr>conn_session := Some k1\<rparr>"
  let ?c2 = "?c1\<lparr>send_seq := sq XOR 1, recv_seq := sq XOR 1\<rparr>"
  have fits: "fits (packet_size ?c1) ct" using seal(2) sq(7) by (simp add: fits_def header_defs)
  obtain w1 w2 where 1: "send_data H ENCRYPTED_TRANSPORT ct (?c1, w) = Some (Inr (), (?c1\<lparr>send_seq := sq XOR 1\<rparr>, w1))"
    and 2: "recv_data H (?c1\<lparr>send_seq := sq XOR 1\<rparr>, w1) = Some (Inr (with_seq ENCRYPTED_TRANSPORT sq, rct), (?c2, w2))"
    and l2: "mock_link env [] d' w2"
    by (rule wdev.exchange [OF link fits, where s = sq and base = ENCRYPTED_TRANSPORT and
          rctrl = "with_seq ENCRYPTED_TRANSPORT sq" and rp = rct and d' = d' and C = C and P = P and epriv = epriv and app = app])
      (use sq react transport_ctrl [OF sq(3)] in \<open>simp_all add: H\<close>)
  have "send_app H C mt body (c, w) = Some (Inr (), (?c1\<lparr>send_seq := sq XOR 1\<rparr>, w1))"
    using seal(1) k(1) d(3) 1 by (simp add: send_app_def conn_def update_def)
  moreover have "recv_app H C (?c1\<lparr>send_seq := sq XOR 1\<rparr>, w1) = Some (Inr (rt, rp), (?c2\<lparr>conn_session := Some k2\<rparr>, w2))"
    using 2 op by (simp add: recv_app_def conn_def update_def io_bind_Some decode_encode_app)
  moreover have "serves sid s' (?c2\<lparr>conn_session := Some k2\<rparr>, w2)"
    using l2 d' d(3) sq(3,6,7) by (auto simp: serves_def in_step_def a'(4))
  ultimately show ?thesis by (rule that)
qed

text \<open>The waiting loop of \<open>transceive\<close>, once its request is on the way.\<close>

lemma transceive_loop:
  assumes C: "aead_correct C" and H: "H = mock_host (wallet_message C P epriv app)"
    and run: "io_loop (app_round app P sid) reply s = Some (r, s')"
    and first: "recv_app H C (c1, w1) = Some (Inr reply, (c2, w2))" "serves sid s (c2, w2)"
  shows "\<exists>t. io_loop (transceive_body H C P) () (c1, w1) = Some (r, t) \<and> serves sid s' t"
proof -
  let ?goal = "\<lambda>reply s y. \<forall>c1 w1 c2 w2. recv_app H C (c1, w1) = Some (Inr reply, (c2, w2)) \<longrightarrow> serves sid s (c2, w2) \<longrightarrow>
      (\<exists>t. io_loop (transceive_body H C P) () (c1, w1) = Some (fst y, t) \<and> serves sid (snd y) t)"
  have "app_round app P sid = app_round app P sid \<longrightarrow> ?goal reply s (r, s')"
    using run
  proof (rule io_loop_induct [where P = "\<lambda>b reply s y. b = app_round app P sid \<longrightarrow> ?goal reply s y"], intro impI allI)
    fix f b reply s y c1 w1 c2 w2
    assume IH: "\<And>b reply s y. f b reply s = Some y \<Longrightarrow> b = app_round app P sid \<longrightarrow> ?goal reply s y"
      and step: "Option.bind (b reply s) (\<lambda>(r, s'). case r of Inl e \<Rightarrow> Some (Inl e, s')
        | Inr (Inl x') \<Rightarrow> f b x' s' | Inr (Inr a) \<Rightarrow> Some (Inr a, s')) = Some y"
      and b: "b = app_round app P sid"
      and rc: "recv_app H C (c1, w1) = Some (Inr reply, (c2, w2))" and st: "serves sid s (c2, w2)"
    obtain rt rp where reply: "reply = (rt, rp)" by (cases reply)
    show "\<exists>t. io_loop (transceive_body H C P) () (c1, w1) = Some (fst y, t) \<and> serves sid (snd y) t"
    proof (cases "rt = MSG_BUTTON_REQUEST")
      case True
      with step obtain rt' rp' s1 where req: "app_request app sid MSG_BUTTON_ACK (enc_button_ack P) s = Some (Inr (rt', rp'), s1)"
          and rest: "f b (rt', rp') s1 = Some y"
        by (auto simp: b reply app_round_def app_request_def io_bind_def Let_def split: bind_splits if_splits prod.splits)
      obtain c3 w3 c4 w4 where "send_app H C MSG_BUTTON_ACK (enc_button_ack P) (c2, w2) = Some (Inr (), (c3, w3))"
          and nxt: "recv_app H C (c3, w3) = Some (Inr (rt', rp'), (c4, w4))" "serves sid s1 (c4, w4)"
        by (rule app_exchange [OF C H st req])
      with rc True have "transceive_body H C P () (c1, w1) = Some (Inr (Inl ()), (c3, w3))"
        by (simp add: transceive_body_def reply io_bind_Some)
      with IH [OF rest] b nxt show ?thesis by (auto simp: io_loop_again)
    next
      case False
      with rc have "transceive_body H C P () (c1, w1) =
          Some (if rt = MSG_FAILURE then Err (decode_failure P rp) else Inr (Inr (rt, rp)), (c2, w2))"
        by (simp add: transceive_body_def reply io_bind_Some)
      with step st False show ?thesis
        by (auto simp: b reply app_round_def io_loop_leave io_loop_fail split: if_splits)
    qed
  qed
  with first show ?thesis by simp
qed

lemma sim_transceive [sim_intros]:
  assumes "aead_correct C"
  shows "simulates (serves sid) (app_transceive app P sid mt body) (transceive (mock_host (wallet_message C P epriv app)) C P mt body)"
proof (rule simulatesI, clarify)
  fix a es cs c w r a' es' cs'
  let ?H = "mock_host (wallet_message C P epriv app)"
  assume st: "serves sid (a, es, cs) (c, w)" and run: "app_transceive app P sid mt body (a, es, cs) = Some (r, a', es', cs')"
  from run obtain rt rp s1 where req: "app_request app sid mt body (a, es, cs) = Some (Inr (rt, rp), s1)"
      and loop: "io_loop (app_round app P sid) (rt, rp) s1 = Some (r, a', es', cs')"
    by (auto simp: app_transceive_def io_bind_def app_request_def Let_def split: bind_splits if_splits prod.splits)
  obtain c1 w1 c2 w2 where 1: "send_app ?H C mt body (c, w) = Some (Inr (), (c1, w1))"
      "recv_app ?H C (c1, w1) = Some (Inr (rt, rp), (c2, w2))" "serves sid s1 (c2, w2)"
    by (rule app_exchange [OF assms refl st req])
  from transceive_loop [OF assms refl loop 1(2,3)] 1(1)
  show "\<exists>t'. transceive ?H C P mt body (c, w) = Some (r, t') \<and> serves sid (a', es', cs') t'"
    by (auto simp: transceive_def io_bind_Some)
qed

text \<open>Choosing a session, drawing random bytes and asking for the code.\<close>

lemma transceive_on_from:
  assumes "aead_correct C" "serves sid0 s t" "app_transceive app P sid mt body s = Some (r, s')"
  obtains t' where "transceive_on (mock_host (wallet_message C P epriv app)) C P sid mt body t = Some (r, t')" "serves sid s' t'"
proof -
  have "serves sid s ((fst t)\<lparr>active_session_id := sid\<rparr>, snd t)"
    using assms(2) by (cases s; cases t) (auto simp: serves_def in_step_def)
  from simulatesD [OF sim_transceive [OF assms(1)] this assms(3)] that show ?thesis
    by (metis (no_types, lifting) io_bind_simps(2) prod.collapse transceive_on_def update_def case_prod_conv)
qed

lemma sim_transceive_on [sim_intros]:
  assumes "aead_correct C"
  shows "simulates (serves sid) (app_transceive app P sid mt body)
    (transceive_on (mock_host (wallet_message C P epriv app)) C P sid mt body)"
  by (rule simulatesI, rule transceive_on_from [OF assms]) auto

definition app_random :: "nat \<Rightarrow> ('a app_world, bytes) io" where
  "app_random n = (\<lambda>(a, es, cs). case es of [] \<Rightarrow> None | e # es' \<Rightarrow> Some (Inr (resize n 0 e), (a, es', cs)))"

definition app_code :: "('a app_world, string) io" where
  "app_code = (\<lambda>(a, es, cs). case cs of [] \<Rightarrow> None | s # cs' \<Rightarrow> Some (Inr s, (a, es, cs')))"

lemma sim_random [sim_intros]: "simulates (serves sid) (app_random n) (random_bytes (mock_host h) n)"
  by (rule simulatesI)
    (auto simp: app_random_def serves_def mock_link_def random_bytes_def mock_host_def mock_random_def split: list.splits)

text \<open>A reply that asks for nothing more is what the exchange returns.\<close>

lemma app_transceive_plain:
  assumes "app sid mt body a = ((rt, rp), a')" "rt \<noteq> MSG_BUTTON_REQUEST" "rt \<noteq> MSG_FAILURE" "fits_frame body" "fits_frame rp"
  shows "app_transceive app P sid mt body (a, env) = Some (Inr (rt, rp), (a', env))"
  using assms by (simp add: app_transceive_def app_request_def io_bind_def app_round_def io_loop_leave)

section \<open>Properties\<close>

text \<open>
  C13: an exchange over the connection is the exchange with the device's application.  Whatever the
  application is, a request on any session is sealed, segmented, acknowledged, reassembled and opened,
  button requests are answered until there are no more, and the call returns exactly the application's
  reply, or the error its failure stands for; host and device are in step again.
\<close>

theorem transceive_refines_app:
  assumes "aead_correct C" "serves sid0 s t" "app_transceive app P sid mt body s = Some (r, s')"
  shows "\<exists>t'. transceive_on (mock_host (wallet_message C P epriv app)) C P sid mt body t = Some (r, t') \<and> serves sid s' t'"
  by (rule transceive_on_from [OF assms]) blast

text \<open>An application that wants one button pressed and then echoes, and a pair that is in step.\<close>

definition echo_app :: "nat app" where
  "echo_app sid mt body n = (if n = 0 then ((MSG_BUTTON_REQUEST, []), 1) else ((MSG_SUCCESS, body), n + 1))"

definition demo_connection :: connection where
  "demo_connection = (connection_new 244)\<lparr>cid := DEVICE_CID, conn_session := Some (session_new (replicate 32 1) (replicate 32 2) 0 1)\<rparr>"

definition demo_wallet :: "nat wallet_device" where
  "demo_wallet = \<lparr>wd_mock = (mock_device_new demo_crypto [10, 4] (replicate 32 0x22))\<lparr>mock_phase := Done\<rparr>,
     wd_session = session_new (replicate 32 2) (replicate 32 1) 1 0, wd_app = 0\<rparr>"

theorem transceive_refines_app_witness:
  "\<exists>t'. transceive_on (mock_host (wallet_message demo_crypto demo_proto [] echo_app)) demo_crypto demo_proto 1 55 [1, 2]
      (demo_connection, mock_new [] [] demo_wallet) = Some (Inr (MSG_SUCCESS, enc_button_ack demo_proto), t')
    \<and> serves 1 (2, [], []) t'"
proof -
  have "serves 0 (0, [], []) (demo_connection, mock_new [] [] demo_wallet)"
    by (auto simp: serves_def in_step_def mock_link_def mock_new_def none demo_connection_def demo_wallet_def
        connection_new_def session_new_def mirrors_def mock_device_new_def header_defs MANAGEMENT_SESSION_ID_def)
  moreover have "app_transceive echo_app demo_proto 1 55 [1, 2] (0, [], []) = Some (Inr (MSG_SUCCESS, enc_button_ack demo_proto), (2, [], []))"
  proof -
    note defs = app_round_def app_request_def echo_app_def fits_frame_def demo_proto_def
      MSG_SUCCESS_def MSG_BUTTON_REQUEST_def MSG_FAILURE_def
    have "app_request echo_app 1 55 [1, 2] (0, [], []) = Some (Inr (MSG_BUTTON_REQUEST, []), (Suc 0, [], []))"
      by (simp add: defs)
    moreover have press: "app_round echo_app demo_proto 1 (MSG_BUTTON_REQUEST, []) (Suc 0, [], []) =
        Some (Inr (Inl (MSG_SUCCESS, enc_button_ack demo_proto)), (2, [], []))"
      by (simp add: defs io_bind_def)
    moreover have echo: "app_round echo_app demo_proto 1 (MSG_SUCCESS, enc_button_ack demo_proto) (2, [], []) =
        Some (Inr (Inr (MSG_SUCCESS, enc_button_ack demo_proto)), (2, [], []))"
      by (simp add: defs)
    ultimately show ?thesis
      by (simp add: app_transceive_def io_bind_Some io_loop_again [of "app_round echo_app demo_proto 1", OF press]
          io_loop_leave [of "app_round echo_app demo_proto 1", OF echo])
  qed
  ultimately show ?thesis by (rule transceive_refines_app [OF demo_aead_correct])
qed

end
