(* ===== verification/End_To_End.thy ===== *)
theory End_To_End
  imports Client_Safety Wallet_Device Psbt_Signing
begin

text \<open>
  Exported calls end to end: from the method of \<^verbatim>\<open>client.rs\<close> through allocation, handshake,
  session creation and the encrypted exchange down to packets, against the device with an application
  of \<^verbatim>\<open>Wallet_Device\<close>.
\<close>

definition wallet_device_new :: "crypto \<Rightarrow> bytes \<Rightarrow> bytes \<Rightarrow> 'a \<Rightarrow> 'a wallet_device" where
  "wallet_device_new C props tpriv a =
     \<lparr>wd_mock = mock_device_new C props tpriv, wd_session = session_new [] [] 1 0, wd_app = a\<rparr>"

text \<open>A device that has just been switched on, a random source and the codes the user will enter.\<close>

definition powered_on :: "crypto \<Rightarrow> bytes \<Rightarrow> bytes \<Rightarrow> 'a \<Rightarrow> bytes list \<Rightarrow> string list \<Rightarrow> 'a wallet_device mock_inner" where
  "powered_on C props tpriv a es cs = (mock_new [] es (wallet_device_new C props tpriv a))\<lparr>codes := cs\<rparr>"

text \<open>What the device announces decodes, and it accepts what the host presents in the handshake.\<close>

definition acceptable :: "proto \<Rightarrow> bytes \<Rightarrow> bytes option \<Rightarrow> bool" where
  "acceptable P props cred \<longleftrightarrow> (\<exists>dp. dec_device_properties P props = Inr dp) \<and> length props + 14 < 2 ^ 16
     \<and> (\<exists>cr. dec_noise_payload P (enc_noise_payload P cred) = Inr cr) \<and> length (enc_noise_payload P cred) + 68 < 2 ^ 16"

lemma connected:
  assumes C: "crypto_laws C" and ok: "acceptable P props cred"
    and H: "H = mock_host (wallet_message C P tepriv app)"
  obtains dp keys c1 w1 w2 where
    "allocate H P (connection_new BLE_PACKET_SIZE, powered_on C props tpriv a (e1 # e2 # es) cs) =
      Some (Inr \<lparr>ca_cid = DEVICE_CID, ca_device_properties_raw = props, ca_device_properties = dp\<rparr>, (c1, w1))"
    "handshake H C P props spriv cred (c1, w1) = Some (Inr keys, (c1, w2))" "trezor_state keys = [2]"
    "host_static_pubkey keys = public_key C spriv" "serves 0 (a, es, cs) (c1\<lparr>conn_session := Some (from_handshake keys)\<rparr>, w2)"
proof -
  let ?d = "wallet_device_new C props tpriv a" and ?c = "connection_new BLE_PACKET_SIZE"
  let ?w = "powered_on C props tpriv a (e1 # e2 # es) cs" and ?c1 = "?c\<lparr>cid := DEVICE_CID\<rparr>"
  from ok obtain dp cr where dp: "dec_device_properties P props = Inr dp" "length props + 14 < 2 ^ 16"
      and cr: "dec_noise_payload P (enc_noise_payload P cred) = Inr cr" "length (enc_noise_payload P cred) + 68 < 2 ^ 16"
    by (auto simp: acceptable_def)
  have ps: "INIT_HEADER < BLE_PACKET_SIZE" by (simp add: header_defs BLE_PACKET_SIZE_def)
  have link: "mock_link (e1 # e2 # es, cs) [] ?d ?w" by (simp add: powered_on_def mock_link_def mock_new_def none)
  obtain w1 where 1: "allocate H P (?c, ?w) =
      Some (Inr \<lparr>ca_cid = DEVICE_CID, ca_device_properties_raw = props, ca_device_properties = dp\<rparr>, (?c1, w1))"
      "mock_link (e2 # es, cs) [] (advance ((wd_mock ?d)\<lparr>mock_phase := ExpectInit\<rparr>) ?d) w1"
    unfolding H by (rule wdev.allocate_on_device [OF dp ps _ _ link])
      (simp_all add: mock_device_new_def wallet_device_new_def)
  obtain keys m1 m2 w2 where 2: "handshake H C P props spriv cred (?c1, w1) = Some (Inr keys, (?c1, w2))"
      "mock_link (es, cs) [] (advance m2 (advance m1 (advance ((wd_mock ?d)\<lparr>mock_phase := ExpectInit\<rparr>) ?d))) w2"
      "agreed_keys m2 = Some (key_request keys, key_response keys)" "mock_phase m2 = Done" "device_seq m2 = 0"
      "nonce_request keys = 0" "nonce_response keys = 1" "trezor_state keys = [2]"
      "length (key_request keys) = 32" "length (key_response keys) = 32" "host_static_pubkey keys = public_key C spriv"
    unfolding H by (rule wdev.handshake_on_device [OF C cr _ _ _ _ _ _ _ 1(2), where c = ?c1 and tpriv = tpriv and props = props and spriv = spriv])
      (use ps in \<open>simp_all add: connection_new_def mock_device_new_def wallet_device_new_def advance_def\<close>)
  have "serves 0 (a, es, cs) (?c1\<lparr>conn_session := Some (from_handshake keys)\<rparr>, w2)"
    using 2 ps by (auto simp: serves_def in_step_def advance_def device_session_def from_handshake_def session_new_def
        mirrors_def connection_new_def MANAGEMENT_SESSION_ID_def wallet_device_new_def)
  with 1(1) 2(1,8,11) show ?thesis by (intro that)
qed

section \<open>Opening a wallet\<close>

text \<open>
  How an application answers the opening of a wallet: the end of pairing on the management session,
  then the creation of the wallet's session.
\<close>

definition opens_wallet :: "'a app \<Rightarrow> proto \<Rightarrow> string option \<times> bool \<Rightarrow> 'a app_world \<Rightarrow> 'a app_world \<Rightarrow> bool" where
  "opens_wallet app P key s s' \<longleftrightarrow> (\<exists>b s1 b'.
     app_transceive app P MANAGEMENT_SESSION_ID T_END_REQUEST [] s = Some (Inr (T_END_RESPONSE, b), s1)
     \<and> app_transceive app P SEEDED_SESSION_ID MSG_CREATE_NEW_SESSION
         (enc_create_new_session P (fst key) (Some (snd key)) (Some False)) s1 = Some (Inr (MSG_SUCCESS, b'), s'))"

lemma open_paired:
  assumes C: "crypto_laws C" and ok: "acceptable P props (Some cred)"
    and H: "H = mock_host (wallet_message C P tepriv app)"
    and fin: "app_transceive app P 0 T_END_REQUEST [] (a, es, cs) = Some (Inr (T_END_RESPONSE, b), s1)"
  obtains c w where "open_paired_connection H C P hsp cred (powered_on C props tpriv a (e1 # e2 # es) cs) = Some (Inr c, w)"
    and "serves 0 s1 (c, w)"
proof -
  have A: "aead_correct C" using C by (simp add: crypto_laws_def)
  show ?thesis
  proof (rule connected [OF C ok H])
    fix dp keys w1 w2 and c1 :: connection
    let ?c = "c1\<lparr>conn_session := Some (from_handshake keys)\<rparr>"
    assume 1: "allocate H P (connection_new BLE_PACKET_SIZE, powered_on C props tpriv a (e1 # e2 # es) cs) =
        Some (Inr \<lparr>ca_cid = DEVICE_CID, ca_device_properties_raw = props, ca_device_properties = dp\<rparr>, (c1, w1))"
      "handshake H C P props hsp (Some cred) (c1, w1) = Some (Inr keys, (c1, w2))" "trezor_state keys = [2]"
      and st: "serves 0 (a, es, cs) (?c, w2)"
    obtain t where t: "transceive H C P T_END_REQUEST [] (?c, w2) = Some (Inr (T_END_RESPONSE, b), t)" "serves 0 s1 t"
      using simulatesD [OF sim_transceive [OF A] st fin] unfolding H by blast
    with 1 have "open_paired_connection H C P hsp cred (powered_on C props tpriv a (e1 # e2 # es) cs) = Some (Inr (fst t), snd t)"
      by (simp add: open_paired_connection_def paired_setup_def unpaired_def set_session_def end_request_def io_bind_Some
          run_on_def io_bind_def split_beta)
    with t(2) show thesis by (intro that [of "fst t" "snd t"]) simp_all
  qed
qed

lemma create_session:
  assumes "aead_correct C" "serves sid s t"
    and "app_transceive app P SEEDED_SESSION_ID MSG_CREATE_NEW_SESSION
      (enc_create_new_session P pp (Some od) (Some False)) s = Some (Inr (MSG_SUCCESS, b), s')"
  obtains c w where "create_seeded_session (mock_host (wallet_message C P epriv app)) C P pp od t = Some (Inr (), (c, w))"
    and "serves SEEDED_SESSION_ID s' (c, w)" "seeded_key c = Some (pp, od)"
proof -
  let ?H = "mock_host (wallet_message C P epriv app)"
  obtain c w where 1: "transceive_on ?H C P SEEDED_SESSION_ID MSG_CREATE_NEW_SESSION
      (enc_create_new_session P pp (Some od) (Some False)) t = Some (Inr (MSG_SUCCESS, b), (c, w))"
    and st: "serves SEEDED_SESSION_ID s' (c, w)"
    using transceive_on_from [OF assms] by (metis surj_pair)
  from 1 have "create_seeded_session ?H C P pp od t = Some (Inr (), (c\<lparr>seeded_with := Some (pp, od)\<rparr>, w))"
    by (cases t) (simp add: create_seeded_session_def transceive_on_def update_def io_bind_Some)
  moreover have "serves SEEDED_SESSION_ID s' (c\<lparr>seeded_with := Some (pp, od)\<rparr>, w)"
    using st by (cases s') (auto simp: serves_def in_step_def)
  ultimately show ?thesis by (rule that) (simp add: seeded_key_def)
qed

text \<open>
  A call that finds no pinned connection connects, opens the wallet and runs its operation; the
  outcome is that of the operation's exchange with the application.
\<close>

lemma first_call:
  assumes C: "crypto_laws C" and ok: "acceptable P props (Some cred)" "length hsp = 32"
    and env: "env_host \<Gamma> = mock_host (wallet_message C P tepriv app)" "env_crypto \<Gamma> = C" "env_proto \<Gamma> = P"
    and wallet: "opens_wallet app P (wallet_key pass) (a, es, cs) s"
    and sim: "simulates (serves SEEDED_SESSION_ID) m' m" and run: "m' s = Some (r, s')"
  shows "\<exists>c w. with_pinned \<Gamma> hsp cred pass m (None, powered_on C props tpriv a (e1 # e2 # es) cs) =
      Some (r, (case r of Inl (Error _) \<Rightarrow> None | _ \<Rightarrow> Some c, w)) \<and> serves SEEDED_SESSION_ID s' (c, w)"
proof -
  obtain pp od where key: "wallet_key pass = (pp, od)" by (cases "wallet_key pass")
  have A: "aead_correct C" using C by (simp add: crypto_laws_def)
  let ?w = "powered_on C props tpriv a (e1 # e2 # es) cs"
  from wallet obtain b s1 b' where fin: "app_transceive app P 0 T_END_REQUEST [] (a, es, cs) = Some (Inr (T_END_RESPONSE, b), s1)"
      and new: "app_transceive app P SEEDED_SESSION_ID MSG_CREATE_NEW_SESSION
        (enc_create_new_session P pp (Some od) (Some False)) s1 = Some (Inr (MSG_SUCCESS, b'), s)"
    by (auto simp: opens_wallet_def key MANAGEMENT_SESSION_ID_def)
  obtain c1 w1 where 1: "open_paired_connection (env_host \<Gamma>) C P hsp cred ?w = Some (Inr c1, w1)" "serves 0 s1 (c1, w1)"
    by (rule open_paired [OF C ok(1) env(1) fin])
  obtain c2 w2 where 2: "create_seeded_session (env_host \<Gamma>) C P pp od (c1, w1) = Some (Inr (), (c2, w2))"
      "serves SEEDED_SESSION_ID s (c2, w2)"
    unfolding env(1) by (rule create_session [OF A 1(2) new])
  have "ensure_conn \<Gamma> hsp cred pass (None, ?w) = Some (Inr (), (Some c2, w2))"
    using 1(1) 2(1) ok(2) by (simp add: ensure_conn_def key wallet_changed_def env to_array32_def on_world_def run_on_def io_bind_Some)
  moreover obtain c3 w3 where "m (c2, w2) = Some (r, (c3, w3))" "serves SEEDED_SESSION_ID s' (c3, w3)"
    by (rule simulatesD [OF sim 2(2) run]) (metis surj_pair)
  ultimately show ?thesis
    by (intro exI [of _ c3] exI [of _ w3])
      (simp add: with_pinned_def unpin_on_error_def on_pinned_def io_bind_Some split: sum.splits fault.splits)
qed

section \<open>Exchanges over the connection\<close>

lemma sim_sign_psbt [sim_intros]:
  assumes "aead_correct C"
  shows "simulates (serves sid) (sign_psbt_over (app_transceive app P sid) (app_transceive app P sid) L B psbt coin)
    (btc_sign_psbt (mock_host (wallet_message C P epriv app)) C P L B psbt coin sid)"
  unfolding btc_sign_psbt_def sign_psbt_over_def sign_psbt_body_def Let_def by (intro sim_intros assms)

lemma sim_code [sim_intros]: "simulates (serves sid) app_code (ask_code (mock_host h))"
  by (rule simulatesI)
    (auto simp: app_code_def serves_def mock_link_def ask_code_def mock_host_def mock_code_def split: list.splits)

lemma sim_pairing [sim_intros]:
  assumes "aead_correct C"
  shows "simulates (serves sid) (codeentry_pairing (app_transceive app P sid) (app_random 16) (app_random 32) app_code C P hh pub hn an)
    (run_codeentry_pairing (mock_host (wallet_message C P epriv app)) C P hh pub hn an)"
  unfolding run_codeentry_pairing_def codeentry_pairing_def Let_def random16_def random32_def by (intro sim_intros assms)

text \<open>The rest of \<open>establish\<close> after the handshake, as an exchange with the application.\<close>

definition app_establish :: "'a app \<Rightarrow> crypto \<Rightarrow> proto \<Rightarrow> bytes \<Rightarrow> bytes \<Rightarrow> string \<Rightarrow> string \<Rightarrow> bytes option \<Rightarrow>
    ('a app_world, paired_session) io" where
  "app_establish app C P hh pub host_name app_name stored =
     io_bind (case stored of Some credential \<Rightarrow> io_return credential
              | None \<Rightarrow> codeentry_pairing (app_transceive app P 0) (app_random 16) (app_random 32) app_code C P hh pub host_name app_name) (\<lambda>credential.
     io_bind (app_transceive app P 0 T_END_REQUEST []) (\<lambda>(rt, _).
     io_bind (io_res (expect_type rt T_END_RESPONSE ''ThpEndResponse'')) (\<lambda>_.
     io_bind (app_transceive app P 0 MGMT_GET_FEATURES (enc_get_features P)) (\<lambda>(rt, rp).
     io_bind (io_res (expect_type rt MGMT_FEATURES ''Features'')) (\<lambda>_.
     io_bind (io_res (decoded ''features decode: '' (dec_features P rp))) (\<lambda>f.
     io_return \<lparr>ps_device_id = case_option [] id (f_device_id f), ps_model = case_option [] id (f_model f),
       ps_firmware_version = firmware_version f, ps_initialized = case_option False id (f_initialized f),
       ps_credential = credential\<rparr>))))))"

abbreviation establish_tail :: "'w host \<Rightarrow> crypto \<Rightarrow> proto \<Rightarrow> bytes \<Rightarrow> bytes \<Rightarrow> string \<Rightarrow> string \<Rightarrow> bytes option \<Rightarrow>
    ('w, paired_session) cio" where
  "establish_tail H C P hh pub hn an stored \<equiv>
    io_bind (if stored \<noteq> None then io_return (case_option [] id stored) else run_codeentry_pairing H C P hh pub hn an) (\<lambda>credential.
     io_bind (end_request H C P) (\<lambda>_.
     io_bind (get_features H C P) (\<lambda>f.
     io_return \<lparr>ps_device_id = case_option [] id (f_device_id f), ps_model = case_option [] id (f_model f),
       ps_firmware_version = firmware_version f, ps_initialized = case_option False id (f_initialized f),
       ps_credential = credential\<rparr>)))"

lemma sim_establish_tail:
  assumes "aead_correct C" "H = mock_host (wallet_message C P epriv app)"
  shows "simulates (serves 0) (app_establish app C P hh pub hn an stored) (establish_tail H C P hh pub hn an stored)"
  unfolding app_establish_def end_request_def get_features_def io_bind_assoc assms(2) split_beta
  by (cases stored) (simp_all, (intro sim_intros assms)+)

section \<open>Properties\<close>

text \<open>
  C11: signing a PSBT, end to end.  With nothing pinned and a device just switched on, the exported
  method allocates a channel, runs the handshake with the stored credential, ends pairing, creates the
  wallet's session and then streams the transaction; what it returns is exactly what the \<open>SignTx\<close>
  exchange with the device's application returns.  On success the connection stays pinned, in step with
  the device; an error leaves nothing pinned.
\<close>

theorem sign_psbt_end_to_end:
  assumes "crypto_laws C" "acceptable P props (Some cred)" "length hsp = 32"
    and "env_host \<Gamma> = mock_host (wallet_message C P tepriv app)" "env_crypto \<Gamma> = C" "env_proto \<Gamma> = P"
    and "opens_wallet app P (wallet_key pass) (a, es, cs) s"
    and "sign_psbt_over (app_transceive app P SEEDED_SESSION_ID) (app_transceive app P SEEDED_SESSION_ID)
      (env_lib \<Gamma>) (env_btc \<Gamma>) psbt coin_type s = Some (r, s')"
  shows "\<exists>c w. sign_psbt \<Gamma> hsp cred pass psbt fingerprint xpub account coin_type path
        (None, powered_on C props tpriv a (e1 # e2 # es) cs) =
      Some (r, (case r of Inl (Error _) \<Rightarrow> None | _ \<Rightarrow> Some c, w)) \<and> serves SEEDED_SESSION_ID s' (c, w)"
proof -
  have "aead_correct C" using assms(1) by (simp add: crypto_laws_def)
  from first_call [OF assms(1-7) sim_sign_psbt [OF this] assms(8)] show ?thesis
    unfolding sign_psbt_def assms(4-6) .
qed

text \<open>An application that opens any wallet, finishes every signing at once and logs what it is asked.\<close>

definition log_app :: "u16 list app" where
  "log_app sid mt body log = ((if mt = T_END_REQUEST then T_END_RESPONSE else if mt = MSG_CREATE_NEW_SESSION then MSG_SUCCESS
     else BTC_TX_REQUEST, []), log @ [mt])"

definition wallet_env :: "'a app \<Rightarrow> ('a wallet_device mock_inner, bytes, bytes, bytes, unit) client_env" where
  "wallet_env app = \<lparr>env_host = mock_host (wallet_message demo_crypto demo_proto (replicate 32 5) app), env_crypto = demo_crypto,
     env_proto = demo_proto, env_eth = demo_eth, env_sol = demo_sol, env_tron = demo_tron, env_btc = demo_btc_proto,
     env_lib = demo_btc\<lparr>psbt_from_str := (\<lambda>s. Inr demo_psbt), psbt_to_string := (\<lambda>p. ''signed'')\<rparr>\<rparr>"

lemma demo_laws: "crypto_laws demo_crypto"
  by (simp add: crypto_laws_def demo_aead_correct demo_hash_lengths demo_dh_laws)

lemma log_app_answers:
  assumes "fits_frame body"
  shows "app_transceive log_app P sid mt body (log, env) = Some (Inr (fst (log_app sid mt body log)), (log @ [mt], env))"
  by (cases "log_app sid mt body log" rule: prod.exhaust, cases "fst (log_app sid mt body log)")
    (use assms in \<open>auto simp: log_app_def fits_frame_def MSG_BUTTON_REQUEST_def MSG_FAILURE_def T_END_RESPONSE_def MSG_SUCCESS_def
      BTC_TX_REQUEST_def intro!: app_transceive_plain\<close>)

theorem sign_psbt_end_to_end_witness:
  "\<exists>c w. sign_psbt (wallet_env log_app) (replicate 32 0x11) [8, 9] Standard ''cHNi'' [] [] 0 1 None
      (None, powered_on demo_crypto [10, 4] (replicate 32 0x22) [] [replicate 8 1, replicate 32 3] []) = Some (Inr ''signed'', (Some c, w))
    \<and> serves SEEDED_SESSION_ID ([T_END_REQUEST, MSG_CREATE_NEW_SESSION, BTC_SIGN_TX], [], []) (c, w)"
proof -
  have "acceptable demo_proto [10, 4] (Some [8, 9])" by (simp add: acceptable_def demo_proto_def)
  moreover have "opens_wallet log_app demo_proto (wallet_key Standard) ([], [], []) ([T_END_REQUEST, MSG_CREATE_NEW_SESSION], [], [])"
    by (simp add: opens_wallet_def wallet_key_def demo_proto_def log_app_answers fits_frame_def)
      (simp add: log_app_def T_END_REQUEST_def T_END_RESPONSE_def MSG_CREATE_NEW_SESSION_def MSG_SUCCESS_def)
  moreover have "sign_psbt_over (app_transceive log_app demo_proto SEEDED_SESSION_ID) (app_transceive log_app demo_proto SEEDED_SESSION_ID)
      (env_lib (wallet_env log_app)) (env_btc (wallet_env log_app)) ''cHNi'' 1 ([T_END_REQUEST, MSG_CREATE_NEW_SESSION], [], []) =
      Some (Inr ''signed'', ([T_END_REQUEST, MSG_CREATE_NEW_SESSION, BTC_SIGN_TX], [], []))"
    (is "sign_psbt_over ?send ?send ?L ?B _ _ _ = _")
  proof -
    have "io_loop (sign_psbt_body ?send ?L ?B demo_psbt Testnet) ((BTC_TX_REQUEST, []), []) ([T_END_REQUEST, MSG_CREATE_NEW_SESSION, BTC_SIGN_TX], [], [])
        = Some (Inr [], ([T_END_REQUEST, MSG_CREATE_NEW_SESSION, BTC_SIGN_TX], [], []))"
      by (rule io_loop_leave) (simp add: sign_psbt_body_def expect_reply_def wallet_env_def demo_btc_proto_def decoded_def
          tx_ack_def request_type_of_def note_signature_def Let_def)
    moreover have "?send BTC_SIGN_TX (enc_btc_sign_tx ?B (btc_sign_request demo_psbt 1)) ([T_END_REQUEST, MSG_CREATE_NEW_SESSION], [], [])
        = Some (Inr (BTC_TX_REQUEST, []), ([T_END_REQUEST, MSG_CREATE_NEW_SESSION, BTC_SIGN_TX], [], []))"
      by (simp add: wallet_env_def demo_btc_proto_def log_app_answers fits_frame_def)
        (simp add: log_app_def T_END_REQUEST_def MSG_CREATE_NEW_SESSION_def MGMT_GET_FEATURES_def BTC_SIGN_TX_def)
    moreover have "decoded ''PSBT parse: '' (psbt_from_str ?L ''cHNi'') = Inr demo_psbt" "psbt_to_string ?L demo_psbt = ''signed''"
      by (simp_all add: wallet_env_def decoded_def)
    ultimately show ?thesis by (simp add: sign_psbt_over_def io_bind_Some Let_def)
  qed
  ultimately show ?thesis
    using sign_psbt_end_to_end [OF demo_laws, where \<Gamma> = "wallet_env log_app" and app = log_app and pass = Standard and a = "[]" and es = "[]"
        and P = demo_proto and props = "[10, 4]" and cred = "[8, 9]" and hsp = "replicate 32 0x11" and tepriv = "replicate 32 5"
        and psbt = "''cHNi''" and coin_type = 1 and r = "Inr ''signed''"]
    by (fastforce simp: wallet_env_def)
qed


text \<open>An application that pairs; its secret is a single byte.\<close>

definition pairing_app :: "unit app" where
  "pairing_app sid mt body u = (
     if mt = T_PAIRING_REQUEST then (T_PAIRING_REQUEST_APPROVED, [])
     else if mt = T_SELECT_METHOD then (T_CODE_ENTRY_COMMITMENT, sha256 demo_crypto [1])
     else if mt = T_CODE_ENTRY_CHALLENGE then (T_CODE_ENTRY_CPACE_TREZOR, replicate 32 9)
     else if mt = T_CODE_ENTRY_CPACE_HOST_TAG then (T_CODE_ENTRY_SECRET, [1])
     else if mt = T_CREDENTIAL_REQUEST then (T_CREDENTIAL_RESPONSE, [42])
     else if mt = T_END_REQUEST then (T_END_RESPONSE, []) else (MGMT_FEATURES, []), ())"

lemma pairing_app_answers:
  assumes "fits_frame body"
  shows "app_transceive pairing_app P sid mt body (u, env) = Some (Inr (fst (pairing_app sid mt body u)), ((), env))"
proof -
  have "length (sha256 demo_crypto [1]) = 32" using demo_hash_lengths by (simp add: hash_lengths_def)
  then have "fits_frame (snd (fst (pairing_app sid mt body u)))" "fst (fst (pairing_app sid mt body u)) \<noteq> MSG_BUTTON_REQUEST"
      "fst (fst (pairing_app sid mt body u)) \<noteq> MSG_FAILURE"
    by (simp_all add: pairing_app_def fits_frame_def MSG_BUTTON_REQUEST_def MSG_FAILURE_def MGMT_FEATURES_def T_END_RESPONSE_def pairing_types)
  with assms show ?thesis
    using app_transceive_plain [of pairing_app sid mt body u, where P = P and env = env] by (cases "pairing_app sid mt body u") auto
qed

lemma pairing_app_establishes:
  assumes "fits_frame pub"
  shows "app_establish pairing_app demo_crypto demo_proto hh pub ''h'' ''a'' None ((), [replicate 16 4, replicate 32 6], [''42'']) =
     Some (Inr \<lparr>ps_device_id = [], ps_model = [], ps_firmware_version = ''2.9.0'', ps_initialized = True, ps_credential = [42]\<rparr>, ((), [], []))"
proof -
  have "trim ''42'' = ''42''" by (rule trim_plain) (simp_all add: plain_def)
  then have code: "parse_code ''42'' = Inr 42"
    by (simp add: parse_code_def parse_u32_def is_digit_def decimal_def digit_value_def)
  have len: "length (host_public (host_cpace demo_crypto c hh p k)) = 32" "length (cpace_tag (host_cpace demo_crypto c hh p k)) = 32" for c p k
    using demo_hash_lengths dh_lengths [OF demo_dh_laws] by (simp_all add: host_cpace_def Let_def cpace_x25519_def hash_lengths_def)
  have digits: "digit_char 2 = CHR ''2''" "digit_char 9 = CHR ''9''" "digit_char 0 = CHR ''0''" by code_simp+
  have pub: "length pub < 65513" using assms by (simp add: fits_frame_def)
  have step: "app_transceive pairing_app P 0 mt body ((), env) = Some (Inr reply, ((), env))"
    if "fst (pairing_app 0 mt body ()) = reply" "fits_frame body" for mt body env reply P
    using pairing_app_answers [OF that(2)] that(1) by simp
  note replies = pairing_app_def pairing_types T_END_REQUEST_def MGMT_GET_FEATURES_def
  have steps:
    "fits_frame b \<Longrightarrow> app_transceive pairing_app P 0 T_PAIRING_REQUEST b ((), env) = Some (Inr (T_PAIRING_REQUEST_APPROVED, []), ((), env))"
    "fits_frame b \<Longrightarrow> app_transceive pairing_app P 0 T_SELECT_METHOD b ((), env) = Some (Inr (T_CODE_ENTRY_COMMITMENT, sha256 demo_crypto [1]), ((), env))"
    "fits_frame b \<Longrightarrow> app_transceive pairing_app P 0 T_CODE_ENTRY_CHALLENGE b ((), env) = Some (Inr (T_CODE_ENTRY_CPACE_TREZOR, replicate 32 9), ((), env))"
    "fits_frame b \<Longrightarrow> app_transceive pairing_app P 0 T_CODE_ENTRY_CPACE_HOST_TAG b ((), env) = Some (Inr (T_CODE_ENTRY_SECRET, [1]), ((), env))"
    "fits_frame b \<Longrightarrow> app_transceive pairing_app P 0 T_CREDENTIAL_REQUEST b ((), env) = Some (Inr (T_CREDENTIAL_RESPONSE, [42]), ((), env))"
    "fits_frame b \<Longrightarrow> app_transceive pairing_app P 0 T_END_REQUEST b ((), env) = Some (Inr (T_END_RESPONSE, []), ((), env))"
    "fits_frame b \<Longrightarrow> app_transceive pairing_app P 0 MGMT_GET_FEATURES b ((), env) = Some (Inr (MGMT_FEATURES, []), ((), env))"
    for b env P
    by (rule step; simp add: replies)+
  have "io_bind (codeentry_pairing (app_transceive pairing_app demo_proto 0) (app_random 16) (app_random 32) app_code demo_crypto demo_proto hh pub ''h'' ''a'') k
      ((), [replicate 16 4, replicate 32 6], [''42'']) = k [42] ((), [], [])"
    for k :: "bytes \<Rightarrow> (unit app_world, paired_session) io"
    by (simp add: codeentry_pairing_def io_bind_def steps app_random_def app_code_def code format_code_ok len fits_frame_def
        demo_proto_def decoded_def as32_def Let_def pub)
  then show ?thesis
    by (simp add: app_establish_def steps io_bind_Some fits_frame_def)
      (simp add: demo_proto_def steps io_bind_Some fits_frame_def decoded_def firmware_version_def show_nat.simps digits)
qed


end
