(* ===== verification/Unit_Tests.thy ===== *)
theory Unit_Tests
  imports Mock_Device Pairing_Flow Psbt_Signing Solana Tron Ethereum "HOL-Library.Sublist"
begin

text \<open>
  The unit tests of the crate, run on the model.  Each test function is a definition whose value says
  that all its assertions hold, and each is proved to be true.  A test that fails an \<^verbatim>\<open>unwrap\<close> or
  \<^verbatim>\<open>expect\<close> panics; here the comparison with \<open>Inr\<close> fails.  Tests whose assertions speak about the strength
  of a primitive (a tampered ciphertext, a wrong pairing code, two keys being different) are not among
  them, because the primitives are parameters.
\<close>

section \<open>\<^verbatim>\<open>bip32.rs\<close>\<close>

abbreviation prime :: string where "prime \<equiv> [CHR 39]"

definition parses_hardened_and_unhardened :: bool where
  "parses_hardened_and_unhardened \<longleftrightarrow>
     parse_path (''m/44'' @ prime @ ''/501'' @ prime @ ''/0'' @ prime @ ''/0'' @ prime) =
       Inr [0x80000000 + 44, 0x80000000 + 501, 0x80000000, 0x80000000]
     \<and> parse_path (''m/44'' @ prime @ ''/60'' @ prime @ ''/0'' @ prime @ ''/0/0'') =
       Inr [0x80000000 + 44, 0x80000000 + 60, 0x80000000, 0, 0]"

definition accepts_h_suffix_and_no_m_prefix :: bool where
  "accepts_h_suffix_and_no_m_prefix \<longleftrightarrow>
     parse_path ''44h/195h/2h'' = Inr [0x80000000 + 44, 0x80000000 + 195, 0x80000000 + 2]"

definition empty_path_is_empty_vec :: bool where
  "empty_path_is_empty_vec \<longleftrightarrow> parse_path ''m'' = Inr [] \<and> parse_path ''m/'' = Inr []"

definition rejects_garbage :: bool where
  "rejects_garbage \<longleftrightarrow> is_err (parse_path (''m/44'' @ prime @ ''/xx/0'')) \<and> is_err (parse_path (''m/44'' @ prime @ ''//0''))
     \<and> is_err (parse_path ''m/4294967296'')"

lemmas path_eval = parse_path_def path_body_def strip_prefix_def starts_with_def parse_component_def trim_plain plain_def
  hardened_mark_def strip_suffix_def parse_u32_def is_digit_def decimal_def digit_value_def HARDENED_BIT_def

lemma bip32_tests: parses_hardened_and_unhardened accepts_h_suffix_and_no_m_prefix empty_path_is_empty_vec rejects_garbage
  unfolding parses_hardened_and_unhardened_def accepts_h_suffix_and_no_m_prefix_def empty_path_is_empty_vec_def rejects_garbage_def
  by (simp_all add: path_eval invalid_path_def Let_def)

section \<open>\<^verbatim>\<open>thp/framing.rs\<close>\<close>

fun push_all :: "reassembler \<Rightarrow> bytes option \<Rightarrow> bytes list \<Rightarrow> bytes option res" where
  "push_all r out [] = Inr out"
| "push_all r out (p # ps) =
     (case push_packet r p of
        (Inl _, r') \<Rightarrow> Inl (Panic ''push'')
      | (Inr None, r') \<Rightarrow> push_all r' out ps
      | (Inr (Some d), r') \<Rightarrow> push_all r' (Some d) ps)"

definition round_trip :: "nat \<Rightarrow> u16 \<Rightarrow> u8 \<Rightarrow> bytes \<Rightarrow> bytes res" where
  "round_trip ps ci ctrl payload =
     (case segment ps ci ctrl payload of
        Inl _ \<Rightarrow> Inl (Panic ''segment'')
      | Inr packets \<Rightarrow>
          if \<not> list_all (\<lambda>p. length p = ps) packets
          then Inl (Panic ''every packet is exactly packet_size'')
          else res_bind (push_all reassembler_new None packets) (\<lambda>out.
            case out of None \<Rightarrow> Inl (Panic ''reassembly completed'') | Some d \<Rightarrow> Inr d))"

definition crc32_standard_check_value :: bool where
  "crc32_standard_check_value \<longleftrightarrow> crc32_ieee (as_bytes ''123456789'') = 0xCBF43926"

definition round_trip_single_packet :: bool where
  "round_trip_single_packet \<longleftrightarrow>
     round_trip BLE_PACKET_SIZE 0x1234 ENCRYPTED_TRANSPORT (as_bytes ''hello trezor'') = Inr (as_bytes ''hello trezor'')"

definition round_trip_empty_payload :: bool where
  "round_trip_empty_payload \<longleftrightarrow> round_trip BLE_PACKET_SIZE 0xABCD HANDSHAKE_INIT_REQUEST [] = Inr []"

definition round_trip_exactly_fills_first_packet :: bool where
  "round_trip_exactly_fills_first_packet \<longleftrightarrow>
     (let payload = replicate (BLE_PACKET_SIZE - INIT_HEADER - CRC_LEN) 0xA5
      in round_trip BLE_PACKET_SIZE 7 ENCRYPTED_TRANSPORT payload = Inr payload)"

definition round_trip_multi_packet_ble_and_usb :: bool where
  "round_trip_multi_packet_ble_and_usb \<longleftrightarrow>
     (let payload = map (\<lambda>i. of_nat (i mod 256)) [0..<3000]
      in round_trip BLE_PACKET_SIZE 1 ENCRYPTED_TRANSPORT payload = Inr payload
        \<and> round_trip USB_PACKET_SIZE 1 ENCRYPTED_TRANSPORT payload = Inr payload)"

definition continuation_before_initiation_is_dropped :: bool where
  "continuation_before_initiation_is_dropped \<longleftrightarrow>
     fst (push_packet reassembler_new (resize BLE_PACKET_SIZE 0 [CONTINUATION_CONTROL, 0x00, 0x01])) = Inr None"

definition new_initiation_resets_in_progress_reassembly :: bool where
  "new_initiation_resets_in_progress_reassembly \<longleftrightarrow>
     (case (segment BLE_PACKET_SIZE 9 ENCRYPTED_TRANSPORT (replicate 5000 1), segment BLE_PACKET_SIZE 9 ENCRYPTED_TRANSPORT (as_bytes ''second'')) of
        (Inr first, Inr second) \<Rightarrow>
          (case push_packet reassembler_new (first ! 0) of
             (Inr None, r) \<Rightarrow> fst (push_packet r (second ! 0)) = Inr (Some (as_bytes ''second''))
           | _ \<Rightarrow> False)
      | _ \<Rightarrow> False)"

definition crc_corruption_is_rejected :: bool where
  "crc_corruption_is_rejected \<longleftrightarrow>
     (case segment BLE_PACKET_SIZE 2 ENCRYPTED_TRANSPORT (as_bytes ''tamper me'') of
        Inr packets \<Rightarrow> is_err (fst (push_packet reassembler_new ((packets ! 0)[6 := packets ! 0 ! 6 XOR 0xFF])))
      | Inl _ \<Rightarrow> False)"

definition oversized_payload_is_rejected :: bool where
  "oversized_payload_is_rejected \<longleftrightarrow>
     is_err (segment BLE_PACKET_SIZE 1 ENCRYPTED_TRANSPORT (replicate (65535 - CRC_LEN + 1) 0))"

lemma crc_round_numeral:
  "crc_round (numeral (num.Bit0 n)) = (numeral (num.Bit0 n) :: u32) div 2"
  "crc_round (numeral (num.Bit1 n)) = ((numeral (num.Bit1 n) :: u32) div 2) XOR 0xEDB88320"
  "crc_round 0 = 0" "crc_round 1 = 0xEDB88320"
  by (simp_all add: crc_round_def drop_bit_eq_div)

lemma crc_byte_eight:
  "crc_byte crc b = crc_round (crc_round (crc_round (crc_round (crc_round (crc_round (crc_round (crc_round (crc XOR ucast b))))))))"
  by (simp add: crc_byte_def eval_nat_numeral)

lemmas crc_eval = crc32_ieee_def crc_byte_eight crc_round_numeral

lemma crc32_test: crc32_standard_check_value
  by (simp add: crc32_standard_check_value_def as_bytes_def crc_eval)

lemma push_all_feed: "feed r ps = (Inr (Some d), r', []) \<Longrightarrow> push_all r out ps = Inr (Some d)"
  by (induction ps arbitrary: r out) (auto split: sum.splits option.splits prod.splits)

lemma round_trip_ok:
  assumes "fits ps payload" "\<not> bit ctrl 7"
  shows "round_trip ps ci ctrl payload = Inr payload"
proof -
  obtain packets where "segment ps ci ctrl payload = Inr packets" "\<forall>p \<in> set packets. length p = ps"
    using segment_ok [OF assms(1)] by blast
  with push_all_feed [OF feed_segment [OF assms]] show ?thesis
    by (simp add: round_trip_def list_all_iff)
qed

lemma round_trip_tests:
  round_trip_single_packet round_trip_empty_payload round_trip_exactly_fills_first_packet round_trip_multi_packet_ble_and_usb
  unfolding round_trip_single_packet_def round_trip_empty_payload_def round_trip_exactly_fills_first_packet_def
    round_trip_multi_packet_ble_and_usb_def Let_def
  by (simp_all add: round_trip_ok fits_def header_defs BLE_PACKET_SIZE_def USB_PACKET_SIZE_def control_defs as_bytes_def)

lemma framing_rejections: continuation_before_initiation_is_dropped oversized_payload_is_rejected
  by (simp_all add: continuation_before_initiation_is_dropped_def oversized_payload_is_rejected_def push_packet_def push_continuation_def
      resize_def BLE_PACKET_SIZE_def control_defs reassembler_new_def segment_def header_defs)

lemma be_expand:
  "u16_be v = [ucast (drop_bit 8 v), ucast v]"
  "u32_be w = [ucast (drop_bit 24 w), ucast (drop_bit 16 w), ucast (drop_bit 8 w), ucast w]"
  by (simp_all add: u16_be_def u32_be_def eval_nat_numeral(2,3) BitM.simps)

lemma crc_corruption_test: crc_corruption_is_rejected
proof -
  have crc: "crc32_ieee [4, 0, 2, 0, 13, 116, 97, 109, 112, 101, 114, 32, 109, 101] = 0xC4BDA71C"
      "crc32_ieee [4, 0, 2, 0, 13, 116, 158, 109, 112, 101, 114, 32, 109, 101] \<noteq> 0xC4BDA71C"
    by (simp_all add: crc_eval)
  have be: "u16_be 2 = [0, 2]" "u16_be 13 = [0, 13]" "u32_be 0xC4BDA71C = [0xC4, 0xBD, 0xA7, 0x1C]"
    by (simp_all add: be_expand)
  have seg: "segment BLE_PACKET_SIZE 2 ENCRYPTED_TRANSPORT (as_bytes ''tamper me'') =
      Inr [[4, 0, 2, 0, 13, 116, 97, 109, 112, 101, 114, 32, 109, 101, 0xC4, 0xBD, 0xA7, 0x1C] @ replicate 226 0]"
    by (simp add: segment_def Let_def header_defs BLE_PACKET_SIZE_def as_bytes_def control_defs slice_def cont_packets.simps
      crc_input_def crc be resize_def)
  show ?thesis
    unfolding crc_corruption_is_rejected_def seg
    using crc(2) by (simp add: push_packet_def push_initiation_def header_defs control_defs Let_def slice_def
      from_be_def complete_def finish_def reassembler_new_def usub_def idx_def crc_input_def be)
qed

lemma first_packet_of:
  assumes "fits ps payload" "segment ps ci ctrl payload = Inr packets"
  shows "packets ! 0 = first_packet ps ci ctrl (with_crc ci ctrl payload)"
  using assms by (auto simp: segment_eq Let_def res_bind_eq_Inr)

lemma new_initiation_test: new_initiation_resets_in_progress_reassembly
proof -
  have big: "fits BLE_PACKET_SIZE (replicate 5000 1)" and small: "fits BLE_PACKET_SIZE (as_bytes ''second'')" "\<not> bit ENCRYPTED_TRANSPORT 7"
    by (simp_all add: fits_def header_defs BLE_PACKET_SIZE_def control_defs as_bytes_def)
  obtain first second where seg: "segment BLE_PACKET_SIZE 9 ENCRYPTED_TRANSPORT (replicate 5000 1) = Inr first"
      "segment BLE_PACKET_SIZE 9 ENCRYPTED_TRANSPORT (as_bytes ''second'') = Inr second"
    using segment_ok [OF big] segment_ok [OF small(1)] by metis
  obtain r where "push_packet reassembler_new (first ! 0) = (Inr None, r)"
    unfolding first_packet_of [OF big seg(1)] push_first_packet [OF big small(2)]
    by (simp add: complete_def header_defs BLE_PACKET_SIZE_def)
  moreover have "length second = 1"
    using seg(2) by (auto simp: segment_def Let_def header_defs BLE_PACKET_SIZE_def as_bytes_def slice_def cont_packets.simps)
  then obtain p where p: "second = [p]" by (cases second) auto
  have "fst (push_packet r p) = Inr (Some (as_bytes ''second''))" for r
    using feed_segment [OF small seg(2), of r] by (auto simp: p split: sum.splits option.splits prod.splits)
  ultimately show ?thesis by (simp add: new_initiation_resets_in_progress_reassembly_def seg p)
qed

lemmas framing_tests = crc32_test round_trip_tests framing_rejections new_initiation_test crc_corruption_test

section \<open>\<^verbatim>\<open>thp/session.rs\<close>\<close>

definition iv_encodes_nonce_as_zero_padded_be_u64 :: bool where
  "iv_encodes_nonce_as_zero_padded_be_u64 \<longleftrightarrow> iv_from_nonce 0 = replicate 12 0
     \<and> iv_from_nonce 1 = [0, 0, 0, 0, 0, 0, 0, 0, 0, 0, 0, 1]
     \<and> iv_from_nonce 0x0102030405060708 = [0, 0, 0, 0, 1, 2, 3, 4, 5, 6, 7, 8]"

definition app_message_round_trips :: bool where
  "app_message_round_trips \<longleftrightarrow> encode_app_message 0 0x0011 [0xde, 0xad] = [0x00, 0x00, 0x11, 0xde, 0xad]
     \<and> decode_app_message (encode_app_message 0 0x0011 [0xde, 0xad]) = Inr (0, 0x0011, [0xde, 0xad])"

definition paired_sessions :: "session \<times> session" where
  "paired_sessions = (session_new (replicate 32 0x11) (replicate 32 0x22) 0 1, session_new (replicate 32 0x22) (replicate 32 0x11) 1 0)"

definition transport_round_trips_both_directions_with_advancing_nonces :: "crypto \<Rightarrow> bool" where
  "transport_round_trips_both_directions_with_advancing_nonces C \<longleftrightarrow>
     (let (host, trezor) = paired_sessions;
          msgs = map (\<lambda>i. (True, replicate 10 i)) [0, 1, 2] @ map (\<lambda>i. (False, replicate 5 (0xF0 OR i))) [0, 1];
          (delivered, host', trezor') = converse C host trezor msgs
      in delivered = map (\<lambda>(d, m). (d, Inr m)) msgs \<and> nonce_send host' = 3 \<and> nonce_recv host' = 3)"

lemma u64_be_expand:
  "u64_be v = [ucast (drop_bit 56 v), ucast (drop_bit 48 v), ucast (drop_bit 40 v), ucast (drop_bit 32 v),
     ucast (drop_bit 24 v), ucast (drop_bit 16 v), ucast (drop_bit 8 v), ucast v]"
  by (simp add: u64_be_def eval_nat_numeral(2,3) BitM.simps)

lemma session_codec_tests: iv_encodes_nonce_as_zero_padded_be_u64 app_message_round_trips
proof -
  have "replicate 4 (0 :: u8) = [0, 0, 0, 0]" "replicate 12 (0 :: u8) = [0, 0, 0, 0, 0, 0, 0, 0, 0, 0, 0, 0]"
    by (simp_all add: eval_nat_numeral)
  then show iv_encodes_nonce_as_zero_padded_be_u64
    by (simp add: iv_encodes_nonce_as_zero_padded_be_u64_def iv_from_nonce_def u64_be_expand)
  show app_message_round_trips
    by (simp add: app_message_round_trips_def decode_encode_app) (simp add: encode_app_message_def be_expand)
qed

lemma transport_test:
  assumes "aead_correct C"
  shows "transport_round_trips_both_directions_with_advancing_nonces C"
proof -
  let ?host = "fst paired_sessions" and ?trezor = "snd paired_sessions"
  define msgs where "msgs = map (\<lambda>i. (True, replicate 10 i)) [0, 1, 2] @ map (\<lambda>i. (False, replicate 5 (0xF0 OR i))) [0, 1 :: u8]"
  have "mirrors ?host ?trezor" by (simp add: paired_sessions_def session_new_def mirrors_def)
  moreover have "\<forall>(d, m) \<in> set msgs. length m < 2 ^ 36" by (simp add: msgs_def)
  ultimately obtain host' trezor' where "converse C ?host ?trezor msgs = (map (\<lambda>(d, m). (d, Inr m)) msgs, host', trezor')"
      "nonce_send host' = nonce_send ?host + of_nat (length (filter fst msgs))"
      "nonce_recv host' = nonce_recv ?host + of_nat (length (filter (Not \<circ> fst) msgs))"
    using converse_ok [OF assms] by blast
  moreover have "length (filter fst msgs) = 3" "length (filter (Not \<circ> fst) msgs) = 2" by (simp_all add: msgs_def)
  moreover have "nonce_send ?host = 0" "nonce_recv ?host = 1" by (simp_all add: paired_sessions_def session_new_def)
  ultimately show ?thesis
    unfolding transport_round_trips_both_directions_with_advancing_nonces_def Let_def split_beta msgs_def [symmetric] by simp
qed

section \<open>\<^verbatim>\<open>thp/cpace.rs\<close>, \<^verbatim>\<open>thp/noise.rs\<close>, \<^verbatim>\<open>thp/channel.rs\<close>\<close>

definition code_is_zero_padded_six_digits :: bool where
  "code_is_zero_padded_six_digits \<longleftrightarrow> format_code 42 = Inr (as_bytes ''000042'') \<and> format_code 123456 = Inr (as_bytes ''123456'')"

definition padding_is_111_zeros_between_markers :: bool where
  "padding_is_111_zeros_between_markers \<longleftrightarrow> cpace_padding ! 0 = 0x6f \<and> cpace_padding ! (PADDING_LEN - 1) = 0x20
     \<and> list_all (\<lambda>b. b = 0) (take (PADDING_LEN - 2) (drop 1 cpace_padding))"

definition protocol_name_is_32_bytes :: bool where
  "protocol_name_is_32_bytes \<longleftrightarrow> length PROTOCOL_NAME = 32"

definition request_payload_is_the_nonce :: bool where
  "request_payload_is_the_nonce \<longleftrightarrow> build_allocation_request [1, 2, 3, 4, 5, 6, 7, 8] = [1, 2, 3, 4, 5, 6, 7, 8]"

text \<open>The codec of the device properties is generated code: \<open>raw\<close> stands for the encoded sample.\<close>

definition parses_a_matching_response :: "proto \<Rightarrow> bytes \<Rightarrow> bytes \<Rightarrow> bool" where
  "parses_a_matching_response P nonce raw \<longleftrightarrow>
     (case parse_allocation_response P nonce (build_response nonce 0x1234 raw) of
        Inl _ \<Rightarrow> False
      | Inr allocation \<Rightarrow> ca_cid allocation = 0x1234 \<and> internal_model (ca_device_properties allocation) = ''T3W1''
          \<and> protocol_version_major (ca_device_properties allocation) = 2 \<and> ca_device_properties_raw allocation = raw)"

definition rejects_nonce_mismatch :: "proto \<Rightarrow> bytes \<Rightarrow> bool" where
  "rejects_nonce_mismatch P raw \<longleftrightarrow> is_err (parse_allocation_response P (replicate 8 9) (build_response (replicate 8 8) 5 raw))"

definition rejects_truncated_response :: "proto \<Rightarrow> bool" where
  "rejects_truncated_response P \<longleftrightarrow> is_err (parse_allocation_response P (replicate 8 0) (replicate 5 0))"

lemma small_tests: padding_is_111_zeros_between_markers protocol_name_is_32_bytes request_payload_is_the_nonce
  by (simp_all add: padding_is_111_zeros_between_markers_def protocol_name_is_32_bytes_def request_payload_is_the_nonce_def
      cpace_padding_def PADDING_LEN_def PROTOCOL_NAME_def build_allocation_request_def list_all_length nth_list_update)

lemma digit_chars:
  "digit_char 0 = CHR ''0''" "digit_char (Suc 0) = CHR ''1''" "digit_char 2 = CHR ''2''" "digit_char 3 = CHR ''3''"
  "digit_char 4 = CHR ''4''" "digit_char 5 = CHR ''5''" "digit_char 6 = CHR ''6''"
  by code_simp+

lemma code_test: code_is_zero_padded_six_digits
proof -
  have zeros: "replicate 4 (CHR ''0'') = ''0000''" by (simp add: eval_nat_numeral)
  have "zero_padded 6 42 = ''000042''" "zero_padded 6 123456 = ''123456''"
    by (simp_all add: zero_padded_def show_nat.simps digit_chars zeros)
  then show ?thesis by (simp add: code_is_zero_padded_six_digits_def format_code_ok)
qed

lemma channel_tests:
  "dec_device_properties P raw = Inr dp \<Longrightarrow> internal_model dp = ''T3W1'' \<Longrightarrow> protocol_version_major dp = 2 \<Longrightarrow>
    length nonce = 8 \<Longrightarrow> parses_a_matching_response P nonce raw"
  "rejects_nonce_mismatch P raw" "rejects_truncated_response P"
  by (simp add: parses_a_matching_response_def parse_build_response)
    (simp_all add: rejects_nonce_mismatch_def rejects_truncated_response_def parse_allocation_response_def build_response_def
      ALLOCATION_NONCE_LEN_def)

section \<open>\<^verbatim>\<open>thp/connection.rs\<close>\<close>

text \<open>How an error is shown (\<^verbatim>\<open>error.rs\<close>).\<close>

definition trezor_error_to_string :: "trezor_error \<Rightarrow> string" where
  "trezor_error_to_string e = (case e of
     Transport reason \<Rightarrow> ''transport error: '' @ reason
   | Thp reason \<Rightarrow> ''THP channel error: '' @ reason
   | DeviceRejected code reason \<Rightarrow> ''device rejected (failure '' @ show_int code @ ''): '' @ reason
   | Pairing reason \<Rightarrow> ''pairing required: '' @ reason
   | InvalidInput reason \<Rightarrow> ''invalid input: '' @ reason
   | Protocol reason \<Rightarrow> ''protocol error: '' @ reason
   | TransportBusy \<Rightarrow> ''device transport is busy; back off and retry''
   | UserCanceled \<Rightarrow> ''user canceled on device''
   | NotImplemented feature \<Rightarrow> ''not yet implemented: '' @ feature)"

definition decode_transport_error_messages :: bool where
  "decode_transport_error_messages \<longleftrightarrow> decode_transport_error [1] = TransportBusy
     \<and> sublist ''locked'' (trezor_error_to_string (decode_transport_error [5]))
     \<and> sublist ''unallocated'' (trezor_error_to_string (decode_transport_error [2]))
     \<and> sublist ''decryption'' (trezor_error_to_string (decode_transport_error [3]))"

definition locked_read :: "bytes list \<Rightarrow> (transport_error + bytes) \<times> bytes list" where
  "locked_read out = (case out of [] \<Rightarrow> (Inl (Io ''empty''), []) | p # ps \<Rightarrow> (Inr p, ps))"

text \<open>The device of the test accepts every write; the world is the queue of its packets.\<close>

definition locked_host :: "bytes list host" where
  "locked_host = \<lparr>write_chunk = (\<lambda>data out. (Inr (), out)), read_chunk = locked_read,
     getrandom = (\<lambda>n out. (Inr (replicate n 0), out)), request_code = (\<lambda>out. ([], out))\<rparr>"

definition locked_device_new :: "bytes list res" where
  "locked_device_new = unwrap (segment BLE_PACKET_SIZE BROADCAST_CID TRANSPORT_ERROR [5])"

definition locked_device_surfaces_decoded_error :: "proto \<Rightarrow> bool" where
  "locked_device_surfaces_decoded_error P \<longleftrightarrow> (case locked_device_new of
     Inl _ \<Rightarrow> False
   | Inr out \<Rightarrow> (case allocate locked_host P (connection_new BLE_PACKET_SIZE, out) of
       Some (Err e, _) \<Rightarrow> sublist ''locked'' (trezor_error_to_string e) | _ \<Rightarrow> False))"

lemma sublist_by: "xs = ps @ ys @ ss \<Longrightarrow> sublist ys xs"
  by (auto simp: sublist_def)

lemma decode_messages_test: decode_transport_error_messages
proof -
  have "sublist ''locked'' (trezor_error_to_string (decode_transport_error [5]))"
    by (rule sublist_by [where ps = "''THP channel error: THP transport error 5: the device is ''"
        and ss = "'' '' @ em_dash @ '' unlock your Trezor (enter your PIN on the device) and retry''"])
      (simp add: decode_transport_error_def thp_def trezor_error_to_string_def show_nat.simps digit_chars)
  moreover have "sublist ''unallocated'' (trezor_error_to_string (decode_transport_error [2]))"
    by (rule sublist_by [where ps = "''THP channel error: THP transport error 2: the channel is ''"
        and ss = "'' '' @ em_dash @ '' the device released it; reconnect to allocate a new one''"])
      (simp add: decode_transport_error_def thp_def trezor_error_to_string_def show_nat.simps digit_chars)
  moreover have "sublist ''decryption'' (trezor_error_to_string (decode_transport_error [3]))"
    by (rule sublist_by [where ps = "''THP channel error: THP transport error 3: ''"
        and ss = "'' failed (bad authentication tag); the channel must be re-established''"])
      (simp add: decode_transport_error_def thp_def trezor_error_to_string_def show_nat.simps digit_chars)
  ultimately show ?thesis by (simp add: decode_transport_error_messages_def decode_transport_error_def)
qed

lemma write_packets_locked: "write_packets locked_host ps (c, out) = Some (Inr (), (c, out))"
  by (induction ps) (simp_all add: write_one_def locked_host_def io_bind_def)

lemma locked_device_test: "locked_device_surfaces_decoded_error P"
proof -
  have ok: "fits BLE_PACKET_SIZE [5]" "\<not> bit TRANSPORT_ERROR 7" by (simp_all add: fits_def header_defs BLE_PACKET_SIZE_def control_defs)
  obtain packets where seg: "segment BLE_PACKET_SIZE BROADCAST_CID TRANSPORT_ERROR [5] = Inr packets" using segment_ok [OF ok(1)] by blast
  then have "length packets = 1"
    by (auto simp: segment_def Let_def header_defs BLE_PACKET_SIZE_def slice_def cont_packets.simps)
  then obtain p where p: "packets = [p]" by (cases packets) auto
  obtain r where push: "push_packet reassembler_new p = (Inr (Some [5]), r)"
    using feed_segment [OF ok seg, of reassembler_new] by (auto simp: p split: sum.splits option.splits prod.splits)
  have ctrl: "foldl track 0 packets = TRANSPORT_ERROR" "[] \<notin> set packets" by (rule segment_track [OF ok seg])+
  have "read_framed_body locked_host (reassembler_new, 0) (c, [p]) = Some (Err (decode_transport_error [5]), (c, []))" for c
    using ctrl push by (simp add: p read_framed_body_def read_one_def locked_host_def locked_read_def io_bind_def track_def Let_def)
  then have read: "read_framed locked_host (c, [p]) = Some (Err (decode_transport_error [5]), (c, []))" for c
    unfolding read_framed_def by (rule io_loop_fail)
  have "fits BLE_PACKET_SIZE (replicate 8 0)" by (simp add: fits_def header_defs BLE_PACKET_SIZE_def)
  then obtain qs where "segment BLE_PACKET_SIZE BROADCAST_CID CHANNEL_ALLOCATION_REQUEST (replicate 8 0) = Inr qs"
    using segment_ok by blast
  then have "write_framed locked_host CHANNEL_ALLOCATION_REQUEST (replicate 8 0) (connection_new BLE_PACKET_SIZE, [p]) =
      Some (Inr (), (connection_new BLE_PACKET_SIZE, [p]))"
    by (simp add: write_framed_def conn_def connection_new_def write_packets_locked)
  then have "allocate locked_host P (connection_new BLE_PACKET_SIZE, [p]) =
      Some (Err (decode_transport_error [5]), (connection_new BLE_PACKET_SIZE, []))"
    using read [of "connection_new BLE_PACKET_SIZE"]
    by (simp add: allocate_def random_allocation_nonce_def random_bytes_def ALLOCATION_NONCE_LEN_def build_allocation_request_def
        update_def MAX_ALLOC_READS_def numeral_eq_Suc io_bind_def connection_new_def locked_host_def)
  with seg decode_messages_test show ?thesis
    by (simp add: locked_device_surfaces_decoded_error_def locked_device_new_def unwrap_def p decode_transport_error_messages_def)
qed

section \<open>\<^verbatim>\<open>chains\<close>\<close>

definition account_path_is_bip84_hardened :: bool where
  "account_path_is_bip84_hardened \<longleftrightarrow> btc_account_path 0 0 = [0x80000000 + 84, 0x80000000, 0x80000000]
     \<and> btc_account_path 2 1 = [0x80000000 + 84, 0x80000000 + 1, 0x80000000 + 2]"

definition script_type_follows_purpose :: bool where
  "script_type_follows_purpose \<longleftrightarrow> (let h = 0x80000000 in
     script_type_for_path [h OR 44, h, h] = Spendaddress \<and> script_type_for_path [h OR 49, h, h] = Spendp2shwitness
     \<and> script_type_for_path [h OR 84, h, h] = Spendwitness \<and> script_type_for_path [h OR 86, h, h] = Spendwitness
     \<and> script_type_for_path [] = Spendwitness)"

definition coin_name_maps_mainnet_and_testnet :: bool where
  "coin_name_maps_mainnet_and_testnet \<longleftrightarrow> coin_name 0 = ''Bitcoin'' \<and> coin_name 1 = ''Testnet'' \<and> coin_name 99 = ''Bitcoin''"

definition account_path_is_slip10_hardened :: bool where
  "account_path_is_slip10_hardened \<longleftrightarrow>
     sol_account_path 0 = [0x80000000 + 44, 0x80000000 + 501, 0x80000000, 0x80000000]
     \<and> sol_account_path 3 = [0x80000000 + 44, 0x80000000 + 501, 0x80000000 + 3, 0x80000000]"

definition account_path_is_bip44 :: bool where
  "account_path_is_bip44 \<longleftrightarrow> tron_account_path 0 = [0x80000000 + 44, 0x80000000 + 195, 0x80000000, 0, 0]"

text \<open>
  The PSBT of the Bitcoin test: \<open>pk\<close> and \<open>wpkh\<close> stand for the key and script the test derives with the
  \<^verbatim>\<open>bitcoin\<close> crate.
\<close>

definition test_txid :: bytes where
  "test_txid = rev (map (\<lambda>i. of_nat (i + 1)) [0..<32])"

definition test_psbt :: "bytes \<Rightarrow> bytes \<Rightarrow> ('g, unit) psbt" where
  "test_psbt pk wpkh = \<lparr>
     unsigned_tx = \<lparr>tx_version = 2, tx_lock_time = 0,
       tx_input = [\<lparr>ti_txid = test_txid, ti_vout = 7, ti_script_sig = [], ti_sequence = 0xfffffffd, ti_witness = []\<rparr>],
       tx_output = [\<lparr>to_value = 50000, to_script_pubkey = wpkh\<rparr>, \<lparr>to_value = 10000, to_script_pubkey = wpkh\<rparr>]\<rparr>,
     psbt_inputs = [\<lparr>pi_witness_utxo = Some \<lparr>to_value = 60000, to_script_pubkey = wpkh\<rparr>, pi_non_witness_utxo = None,
       pi_bip32_derivation = [(pk, [0, 0, 0, 0], [0x80000054, 0x80000001, 0x80000000, 0, 0])], pi_partial_sigs = Map.empty, pi_other = ()\<rparr>],
     psbt_outputs = [\<lparr>po_bip32_derivation = [], po_other = ()\<rparr>,
       \<lparr>po_bip32_derivation = [(pk, [0, 0, 0, 0], [0x80000054, 0x80000001, 0x80000000, 1, 0])], po_other = ()\<rparr>],
     psbt_other = ()\<rparr>"

definition maps_bip84_input_and_outputs :: "('g, unit) btc_lib \<Rightarrow> bytes \<Rightarrow> bytes \<Rightarrow> bool" where
  "maps_bip84_input_and_outputs L pk wpkh \<longleftrightarrow> (let psbt = test_psbt pk wpkh :: ('g, unit) psbt in
     (case build_input_ack psbt 0 of Inl _ \<Rightarrow> False | Inr input \<Rightarrow>
        bi_amount input = 60000 \<and> bi_prev_index input = 7 \<and> bi_sequence input = Some 0xfffffffd
        \<and> bi_script_type input = Some (input_script_code Spendwitness)
        \<and> bi_address_n input = [0x80000054, 0x80000001, 0x80000000, 0, 0] \<and> bi_prev_hash input = rev test_txid)
     \<and> (case build_output_ack L psbt 0 Testnet of Inl _ \<Rightarrow> False | Inr out0 \<Rightarrow>
        bo_amount out0 = 50000 \<and> bo_script_type out0 = Some (output_script_code Paytoaddress)
        \<and> bo_address out0 \<noteq> None \<and> bo_address_n out0 = [])
     \<and> (case build_output_ack L psbt 1 Testnet of Inl _ \<Rightarrow> False | Inr out1 \<Rightarrow>
        bo_amount out1 = 10000 \<and> bo_script_type out1 = Some (output_script_code Paytowitness)
        \<and> bo_address out1 = None \<and> bo_address_n out1 = [0x80000054, 0x80000001, 0x80000000, 1, 0]))"

definition decodes_native_eip1559_envelope :: bool where
  "decodes_native_eip1559_envelope \<longleftrightarrow>
     (let payload = rlp_list [rlp_bytes (minimal_be 11155111), rlp_bytes [0x05], rlp_bytes [0x3b, 0x9a, 0xca, 0x00],
            rlp_bytes [0x06, 0xfc, 0x23, 0xac, 0x00], rlp_bytes [0x52, 0x08], rlp_bytes (replicate 20 0x11), rlp_bytes [0x01],
            rlp_bytes [], rlp_list []] in
      case decode_eip1559_envelope (0x02 # payload) of Inl _ \<Rightarrow> False | Inr tx \<Rightarrow>
        tx_chain_id tx = 11155111 \<and> tx_nonce tx = [0x05] \<and> tx_max_priority_fee tx = [0x3b, 0x9a, 0xca, 0x00]
        \<and> tx_max_fee tx = [0x06, 0xfc, 0x23, 0xac, 0x00] \<and> tx_gas_limit tx = [0x52, 0x08]
        \<and> tx_to tx = replicate 20 0x11 \<and> tx_value tx = [0x01] \<and> tx_data tx = [])"

definition decodes_erc20_envelope_with_calldata :: bool where
  "decodes_erc20_envelope_with_calldata \<longleftrightarrow>
     (let data = [0xa9, 0x05, 0x9c, 0xbb] @ replicate 64 0;
          payload = rlp_list [rlp_bytes (minimal_be 1), rlp_bytes [], rlp_bytes [0x01], rlp_bytes [0x02], rlp_bytes [0x52, 0x08],
            rlp_bytes (replicate 20 0x22), rlp_bytes [], rlp_bytes data, rlp_list []] in
      length data = 68 \<and>
      (case decode_eip1559_envelope (0x02 # payload) of Inl _ \<Rightarrow> False | Inr tx \<Rightarrow>
        tx_chain_id tx = 1 \<and> tx_nonce tx = [] \<and> tx_to tx = replicate 20 0x22 \<and> tx_value tx = [] \<and> tx_data tx = data))"

definition rejects_non_typed_envelope :: bool where
  "rejects_non_typed_envelope \<longleftrightarrow> is_err (decode_eip1559_envelope [0x01, 0x02, 0x03]) \<and> is_err (decode_eip1559_envelope [])"

lemma chain_path_tests: account_path_is_bip84_hardened script_type_follows_purpose coin_name_maps_mainnet_and_testnet
    account_path_is_slip10_hardened account_path_is_bip44
  by (simp_all add: account_path_is_bip84_hardened_def script_type_follows_purpose_def coin_name_maps_mainnet_and_testnet_def
      account_path_is_slip10_hardened_def account_path_is_bip44_def btc_account_path_def script_type_for_path_def coin_name_def
      sol_account_path_def tron_account_path_def)

lemma psbt_test:
  assumes "address_from_script L wpkh Testnet = Inr addr"
  shows "maps_bip84_input_and_outputs L pk wpkh"
  using assms
  by (simp add: maps_bip84_input_and_outputs_def test_psbt_def Let_def build_input_ack_def build_output_ack_def get_or_def
      input_amount_def first_derivation_def change_of_def change_script_type_def script_type_for_path_def)

lemma envelope_tests: decodes_native_eip1559_envelope decodes_erc20_envelope_with_calldata rejects_non_typed_envelope
proof -
  note enc = rlp_list_def rlp_bytes_def rlp_str_prefix_def Let_def minimal_be_def minimal_be_loop.simps
  let ?native = "[Bytes (minimal_be 11155111), Bytes [0x05], Bytes [0x3b, 0x9a, 0xca, 0x00], Bytes [0x06, 0xfc, 0x23, 0xac, 0x00],
    Bytes [0x52, 0x08], Bytes (replicate 20 0x11), Bytes [0x01], Bytes []] @ [Nested []]"
  have "length (rlp_list (map enc_item ?native)) < 2 ^ 64" by (simp add: enc)
  from decode_envelope_encoded [OF refl this] show decodes_native_eip1559_envelope
    by (simp add: decodes_native_eip1559_envelope_def Let_def) (simp add: minimal_be_def minimal_be_loop.simps be_value_def)
  let ?data = "[0xa9, 0x05, 0x9c, 0xbb] @ replicate 64 0"
  let ?erc20 = "[Bytes (minimal_be 1), Bytes [], Bytes [0x01], Bytes [0x02], Bytes [0x52, 0x08], Bytes (replicate 20 0x22), Bytes [],
    Bytes ?data] @ [Nested []]"
  have "length (rlp_list (map enc_item ?erc20)) < 2 ^ 64" by (simp add: enc)
  from decode_envelope_encoded [OF refl this] show decodes_erc20_envelope_with_calldata
    by (simp add: decodes_erc20_envelope_with_calldata_def Let_def) (simp add: minimal_be_def minimal_be_loop.simps be_value_def)
  show rejects_non_typed_envelope
    by (simp add: rejects_non_typed_envelope_def decode_eip1559_envelope_def)
qed

end
