(* ===== verification/Primality.thy ===== *)
theory Primality
  imports Prelude
begin

text \<open>
  The number theory behind the field of \<^verbatim>\<open>thp/elligator2.rs\<close>: that \<open>2\<^sup>2\<^sup>5\<^sup>5 - 19\<close> is prime.  The proof
  is Pocklington's: from a prime \<open>q\<close> dividing \<open>n - 1\<close> and two powers of 2 modulo \<open>n\<close> follows that \<open>n\<close> is
  prime.  The powers are evaluated on binary numerals with Montgomery's reduction, which needs
  additions and shifts only.
\<close>

section \<open>Prime numbers\<close>

definition is_prime :: "nat \<Rightarrow> bool" where
  "is_prime p \<longleftrightarrow> 1 < p \<and> (\<forall>m. m dvd p \<longrightarrow> m = 1 \<or> m = p)"

lemma is_prime_gt: "is_prime p \<Longrightarrow> 1 < p"
  by (simp add: is_prime_def)

lemma is_prime_coprime: "is_prime p \<Longrightarrow> \<not> p dvd a \<Longrightarrow> coprime p a"
  by (metis coprime_iff_gcd_eq_1 gcd_dvd1 gcd_dvd2 is_prime_def)

lemma is_prime_dvd_mult: "is_prime p \<Longrightarrow> p dvd a * b \<longleftrightarrow> p dvd a \<or> p dvd b"
  using coprime_dvd_mult_right_iff [OF is_prime_coprime, of p a b] by auto

lemma prime_factor: "1 < n \<Longrightarrow> \<exists>p. is_prime p \<and> p dvd n"
proof (induction n rule: less_induct)
  case (less n)
  show ?case
  proof (cases "is_prime n")
    case False
    with less.prems obtain m where m: "m dvd n" "m \<noteq> 1" "m \<noteq> n" by (auto simp: is_prime_def)
    with less.prems have "m \<le> n" "0 < m" by (auto intro: dvd_imp_le dvd_pos_nat)
    with m have "m < n" "1 < m" by simp_all
    with less.IH obtain p where "is_prime p" "p dvd m" by blast
    with m(1) show ?thesis by (blast intro: dvd_trans)
  qed auto
qed

text \<open>Trial division.\<close>

lemma is_prime_trial:
  assumes "1 < n" "n < k * k" "list_all (\<lambda>m. n mod m \<noteq> 0) [2..<k]"
  shows "is_prime n"
proof (rule ccontr)
  assume "\<not> is_prime n"
  with assms(1) obtain m where m: "m dvd n" "m \<noteq> 1" "m \<noteq> n" by (auto simp: is_prime_def)
  then obtain l where l: "n = m * l" by blast
  have no: "\<not> x dvd n" if "1 < x" "x < k" for x
    using assms(3) that by (auto simp: list_all_iff mod_eq_0_iff_dvd)
  from m l assms(1) have "1 < m" "1 < l" by (auto simp: nat_neq_iff)
  with no [of m] no [of l] l have "\<not> m < k" "\<not> l < k" by auto
  then have "k \<le> m" "k \<le> l" by (simp_all only: not_less)
  then have "k * k \<le> n" unfolding l by (rule mult_le_mono)
  with assms(2) show False by simp
qed

section \<open>Fermat's little theorem\<close>

lemma mult_mod_cancel:
  fixes a :: nat
  assumes "coprime p a" "(a * x) mod p = (a * y) mod p"
  shows "x mod p = y mod p"
proof -
  have "int p dvd int a * (int x - int y)"
    using assms(2) by (metis mod_eq_dvd_iff of_nat_mult right_diff_distrib zmod_int)
  then have "int p dvd int x - int y" using assms(1) by (simp add: coprime_dvd_mult_right_iff)
  then have "int (x mod p) = int (y mod p)" by (simp only: mod_eq_dvd_iff [symmetric] zmod_int)
  then show ?thesis by (simp only: of_nat_eq_iff)
qed

lemma fermat:
  assumes "is_prime p" "\<not> p dvd a"
  shows "a ^ (p - 1) mod p = 1"
proof -
  let ?S = "{1..<p}"
  have cop: "coprime p a" using assms by (rule is_prime_coprime)
  have inj: "inj_on (\<lambda>x. a * x mod p) ?S"
    by (intro inj_onI) (use mult_mod_cancel [OF cop] in \<open>metis atLeastLessThan_iff mod_less\<close>)
  have "(\<lambda>x. a * x mod p) ` ?S \<subseteq> ?S"
  proof
    fix y assume "y \<in> (\<lambda>x. a * x mod p) ` ?S"
    then obtain x where "x \<in> ?S" and y: "y = a * x mod p" by blast
    then have x: "0 < x" "x < p" by auto
    then have "\<not> p dvd a * x" using assms by (auto simp: is_prime_dvd_mult dest: dvd_imp_le)
    with x y show "y \<in> ?S" by (auto simp: mod_eq_0_iff_dvd Suc_le_eq intro!: gr0I)
  qed
  then have img: "(\<lambda>x. a * x mod p) ` ?S = ?S" by (intro endo_inj_surj inj) simp_all
  have "(\<Prod>x\<in>?S. a * x mod p) = \<Prod>?S"
    using prod.reindex [OF inj, of id] img by simp
  then have "(\<Prod>x\<in>?S. a * x) mod p = \<Prod>?S mod p"
    using mod_prod_eq [of "\<lambda>x. a * x" p ?S] by simp
  then have "(\<Prod>?S * a ^ (p - 1)) mod p = (\<Prod>?S * 1) mod p"
    by (simp add: prod.distrib mult.commute [of _ "a ^ _"])
  moreover have "coprime p (\<Prod>?S)"
    by (rule prod_coprime_right, rule is_prime_coprime [OF assms(1)]) (simp add: nat_dvd_not_less)
  ultimately have "a ^ (p - 1) mod p = 1 mod p" by (rule mult_mod_cancel [rotated])
  then show ?thesis using is_prime_gt [OF assms(1)] by simp
qed

section \<open>The criterion of Pocklington\<close>

text \<open>A prime factor \<open>q\<close> of \<open>n - 1 = c q\<close> divides \<open>m - 1\<close> for every prime divisor \<open>m\<close> of \<open>n\<close>.\<close>

lemma pocklington:
  assumes q: "is_prime q" and one: "a ^ (c * q) mod m = 1" and not1: "a ^ c mod m \<noteq> 1" and m: "is_prime m"
  shows "q dvd m - 1"
proof (rule ccontr)
  assume "\<not> q dvd m - 1"
  then have "coprime q (m - 1)" using q by (intro is_prime_coprime)
  moreover have "q \<noteq> 0" using is_prime_gt [OF q] by simp
  ultimately obtain x y where xy: "q * x = (m - 1) * y + 1"
    using bezout_nat [of q "m - 1"] by auto
  have nd: "\<not> m dvd a"
  proof
    assume "m dvd a"
    then have "m dvd a ^ (c * q) \<or> c * q = 0" by (metis dvd_power_same dvd_trans le_simps(3) le_zero_eq linorder_not_less dvd_power)
    with one not1 is_prime_gt [OF m] \<open>q \<noteq> 0\<close> show False by auto
  qed
  let ?b = "a ^ c"
  have b: "?b ^ q mod m = 1" "?b ^ (m - 1) mod m = 1"
    using one fermat [OF m nd] power_mod [of "a ^ (m - 1)" m c] is_prime_gt [OF m]
    by (simp_all add: power_mult [symmetric] mult.commute)
  have "?b ^ (q * x) mod m = 1"
    using power_mod [of "?b ^ q" m x] b(1) is_prime_gt [OF m] by (simp add: power_mult)
  moreover have "?b ^ ((m - 1) * y + 1) mod m = ?b mod m"
    using power_mod [of "?b ^ (m - 1)" m y] b(2) mod_mult_right_eq [of ?b "(?b ^ (m - 1)) ^ y" m]
      is_prime_gt [OF m] by (simp add: power_mult)
  ultimately show False using not1 xy by simp
qed

text \<open>
  If every divisor of \<open>n\<close> is 1 modulo \<open>F\<close> and \<open>n - 1 = (u F + v) F\<close> with \<open>u + 1 < v < F\<close>, then \<open>n\<close> does not split:
  \<open>(x F + 1) (y F + 1)\<close> would make \<open>v = x + y\<close> with \<open>x y \<le> u\<close>.
\<close>

lemma no_split:
  fixes F :: nat
  assumes n: "(x * F + 1) * (y * F + 1) = (u * F + v) * F + 1" and uv: "u + 1 < v" "v < F"
  shows "x = 0 \<or> y = 0"
proof (rule ccontr)
  assume "\<not> (x = 0 \<or> y = 0)"
  then have pos: "0 < x" "0 < y" by simp_all
  have F: "0 < F" using uv by simp
  have "(x * y * F + (x + y)) * F = (u * F + v) * F" using n by (simp add: algebra_simps)
  then have eq: "x * y * F + (x + y) = u * F + v" using F by simp
  then have "x * y * F < (u + 1) * F" using uv(2) by simp
  then have "x * y < u + 1" unfolding mult_less_cancel2 by blast
  moreover have "x + y \<le> x * y + 1"
    using pos by (cases x; cases y) simp_all
  ultimately have "x + y < v" using uv(1) by linarith
  moreover have "(x + y) mod F = v mod F" using arg_cong [OF eq, of "\<lambda>z. z mod F"] by simp
  ultimately show False using uv(2) by simp
qed

text \<open>All divisors of \<open>n\<close> are 1 modulo \<open>q\<close>, and modulo \<open>2 q\<close> when \<open>n\<close> is odd.\<close>

lemma one_mod: "1 < q \<Longrightarrow> 0 < m \<Longrightarrow> q dvd m - 1 \<longleftrightarrow> m mod q = (1 :: nat)"
  using mod_eq_dvd_iff_nat [of 1 m q] by auto

lemma divisors_mod:
  fixes q :: nat
  assumes q: "1 < q" "odd q" and n: "odd n"
    and prime: "\<And>m. is_prime m \<Longrightarrow> m dvd n \<Longrightarrow> q dvd m - 1" and m: "m dvd n"
  shows "\<exists>x. m = x * (2 * q) + 1"
proof -
  have "m mod q = 1" using m
  proof (induction m rule: less_induct)
    case (less m)
    have pos: "0 < m" using less.prems n by (auto intro: gr0I)
    show ?case
    proof (cases "m = 1")
      case False
      with pos obtain p where p: "is_prime p" "p dvd m" using prime_factor [of m] by auto
      then obtain l where l: "m = p * l" by blast
      have "1 < p" by (rule is_prime_gt [OF p(1)])
      have "l < m" "l dvd n" using l pos \<open>1 < p\<close> less.prems by (auto simp: dvd_mult_right)
      then have "l mod q = 1" by (rule less.IH)
      moreover have "q dvd p - 1" using prime p less.prems dvd_trans by blast
      then have "p mod q = 1" using \<open>1 < p\<close> one_mod [OF q(1), of p] by simp
      ultimately show ?thesis using q(1) by (simp add: l mod_mult_eq [symmetric])
    qed (use q in simp)
  qed
  moreover have "0 < m" "odd m" using m n dvd_trans by (auto intro: gr0I)
  ultimately have "q dvd m - 1" using one_mod [OF q(1)] by simp
  then have "2 * q dvd m - 1" using q(2) \<open>odd m\<close> by (intro divides_mult) simp_all
  then obtain x where "m - 1 = 2 * q * x" by blast
  then have "m = x * (2 * q) + 1" using \<open>odd m\<close> by (cases m) simp_all
  then show ?thesis by blast
qed

lemma is_prime_pocklington:
  assumes q: "is_prime q" "odd q" and n: "n = (u * (2 * q) + v) * (2 * q) + 1" and uv: "u + 1 < v" "v < 2 * q"
    and one: "a ^ (c * q) mod n = 1" and not1: "\<And>m. is_prime m \<Longrightarrow> m dvd n \<Longrightarrow> a ^ c mod m \<noteq> 1"
  shows "is_prime n"
proof -
  have "1 < q" by (rule is_prime_gt [OF q(1)])
  have "odd n" by (simp add: n)
  have "1 < n" using uv \<open>1 < q\<close> by (simp add: n)
  have prime: "q dvd m - 1" if m: "is_prime m" "m dvd n" for m
  proof (rule pocklington [OF q(1) _ not1 [OF m] m(1)])
    show "a ^ (c * q) mod m = 1"
      using one mod_mod_cancel [OF m(2), of "a ^ (c * q)"] is_prime_gt [OF m(1)] by simp
  qed
  have div: "\<exists>x. m = x * (2 * q) + 1" if "m dvd n" for m
    using \<open>1 < q\<close> q(2) \<open>odd n\<close> prime that by (rule divisors_mod)
  have "m = 1 \<or> m = n" if m: "m dvd n" for m
  proof -
    from m obtain l where l: "n = m * l" by blast
    then obtain x y where xy: "m = x * (2 * q) + 1" "l = y * (2 * q) + 1"
      using div [OF m] div [of l] by auto
    from no_split [OF _ uv, of x y] l xy n have "x = 0 \<or> y = 0" by simp
    with l xy show ?thesis by auto
  qed
  with \<open>1 < n\<close> show ?thesis by (simp add: is_prime_def)
qed

section \<open>Powers of 2 on binary numerals\<close>

text \<open>
  Addition with and without a carry in, squaring, and Montgomery's reduction: \<open>redc c h a x\<close> consumes the
  low bits of \<open>x\<close>, one for each factor 2 of \<open>c\<close>, and halves the accumulator \<open>a\<close> modulo \<open>n = 2 h - 1\<close>.
\<close>

fun add0 :: "num \<Rightarrow> num \<Rightarrow> num" and add1 :: "num \<Rightarrow> num \<Rightarrow> num" where
  "add0 num.One n = Num.inc n"
| "add0 (num.Bit0 m) num.One = num.Bit1 m"
| "add0 (num.Bit0 m) (num.Bit0 n) = num.Bit0 (add0 m n)"
| "add0 (num.Bit0 m) (num.Bit1 n) = num.Bit1 (add0 m n)"
| "add0 (num.Bit1 m) num.One = num.Bit0 (Num.inc m)"
| "add0 (num.Bit1 m) (num.Bit0 n) = num.Bit1 (add0 m n)"
| "add0 (num.Bit1 m) (num.Bit1 n) = num.Bit0 (add1 m n)"
| "add1 num.One num.One = num.Bit1 num.One"
| "add1 num.One (num.Bit0 n) = num.Bit0 (Num.inc n)"
| "add1 num.One (num.Bit1 n) = num.Bit1 (Num.inc n)"
| "add1 (num.Bit0 m) num.One = num.Bit0 (Num.inc m)"
| "add1 (num.Bit0 m) (num.Bit0 n) = num.Bit1 (add0 m n)"
| "add1 (num.Bit0 m) (num.Bit1 n) = num.Bit0 (add1 m n)"
| "add1 (num.Bit1 m) num.One = num.Bit1 (Num.inc m)"
| "add1 (num.Bit1 m) (num.Bit0 n) = num.Bit0 (add1 m n)"
| "add1 (num.Bit1 m) (num.Bit1 n) = num.Bit1 (add1 m n)"

fun sq :: "num \<Rightarrow> num" where
  "sq num.One = num.One"
| "sq (num.Bit0 n) = num.Bit0 (num.Bit0 (sq n))"
| "sq (num.Bit1 n) = num.Bit1 (num.Bit0 (add0 (sq n) n))"

fun halve :: "num \<Rightarrow> num \<Rightarrow> num" where
  "halve h num.One = h"
| "halve h (num.Bit0 a) = a"
| "halve h (num.Bit1 a) = add0 a h"

fun halve_inc :: "num \<Rightarrow> num \<Rightarrow> num" where
  "halve_inc h num.One = num.One"
| "halve_inc h (num.Bit0 a) = add0 a h"
| "halve_inc h (num.Bit1 a) = Num.inc a"

fun redz :: "num \<Rightarrow> num \<Rightarrow> num \<Rightarrow> num" where
  "redz (num.Bit0 c) h a = redz c h (halve h a)"
| "redz c h a = a"

fun redc :: "num \<Rightarrow> num \<Rightarrow> num \<Rightarrow> num \<Rightarrow> num" where
  "redc num.One h a x = add0 x a"
| "redc (num.Bit0 c) h a num.One = redz c h (halve_inc h a)"
| "redc (num.Bit0 c) h a (num.Bit0 x) = redc c h (halve h a) x"
| "redc (num.Bit0 c) h a (num.Bit1 x) = redc c h (halve_inc h a) x"
| "redc (num.Bit1 c) h a x = x"

fun two_pow :: "num \<Rightarrow> bool" where
  "two_pow num.One \<longleftrightarrow> True"
| "two_pow (num.Bit0 c) \<longleftrightarrow> two_pow c"
| "two_pow (num.Bit1 c) \<longleftrightarrow> False"

text \<open>Squaring and doubling along the bits of the exponent below the leading one, from \<open>s\<close>.\<close>

fun powc :: "num \<Rightarrow> num \<Rightarrow> num \<Rightarrow> num \<Rightarrow> num \<Rightarrow> num" where
  "powc c n h s num.One = s"
| "powc c n h s (num.Bit0 e) = redc c h n (sq (powc c n h s e))"
| "powc c n h s (num.Bit1 e) = num.Bit0 (redc c h n (sq (powc c n h s e)))"

definition val :: "num \<Rightarrow> nat" where
  "val m = numeral m"

lemma val_simps [simp]:
  "val num.One = 1" "val (num.Bit0 m) = 2 * val m" "val (num.Bit1 m) = 2 * val m + 1"
  "val (Num.inc m) = val m + 1" "val (m + n) = val m + val n" "val (m * n) = val m * val n"
  unfolding val_def by (simp_all only: numeral_inc numeral_add numeral_mult numeral_Bit0 [of m] numeral_Bit1 [of m]
      numeral_One mult_2)

lemma val_add [simp]: "val (add0 m n) = val m + val n" "val (add1 m n) = val m + val n + 1"
  by (induction m n and m n rule: add0_add1.induct) simp_all

lemma val_sq [simp]: "val (sq m) = val m * val m"
  by (induction m) (simp_all add: algebra_simps)

lemma val_halve:
  assumes "2 * val h = n + 1"
  shows "2 * val (halve h a) mod n = val a mod n" "2 * val (halve_inc h a) mod n = (val a + 1) mod n"
proof -
  have "2 * val a + 2 * val h = 2 * val a + 1 + n" for a using assms by simp
  then have "(2 * val a + 2 * val h) mod n = (2 * val a + 1) mod n" for a by (metis mod_add_self2)
  moreover have "2 * val h mod n = 1 mod n" using assms by (metis add.commute mod_add_self1)
  ultimately show "2 * val (halve h a) mod n = val a mod n" "2 * val (halve_inc h a) mod n = (val a + 1) mod n"
    by (cases a; simp add: algebra_simps)+
qed

text \<open>Reduction divides by \<open>c\<close> modulo \<open>n\<close>.\<close>

lemma twice_mod: "(x * c) mod n = y mod n \<Longrightarrow> (x * (2 * c)) mod n = (2 * y) mod (n :: nat)"
  by (metis mod_mult_right_eq mult.left_commute)

lemma val_redz:
  assumes "2 * val h = n + 1" "two_pow c"
  shows "(val (redz c h a) * val c) mod n = val a mod n"
  using assms(2)
proof (induction c arbitrary: a)
  case (Bit0 c)
  then have "(val (redz c h (halve h a)) * (2 * val c)) mod n = (2 * val (halve h a)) mod n"
    by (intro twice_mod) simp
  then show ?case using val_halve(1) [OF assms(1)] by simp
qed simp_all

lemma val_redc:
  assumes "2 * val h = n + 1" "two_pow c"
  shows "(val (redc c h a x) * val c) mod n = (val a + val x) mod n"
  using assms(2)
proof (induction c arbitrary: a x)
  case (Bit0 c)
  note half = val_halve [OF assms(1), of a]
  note redz = val_redz [OF assms(1), of c]
  show ?case
  proof (cases x)
    case One
    have "(val (redz c h (halve_inc h a)) * (2 * val c)) mod n = (2 * val (halve_inc h a)) mod n"
      using Bit0.prems by (intro twice_mod redz) simp
    then show ?thesis using One half by simp
  next
    case x: (Bit0 x')
    have "(val (redc c h (halve h a) x') * (2 * val c)) mod n = (2 * val (halve h a) + 2 * val x') mod n"
      using twice_mod [OF Bit0.IH, of "halve h a" x'] Bit0.prems by (simp add: distrib_left)
    also have "\<dots> = (val a + 2 * val x') mod n" using half(1) by (rule mod_add_cong) simp
    finally show ?thesis by (simp add: x)
  next
    case x: (Bit1 x')
    have "(val (redc c h (halve_inc h a) x') * (2 * val c)) mod n = (2 * val (halve_inc h a) + 2 * val x') mod n"
      using twice_mod [OF Bit0.IH, of "halve_inc h a" x'] Bit0.prems by (simp add: distrib_left)
    also have "\<dots> = (val a + 1 + 2 * val x') mod n" using half(2) by (rule mod_add_cong) simp
    finally show ?thesis by (simp add: x)
  qed
qed (simp_all add: add.commute)

text \<open>The exponent that appending the bits of \<open>e\<close> below its leading one makes of \<open>k\<close>.\<close>

fun shift_in :: "nat \<Rightarrow> num \<Rightarrow> nat" where
  "shift_in k num.One = k"
| "shift_in k (num.Bit0 e) = 2 * shift_in k e"
| "shift_in k (num.Bit1 e) = 2 * shift_in k e + 1"

lemma val_powc:
  assumes h: "2 * val h = val n + 1" and c: "two_pow c" and s: "val s mod val n = (2 ^ k * val c) mod val n"
  shows "val (powc c n h s e) mod val n = (2 ^ shift_in k e * val c) mod val n"
proof -
  have "odd (val n)" using h by (metis dvd_triv_left even_plus_one_iff)
  then have cop: "coprime (val n) (val c)" using c
    by (induction c) simp_all
  have step: "val (redc c h n (sq y)) mod val n = (2 ^ (2 * j) * val c) mod val n"
    if y: "val y mod val n = (2 ^ j * val c) mod val n" for y j
  proof (rule mult_mod_cancel [OF cop])
    have "(val (redc c h n (sq y)) * val c) mod val n = (val y * val y) mod val n"
      using val_redc [OF h c, of n "sq y"] by simp
    also have "\<dots> = ((2 ^ j * val c) * (2 ^ j * val c)) mod val n" using y by (intro mod_mult_cong)
    finally show "(val c * val (redc c h n (sq y))) mod val n = (val c * (2 ^ (2 * j) * val c)) mod val n"
      by (simp add: ac_simps power_add mult_2_right)
  qed
  show ?thesis
  proof (induction e)
    case (Bit1 e)
    from step [OF this] have "(2 * val (redc c h n (sq (powc c n h s e)))) mod val n
        = (2 * (2 ^ (2 * shift_in k e) * val c)) mod val n"
      by (rule mod_mult_cong [OF refl])
    then show ?case by (simp add: mult.assoc)
  qed (simp_all add: s step)
qed

text \<open>The same on natural numbers, for moduli and exponents written as numerals.\<close>

definition mont_pow :: "nat \<Rightarrow> nat \<Rightarrow> nat \<Rightarrow> nat \<Rightarrow> nat \<Rightarrow> nat" where
  "mont_pow c n h s e = val (powc (num_of_nat c) (num_of_nat n) (num_of_nat h) (num_of_nat s) (num_of_nat e))"

lemma mont_pow_numeral:
  "mont_pow (numeral c) (numeral n) (numeral h) (numeral s) (numeral e) = numeral (powc c n h s e)"
  by (simp add: mont_pow_def val_def num_of_nat_numeral_eq)

lemmas mont_eval = mont_pow_numeral powc.simps redc.simps redz.simps halve.simps halve_inc.simps
  sq.simps add0.simps add1.simps Num.inc.simps

definition residue :: "nat \<Rightarrow> nat \<Rightarrow> nat \<Rightarrow> nat \<Rightarrow> bool" where
  "residue c n k r \<longleftrightarrow> r mod n = (2 ^ k * c) mod n"

lemma val_num_of_nat: "0 < k \<Longrightarrow> val (num_of_nat k) = k"
  by (simp add: val_def numeral_num_of_nat)

lemma two_pow_val: "val c = 2 ^ b \<Longrightarrow> two_pow c"
proof (induction c arbitrary: b)
  case (Bit0 c)
  then show ?case by (cases b) simp_all
next
  case (Bit1 c)
  then have "odd (2 ^ b :: nat)" by (metis even_plus_one_iff dvd_triv_left val_simps(3))
  then have "b = 0" by simp
  with Bit1.prems have "val c = 0" by simp
  then show ?case by (simp add: val_def)
qed simp

lemma shift_in_val: "val e = 2 ^ j + l \<Longrightarrow> l < 2 ^ j \<Longrightarrow> shift_in k e = k * 2 ^ j + l"
proof (induction e arbitrary: j l)
  case One
  then have "(2 :: nat) ^ j \<le> 1" by simp
  then have "(2 :: nat) ^ j = 1" using one_le_power [of "2 :: nat" j] by linarith
  then have "j = 0" by simp
  with One show ?case by simp
next
  case (Bit0 e)
  obtain i where j: "j = Suc i" using Bit0.prems by (cases j) (auto simp: val_def)
  with Bit0.prems(1) have "even l" by (metis dvd_add_right_iff dvd_triv_left power_Suc val_simps(2))
  with Bit0.prems j have "val e = 2 ^ i + l div 2" "l div 2 < 2 ^ i" by auto
  from Bit0.IH [OF this] \<open>even l\<close> show ?case by (simp add: j)
next
  case (Bit1 e)
  obtain i where j: "j = Suc i" using Bit1.prems by (cases j) (auto simp: val_def)
  with Bit1.prems(1) have "odd l" by (metis dvd_add_right_iff dvd_triv_left power_Suc val_simps(3) even_plus_one_iff)
  with Bit1.prems j have "val e = 2 ^ i + l div 2" "l div 2 < 2 ^ i" by (auto elim!: oddE)
  from Bit1.IH [OF this] \<open>odd l\<close> show ?case by (auto simp: j elim!: oddE)
qed

text \<open>One run continues a known power of 2 by the bits of its exponent.\<close>

lemma residue_next:
  assumes "residue c n k s" "2 * h = n + 1" "c = 2 ^ b" "0 < n" "0 < s" "mont_pow c n h s e = r"
    and e: "e = 2 ^ j + l" "l < 2 ^ j" and k: "k' = k * 2 ^ j + l"
  shows "residue c n k' r"
proof -
  have v: "val (num_of_nat c) = c" "val (num_of_nat n) = n" "val (num_of_nat h) = h" "val (num_of_nat s) = s"
      "val (num_of_nat e) = 2 ^ j + l"
    using assms by (auto intro!: val_num_of_nat)
  have "two_pow (num_of_nat c)" using v(1) assms(3) by (intro two_pow_val [of _ b]) simp
  then show ?thesis
    using val_powc [of "num_of_nat h" "num_of_nat n" "num_of_nat c" "num_of_nat s" k "num_of_nat e"]
      assms(1,2,6) shift_in_val [OF v(5) e(2), of k] v k
    by (simp add: residue_def mont_pow_def)
qed

lemma residue_start: "s + j * n = 2 * c \<Longrightarrow> residue c n 1 s"
  by (metis mod_mult_self1 power_one_right residue_def)

text \<open>
  The certificate of a prime \<open>n\<close>: a known prime factor \<open>q\<close> of \<open>n - 1 = k q\<close>, the powers \<open>2\<^bsup>k q\<^esup>\<close> and \<open>2\<^bsup>k\<^esup>\<close> (both times
  \<open>c\<close>), and an inverse \<open>t\<close> of \<open>(2\<^bsup>k\<^esup> - 1) c\<close>.
\<close>

lemma prime_certificate:
  assumes q: "is_prime q" "odd q" and n: "n = (u * (2 * q) + v) * (2 * q) + 1" and uv: "u + 1 < v" "v < 2 * q"
    and c: "c = 2 ^ b"
    and one: "residue c n (k * q) r1" "r1 + j * n = c" and not1: "residue c n k r2" "t * r2 + i * n = t * c + 1"
  shows "is_prime n"
proof (rule is_prime_pocklington [OF q n uv])
  have "odd n" "1 < n" using n uv is_prime_gt [OF q(1)] by simp_all
  then have "coprime n c" by (simp add: c)
  moreover have "(c * 2 ^ (k * q)) mod n = (c * 1) mod n"
    using one(1) arg_cong [OF one(2), of "\<lambda>z. z mod n"] by (simp add: residue_def mult.commute)
  ultimately have "2 ^ (k * q) mod n = 1 mod n" by (rule mult_mod_cancel)
  then show "2 ^ (k * q) mod n = 1" using \<open>1 < n\<close> by simp
  show "2 ^ k mod m \<noteq> 1" if m: "is_prime m" "m dvd n" for m
  proof
    assume "2 ^ k mod m = 1"
    then have "(2 ^ k * c) mod m = c mod m" by (metis mod_mult_left_eq mult_1)
    moreover have "r2 mod m = (2 ^ k * c) mod m"
      using not1(1) m(2) by (metis mod_mod_cancel residue_def)
    ultimately have "(t * r2) mod m = (t * c) mod m" by (metis mod_mult_right_eq)
    moreover have "(t * r2 + i * n) mod m = (t * r2) mod m" using m(2) by (simp add: mod_add_right_eq [symmetric])
    ultimately have "(t * c + 1) mod m = (t * c) mod m" by (simp only: not1(2))
    then have "m dvd 1" by (metis add_diff_cancel_left' le_add1 mod_eq_dvd_iff_nat)
    then show False using is_prime_gt [OF m(1)] by simp
  qed
qed

end
