(* ===== verification/Prime_25519.thy ===== *)
theory Prime_25519
  imports Primality
begin

text \<open>
  That \<open>2\<^sup>2\<^sup>5\<^sup>5 - 19\<close> is prime, by a chain of five certificates that starts with 991.  For the modulus \<open>n\<close> of each
  link, \<open>h = (n + 1) / 2\<close>, \<open>c\<close> is a power of 2 above it, the lemmas \<open>run\<close> are the evaluations of \<open>mont_pow\<close>
  over at most 30 bits of the exponent each, and \<open>pow\<close> composes them to the two powers of 2.
\<close>

section \<open>The first factor\<close>

lemma is_prime_991: "is_prime 991"
  by (rule is_prime_trial [of _ 32]) (simp_all add: upt_rec)

section \<open>The factor of 24 bits\<close>

definition n24 :: nat where "n24 = 8574133"
definition h24 :: nat where "h24 = 4287067"
definition c24 :: nat where "c24 = 268435456"

lemmas d24 = n24_def h24_def c24_def

lemma m24: "2 * h24 = n24 + 1" "c24 = 2 ^ 28" "0 < n24"
  by (simp_all add: d24)

lemma start24: "residue c24 n24 1 5274666"
  by (rule residue_start [of _ 62]) (simp add: d24)

lemma run24a_1: "mont_pow c24 n24 h24 5274666 8574132 = 2637333"
  by (simp only: d24 mont_eval)

lemma pow24a: "residue c24 n24 8574132 2637333"
  by (rule residue_next [OF start24 m24 _ run24a_1, of 23 185524]) simp_all

lemma run24b_1: "mont_pow c24 n24 h24 5274666 8652 = 568091"
  by (simp only: d24 mont_eval)

lemma pow24b: "residue c24 n24 8652 568091"
  by (rule residue_next [OF start24 m24 _ run24b_1, of 13 460]) simp_all

lemma is_prime_24: "is_prime 8574133"
proof -
  have one: "residue c24 n24 (8652 * 991) 2637333" using pow24a by simp
  show ?thesis
    by (rule prime_certificate [OF is_prime_991 _ _ _ _ m24(2) one _ pow24b, folded n24_def, where u = 2 and v = 362
        and j = 31 and t = 4212034 and i = 131589567, unfolded n24_def])
      (simp_all add: d24)
qed

section \<open>The factor of 51 bits\<close>

definition n51 :: nat where "n51 = 1919519569386763"
definition h51 :: nat where "h51 = 959759784693382"
definition c51 :: nat where "c51 = 36028797018963968"

lemmas d51 = n51_def h51_def c51_def

lemma m51: "2 * h51 = n51 + 1" "c51 = 2 ^ 55" "0 < n51"
  by (simp_all add: d51)

lemma start51: "residue c51 n51 1 1035369970617705"
  by (rule residue_start [of _ 37]) (simp add: d51)

lemma run51a_1: "mont_pow c51 n51 h51 1035369970617705 1830596513 = 2457528894855872"
  by (simp only: d51 mont_eval)

lemma run51a_2: "mont_pow c51 n51 h51 2457528894855872 1219850 = 1477444770002234"
  by (simp only: d51 mont_eval)

lemma pow51a: "residue c51 n51 1919519569386762 1477444770002234"
proof -
  have e1: "residue c51 n51 1830596513 2457528894855872"
    by (rule residue_next [OF start51 m51 _ run51a_1, of 30 756854689]) simp_all
  show ?thesis
    by (rule residue_next [OF e1 m51 _ run51a_2, of 20 171274]) simp_all
qed

lemma run51b_1: "mont_pow c51 n51 h51 1035369970617705 223873314 = 199450180931419"
  by (simp only: d51 mont_eval)

lemma pow51b: "residue c51 n51 223873314 199450180931419"
  by (rule residue_next [OF start51 m51 _ run51b_1, of 27 89655586]) simp_all

lemma is_prime_51: "is_prime 1919519569386763"
proof -
  have one: "residue c51 n51 (223873314 * 8574133) 1477444770002234" using pow51a by simp
  show ?thesis
    by (rule prime_certificate [OF is_prime_24 _ _ _ _ m51(2) one _ pow51b, folded n51_def, where u = 6 and v = 9047061
        and j = 18 and t = 682044196206246 and i = 12730892903867485, unfolded n51_def])
      (simp_all add: d51)
qed

section \<open>The factor of 116 bits\<close>

definition n116 :: nat where "n116 = 75445702479781427272750846543864801"
definition h116 :: nat where "h116 = 37722851239890713636375423271932401"
definition c116 :: nat where "c116 = 1329227995784915872903807060280344576"

lemmas d116 = n116_def h116_def c116_def

lemma m116: "2 * h116 = n116 + 1" "c116 = 2 ^ 120" "0 < n116"
  by (simp_all add: d116)

lemma start116: "residue c116 n116 1 17856404777481791261334491525421117"
  by (rule residue_start [of _ 35]) (simp add: d116)

lemma run116a_1: "mont_pow c116 n116 h116 17856404777481791261334491525421117 1950225699 = 143356615611029539485017195648857120"
  by (simp only: d116 mont_eval)

lemma run116a_2: "mont_pow c116 n116 h116 143356615611029539485017195648857120 1869622082 = 36859212727470014402146919912187524"
  by (simp only: d116 mont_eval)

lemma run116a_3: "mont_pow c116 n116 h116 36859212727470014402146919912187524 2090582940 = 53454055877057108983133859122809921"
  by (simp only: d116 mont_eval)

lemma run116a_4: "mont_pow c116 n116 h116 53454055877057108983133859122809921 56304608 = 46651053628631609267042669034642959"
  by (simp only: d116 mont_eval)

lemma pow116a: "residue c116 n116 75445702479781427272750846543864800 46651053628631609267042669034642959"
proof -
  have e1: "residue c116 n116 1950225699 143356615611029539485017195648857120"
    by (rule residue_next [OF start116 m116 _ run116a_1, of 30 876483875]) simp_all
  have e2: "residue c116 n116 2094038900051815234 36859212727470014402146919912187524"
    by (rule residue_next [OF e1 m116 _ run116a_2, of 30 795880258]) simp_all
  have e3: "residue c116 n116 2248457148068589784882987932 53454055877057108983133859122809921"
    by (rule residue_next [OF e2 m116 _ run116a_3, of 30 1016841116]) simp_all
  show ?thesis
    by (rule residue_next [OF e3 m116 _ run116a_4, of 25 22750176]) simp_all
qed

lemma run116b_1: "mont_pow c116 n116 h116 17856404777481791261334491525421117 1143910678 = 38835869817608676152676071003900898"
  by (simp only: d116 mont_eval)

lemma run116b_2: "mont_pow c116 n116 h116 38835869817608676152676071003900898 1973926077 = 82598162399378443848466395629166748"
  by (simp only: d116 mont_eval)

lemma run116b_3: "mont_pow c116 n116 h116 82598162399378443848466395629166748 32 = 30085478737157596181470051660599193"
  by (simp only: d116 mont_eval)

lemma pow116b: "residue c116 n116 39304471641247389600 30085478737157596181470051660599193"
proof -
  have e1: "residue c116 n116 1143910678 38835869817608676152676071003900898"
    by (rule residue_next [OF start116 m116 _ run116b_1, of 30 70168854]) simp_all
  have e2: "residue c116 n116 1228264738788980925 82598162399378443848466395629166748"
    by (rule residue_next [OF e1 m116 _ run116b_2, of 30 900184253]) simp_all
  show ?thesis
    by (rule residue_next [OF e2 m116 _ run116b_3, of 5 0]) simp_all
qed

lemma is_prime_116: "is_prime 75445702479781427272750846543864801"
proof -
  have one: "residue c116 n116 (39304471641247389600 * 1919519569386763) 46651053628631609267042669034642959" using pow116a by simp
  show ?thesis
    by (rule prime_certificate [OF is_prime_51 _ _ _ _ m116(2) one _ pow116b, folded n116_def, where u = 5119 and v = 194469242015206
        and j = 17 and t = 11840421901026613220628434282675741 and i = 203886967790238560181693490129314604, unfolded n116_def])
      (simp_all add: d116)
qed

section \<open>The factor of 236 bits\<close>

definition n236 :: nat where "n236 = 74058212732561358302231226437062788676166966415465897661863160754340907"
definition h236 :: nat where "h236 = 37029106366280679151115613218531394338083483207732948830931580377170454"
definition c236 :: nat where "c236 = 1766847064778384329583297500742918515827483896875618958121606201292619776"

lemmas d236 = n236_def h236_def c236_def

lemma m236: "2 * h236 = n236 + 1" "c236 = 2 ^ 240" "0 < n236"
  by (simp_all add: d236)

lemma start236: "residue c236 n236 1 52958131126384818961727358943885963875120372224340726135643847131216923"
  by (rule residue_start [of _ 47]) (simp add: d236)

lemma run236a_1: "mont_pow c236 n236 h236 52958131126384818961727358943885963875120372224340726135643847131216923 1440204341 = 59549054127352731596711116276282228356189696103760281164190622915750722"
  by (simp only: d236 mont_eval)

lemma run236a_2: "mont_pow c236 n236 h236 59549054127352731596711116276282228356189696103760281164190622915750722 1630140958 = 16566325714018822398873883042522806929646597070736763984989074895127773"
  by (simp only: d236 mont_eval)

lemma run236a_3: "mont_pow c236 n236 h236 16566325714018822398873883042522806929646597070736763984989074895127773 1499555413 = 4593503412412443253852661815976146331176353522389923977426408979088156"
  by (simp only: d236 mont_eval)

lemma run236a_4: "mont_pow c236 n236 h236 4593503412412443253852661815976146331176353522389923977426408979088156 1970325943 = 104964292005756463888929525092250493782998078027089276490420509435948864"
  by (simp only: d236 mont_eval)

lemma run236a_5: "mont_pow c236 n236 h236 104964292005756463888929525092250493782998078027089276490420509435948864 1986840738 = 75017295444252483207419335925361568428400959855113000773840186513497299"
  by (simp only: d236 mont_eval)

lemma run236a_6: "mont_pow c236 n236 h236 75017295444252483207419335925361568428400959855113000773840186513497299 1291027291 = 144323456785195690760477929129796418625622483824752084214548227581136398"
  by (simp only: d236 mont_eval)

lemma run236a_7: "mont_pow c236 n236 h236 144323456785195690760477929129796418625622483824752084214548227581136398 2080523463 = 18342035271949732292666477878272303822928616752296201566021796758411918"
  by (simp only: d236 mont_eval)

lemma run236a_8: "mont_pow c236 n236 h236 18342035271949732292666477878272303822928616752296201566021796758411918 61998122 = 63508171929473088631979292690474376275643669319903311898753503942778915"
  by (simp only: d236 mont_eval)

lemma pow236a: "residue c236 n236 74058212732561358302231226437062788676166966415465897661863160754340906 63508171929473088631979292690474376275643669319903311898753503942778915"
proof -
  have e1: "residue c236 n236 1440204341 59549054127352731596711116276282228356189696103760281164190622915750722"
    by (rule residue_next [OF start236 m236 _ run236a_1, of 30 366462517]) simp_all
  have e2: "residue c236 n236 1546407636594457118 16566325714018822398873883042522806929646597070736763984989074895127773"
    by (rule residue_next [OF e1 m236 _ run236a_2, of 30 556399134]) simp_all
  have e3: "residue c236 n236 1660442556364461534596916821 4593503412412443253852661815976146331176353522389923977426408979088156"
    by (rule residue_next [OF e2 m236 _ run236a_3, of 30 425813589]) simp_all
  have e4: "residue c236 n236 1782886619117999736935932573053405623 104964292005756463888929525092250493782998078027089276490420509435948864"
    by (rule residue_next [OF e3 m236 _ run236a_4, of 30 896584119]) simp_all
  have e5: "residue c236 n236 1914359930396954308769108412131377003964975266 75017295444252483207419335925361568428400959855113000773840186513497299"
    by (rule residue_next [OF e4 m236 _ run236a_5, of 30 913098914]) simp_all
  have e6: "residue c236 n236 2055528323456938763542401661295688471869007774447010651 144323456785195690760477929129796418625622483824752084214548227581136398"
    by (rule residue_next [OF e5 m236 _ run236a_6, of 30 217285467]) simp_all
  have e7: "residue c236 n236 2207106731312315413422323061140262743120401096804913808758949063 18342035271949732292666477878272303822928616752296201566021796758411918"
    by (rule residue_next [OF e6 m236 _ run236a_7, of 30 1006781639]) simp_all
  show ?thesis
    by (rule residue_next [OF e7 m236 _ run236a_8, of 25 28443690]) simp_all
qed

lemma run236b_1: "mont_pow c236 n236 h236 52958131126384818961727358943885963875120372224340726135643847131216923 1585875559 = 109084371724262205498321988419260945633981890381658741654158771771426786"
  by (simp only: d236 mont_eval)

lemma run236b_2: "mont_pow c236 n236 h236 109084371724262205498321988419260945633981890381658741654158771771426786 1864165955 = 32615383332281316111758178309727144127214148871112813614008610878128716"
  by (simp only: d236 mont_eval)

lemma run236b_3: "mont_pow c236 n236 h236 32615383332281316111758178309727144127214148871112813614008610878128716 1368689735 = 47169461751148132006891900080565959538797118215172677515470345271372330"
  by (simp only: d236 mont_eval)

lemma run236b_4: "mont_pow c236 n236 h236 47169461751148132006891900080565959538797118215172677515470345271372330 704268650 = 33672363942099608920645611002867301367088509697586679306103717614634145"
  by (simp only: d236 mont_eval)

lemma pow236b: "residue c236 n236 981609426360740691344999861639072106 33672363942099608920645611002867301367088509697586679306103717614634145"
proof -
  have e1: "residue c236 n236 1585875559 109084371724262205498321988419260945633981890381658741654158771771426786"
    by (rule residue_next [OF start236 m236 _ run236b_1, of 30 512133735]) simp_all
  have e2: "residue c236 n236 1702820916148103747 32615383332281316111758178309727144127214148871112813614008610878128716"
    by (rule residue_next [OF e1 m236 _ run236b_2, of 30 790424131]) simp_all
  have e3: "residue c236 n236 1828390036450215971739962439 47169461751148132006891900080565959538797118215172677515470345271372330"
    by (rule residue_next [OF e2 m236 _ run236b_3, of 30 294947911]) simp_all
  show ?thesis
    by (rule residue_next [OF e3 m236 _ run236b_4, of 29 167397738]) simp_all
qed

lemma is_prime_236: "is_prime 74058212732561358302231226437062788676166966415465897661863160754340907"
proof -
  have one: "residue c236 n236 (981609426360740691344999861639072106 * 75445702479781427272750846543864801) 63508171929473088631979292690474376275643669319903311898753503942778915" using pow236a by simp
  show ?thesis
    by (rule prime_certificate [OF is_prime_116 _ _ _ _ m236(2) one _ pow236b, folded n236_def, where u = 3 and v = 38130498301681782035994851556347247
        and j = 23 and t = 64422310976216706587583217645904526929226085094458755020830456107344462 and i = 1507666947845404973227025468196860762407358313831688437127553865707046489, unfolded n236_def])
      (simp_all add: d236)
qed

section \<open>The factor of 255 bits\<close>

definition n255 :: nat where "n255 = 57896044618658097711785492504343953926634992332820282019728792003956564819949"
definition h255 :: nat where "h255 = 28948022309329048855892746252171976963317496166410141009864396001978282409975"
definition c255 :: nat where "c255 = 926336713898529563388567880069503262826159877325124512315660672063305037119488"

lemmas d255 = n255_def h255_def c255_def

lemma m255: "2 * h255 = n255 + 1" "c255 = 2 ^ 259" "0 < n255"
  by (simp_all add: d255)

lemma start255: "residue c255 n255 1 608"
  by (rule residue_start [of _ 32]) (simp add: d255)

lemma run255a_1: "mont_pow c255 n255 h255 608 2147483647 = 34678834459150724935625831047938932483487477618764184424043060292471339100210"
  by (simp only: d255 mont_eval)

lemma run255a_2: "mont_pow c255 n255 h255 34678834459150724935625831047938932483487477618764184424043060292471339100210 2147483647 = 37863623655222311231913458652606988730356981917554295442988713415553417387788"
  by (simp only: d255 mont_eval)

lemma run255a_3: "mont_pow c255 n255 h255 37863623655222311231913458652606988730356981917554295442988713415553417387788 2147483647 = 36580412365285138485044730070498809931312001876514727784831499408762427876760"
  by (simp only: d255 mont_eval)

lemma run255a_4: "mont_pow c255 n255 h255 36580412365285138485044730070498809931312001876514727784831499408762427876760 2147483647 = 71260719627311876540010473618519131786624185143296509166274376556355225138332"
  by (simp only: d255 mont_eval)

lemma run255a_5: "mont_pow c255 n255 h255 71260719627311876540010473618519131786624185143296509166274376556355225138332 2147483647 = 57457071051611422112886540899193606674014629975557037333961738972125686060824"
  by (simp only: d255 mont_eval)

lemma run255a_6: "mont_pow c255 n255 h255 57457071051611422112886540899193606674014629975557037333961738972125686060824 2147483647 = 18210246891087924852172641667323304956983939330039277258337432897094852795924"
  by (simp only: d255 mont_eval)

lemma run255a_7: "mont_pow c255 n255 h255 18210246891087924852172641667323304956983939330039277258337432897094852795924 2147483647 = 99152423313856745273871572880244703237824292686658421461448007289595687303134"
  by (simp only: d255 mont_eval)

lemma run255a_8: "mont_pow c255 n255 h255 99152423313856745273871572880244703237824292686658421461448007289595687303134 2147483647 = 68022758902139869247920817027071553213591688637956684373655096183498065592844"
  by (simp only: d255 mont_eval)

lemma run255a_9: "mont_pow c255 n255 h255 68022758902139869247920817027071553213591688637956684373655096183498065592844 32748 = 57896044618658097711785492504343953926634992332820282019728792003956564820253"
  by (simp only: d255 mont_eval)

lemma pow255a: "residue c255 n255 57896044618658097711785492504343953926634992332820282019728792003956564819948 57896044618658097711785492504343953926634992332820282019728792003956564820253"
proof -
  have e1: "residue c255 n255 2147483647 34678834459150724935625831047938932483487477618764184424043060292471339100210"
    by (rule residue_next [OF start255 m255 _ run255a_1, of 30 1073741823]) simp_all
  have e2: "residue c255 n255 2305843009213693951 37863623655222311231913458652606988730356981917554295442988713415553417387788"
    by (rule residue_next [OF e1 m255 _ run255a_2, of 30 1073741823]) simp_all
  have e3: "residue c255 n255 2475880078570760549798248447 36580412365285138485044730070498809931312001876514727784831499408762427876760"
    by (rule residue_next [OF e2 m255 _ run255a_3, of 30 1073741823]) simp_all
  have e4: "residue c255 n255 2658455991569831745807614120560689151 71260719627311876540010473618519131786624185143296509166274376556355225138332"
    by (rule residue_next [OF e3 m255 _ run255a_4, of 30 1073741823]) simp_all
  have e5: "residue c255 n255 2854495385411919762116571938898990272765493247 57457071051611422112886540899193606674014629975557037333961738972125686060824"
    by (rule residue_next [OF e4 m255 _ run255a_5, of 30 1073741823]) simp_all
  have e6: "residue c255 n255 3064991081731777716716694054300618367237478244367204351 18210246891087924852172641667323304956983939330039277258337432897094852795924"
    by (rule residue_next [OF e5 m255 _ run255a_6, of 30 1073741823]) simp_all
  have e7: "residue c255 n255 3291009114642412084309938365114701009965471731267159726697218047 99152423313856745273871572880244703237824292686658421461448007289595687303134"
    by (rule residue_next [OF e6 m255 _ run255a_7, of 30 1073741823]) simp_all
  have e8: "residue c255 n255 3533694129556768659166595001485837031654967793751237916243212402585239551 68022758902139869247920817027071553213591688637956684373655096183498065592844"
    by (rule residue_next [OF e7 m255 _ run255a_8, of 30 1073741823]) simp_all
  show ?thesis
    by (rule residue_next [OF e8 m255 _ run255a_9, of 14 16364]) simp_all
qed

lemma run255b_1: "mont_pow c255 n255 h255 608 781764 = 14044547152884587476693847194778841009273353901503301634044556136599642650326"
  by (simp only: d255 mont_eval)

lemma pow255b: "residue c255 n255 781764 14044547152884587476693847194778841009273353901503301634044556136599642650326"
  by (rule residue_next [OF start255 m255 _ run255b_1, of 19 257476]) simp_all

lemma is_prime_255: "is_prime 57896044618658097711785492504343953926634992332820282019728792003956564819949"
proof -
  have one: "residue c255 n255 (781764 * 74058212732561358302231226437062788676166966415465897661863160754340907) 57896044618658097711785492504343953926634992332820282019728792003956564820253" using pow255a by simp
  show ?thesis
    by (rule prime_certificate [OF is_prime_236 _ _ _ _ m255(2) one _ pow255b, folded n255_def, where u = 0 and v = 390882
        and j = 15 and t = 19227451624874764964549529690919082575370830109319648515748550465368954359421 and i = 302974989386427523854144843441573720859055574641460808883477396763487428742447, unfolded n255_def])
      (simp_all add: d255)
qed

end
