(* ===== verification/Field25519.thy ===== *)
theory Field25519
  imports Elligator2 Prime_25519
begin

text \<open>
  The prime field of curve25519 as a type of HOL's class \<open>field\<close>, square roots in it, and the proof
  that the straight-line program of \<^verbatim>\<open>thp/elligator2.rs\<close> computes the Elligator2 map of RFC 9380, whose
  values are \<open>x\<close> coordinates of points of the curve.
\<close>

section \<open>The field\<close>

definition P25519 :: nat where "P25519 = 2 ^ 255 - 19"

lemma p25519_int: "p25519 = int P25519"
  by (simp add: p25519_def P25519_def)

lemma is_prime_P25519: "is_prime P25519"
  using is_prime_255 by (simp add: P25519_def)

lemma p25519_pos [simp]: "0 < p25519" "1 < p25519" "p25519 \<noteq> 0"
  by (simp_all add: p25519_def)

typedef gf = "{0..<p25519}"
  morphisms gf_rep gf_abs
  by (rule exI [of _ 0]) simp

setup_lifting type_definition_gf

instantiation gf :: comm_ring_1
begin

lift_definition zero_gf :: gf is 0 by simp
lift_definition one_gf :: gf is 1 by simp
lift_definition plus_gf :: "gf \<Rightarrow> gf \<Rightarrow> gf" is "\<lambda>x y. (x + y) mod p25519" by simp
lift_definition minus_gf :: "gf \<Rightarrow> gf \<Rightarrow> gf" is "\<lambda>x y. (x - y) mod p25519" by simp
lift_definition uminus_gf :: "gf \<Rightarrow> gf" is "\<lambda>x. (- x) mod p25519" by simp
lift_definition times_gf :: "gf \<Rightarrow> gf \<Rightarrow> gf" is "\<lambda>x y. (x * y) mod p25519" by simp

instance
proof
  fix a b c :: gf
  show "a + b + c = a + (b + c)" by transfer (simp add: mod_simps add.assoc)
  show "a + b = b + a" by transfer (simp add: add.commute)
  show "0 + a = a" by transfer simp
  show "- a + a = 0" by transfer (simp add: mod_simps)
  show "a - b = a + - b" by transfer (simp add: mod_simps)
  show "a * b * c = a * (b * c)" by transfer (simp add: mod_simps mult.assoc)
  show "a * b = b * a" by transfer (simp add: mult.commute)
  show "1 * a = a" by transfer simp
  show "(a + b) * c = a * c + b * c" by transfer (simp add: mod_simps distrib_right)
  show "(0 :: gf) \<noteq> 1" by transfer simp
qed

end

text \<open>Integers in the field are their residues.\<close>

lemma gf_rep_range: "0 \<le> gf_rep x" "gf_rep x < p25519"
  using gf_rep [of x] by simp_all

lemma gf_rep_mod [simp]: "gf_rep x mod p25519 = gf_rep x"
  using gf_rep_range [of x] by simp

lemma gf_rep_of_int: "gf_rep (of_int x) = x mod p25519"
proof -
  have nat: "gf_rep (of_nat n) = int n mod p25519" for n
    by (induction n) (simp_all add: zero_gf.rep_eq one_gf.rep_eq plus_gf.rep_eq mod_simps)
  show ?thesis
  proof (cases x)
    case (nonneg n)
    then show ?thesis by (simp add: nat)
  next
    case (neg n)
    have "gf_rep (- of_nat (Suc n)) = (- int (Suc n)) mod p25519"
      unfolding uminus_gf.rep_eq nat by (rule mod_minus_eq)
    then show ?thesis unfolding neg by (simp only: of_int_minus of_int_of_nat_eq)
  qed
qed

lemma of_int_gf_eq: "(of_int x :: gf) = of_int y \<longleftrightarrow> x mod p25519 = y mod p25519"
  by (metis gf_rep_inject gf_rep_of_int)

lemma of_int_gf_rep [simp]: "of_int (gf_rep x) = x"
  by (metis gf_rep_inject gf_rep_mod gf_rep_of_int)

lemma gf_no_zero_div:
  fixes x y :: gf
  assumes "x * y = 0"
  shows "x = 0 \<or> y = 0"
proof -
  obtain m n where mn: "gf_rep x = int m" "gf_rep y = int n"
    using gf_rep_range(1) by (metis nonneg_int_cases)
  have "(int m * int n) mod p25519 = 0"
    using assms by (metis mn times_gf.rep_eq zero_gf.rep_eq)
  then have "P25519 dvd m * n"
    unfolding p25519_int by (metis mod_0_imp_dvd of_nat_dvd_iff of_nat_mult)
  then have "P25519 dvd m \<or> P25519 dvd n" using is_prime_dvd_mult [OF is_prime_P25519] by blast
  then have "gf_rep x mod p25519 = 0 \<or> gf_rep y mod p25519 = 0"
    unfolding mn p25519_int by (metis dvd_imp_mod_0 of_nat_dvd_iff)
  then show ?thesis by (metis gf_rep_inject gf_rep_mod zero_gf.rep_eq)
qed

lemma gf_fermat:
  fixes x :: gf
  assumes "x \<noteq> 0"
  shows "x ^ (P25519 - 1) = 1"
proof -
  obtain m where m: "gf_rep x = int m" using gf_rep_range(1) by (metis nonneg_int_cases)
  have "\<not> P25519 dvd m"
  proof
    assume "P25519 dvd m"
    then have "gf_rep x mod p25519 = 0" unfolding m p25519_int by (metis dvd_imp_mod_0 of_nat_dvd_iff)
    then show False using assms by (metis gf_rep_inject gf_rep_mod zero_gf.rep_eq)
  qed
  then have "m ^ (P25519 - 1) mod P25519 = 1" by (rule fermat [OF is_prime_P25519])
  then have "int m ^ (P25519 - 1) mod p25519 = 1 mod p25519"
    unfolding p25519_int by (metis mod_mod_trivial of_nat_1 of_nat_power zmod_int)
  then have "(of_int (int m ^ (P25519 - 1)) :: gf) = of_int 1" by (simp only: of_int_gf_eq)
  then show ?thesis using of_int_gf_rep [of x] by (simp add: m)
qed

instantiation gf :: field
begin

definition inverse_gf :: "gf \<Rightarrow> gf" where "inverse_gf x = x ^ (P25519 - 2)"
definition divide_gf :: "gf \<Rightarrow> gf \<Rightarrow> gf" where "divide_gf x y = x * y ^ (P25519 - 2)"

instance
proof
  fix a b :: gf
  have e: "P25519 - 1 = Suc (P25519 - 2)" by (simp add: P25519_def)
  show "inverse a * a = 1" if "a \<noteq> 0"
    using gf_fermat [OF that] unfolding inverse_gf_def e by (simp add: mult.commute)
  show "a div b = a * inverse b" by (simp add: divide_gf_def inverse_gf_def)
  have "0 < P25519 - 2" by (simp add: P25519_def)
  then show "inverse (0 :: gf) = 0" unfolding inverse_gf_def by (rule zero_power)
qed

end

section \<open>Square roots\<close>

definition sqrt_m1_gf :: gf where "sqrt_m1_gf = of_int i25519"

lemma gf_two [simp]: "(2 :: gf) \<noteq> 0" "(1 :: gf) \<noteq> - 1"
proof -
  have "(of_int 2 :: gf) \<noteq> of_int 0" unfolding of_int_gf_eq by (simp add: p25519_def)
  then show "(2 :: gf) \<noteq> 0" by simp
  then show "(1 :: gf) \<noteq> - 1" by (metis add.right_inverse one_add_one)
qed

lemma sqrt_m1_square: "sqrt_m1_gf ^ 2 = - 1"
proof -
  have "i25519 * i25519 + 1 = 6690407189080634018507799843845558368979872843924222843531373839242004886245 * p25519"
    by (simp add: i25519_def fe_val_def sqrt_m1_def p25519_def)
  then have "(i25519 * i25519 + 1) mod p25519 = 0 mod p25519" by simp
  then have "(of_int (i25519 * i25519 + 1) :: gf) = of_int 0" by (simp only: of_int_gf_eq)
  then show ?thesis by (simp add: sqrt_m1_gf_def power2_eq_square eq_neg_iff_add_eq_0)
qed

text \<open>Powers to \<open>(p - 1) / 4\<close> are fourth roots of unity.\<close>

definition quarter :: nat where "quarter = 2 ^ 253 - 5"

lemma quarter_exponents: "P25519 - 1 = quarter * 4" "2 * (2 ^ 252 - 3) + 1 = quarter" "odd quarter"
  by (simp_all add: quarter_def P25519_def)

lemma gf_fermat4: "(x :: gf) \<noteq> 0 \<Longrightarrow> x ^ (4 * quarter) = 1"
  using gf_fermat [of x] unfolding quarter_exponents(1) mult.commute [of 4] .

lemma gf_square_cancel: "(a :: gf) ^ 2 = b ^ 2 \<Longrightarrow> a = b \<or> a = - b"
  by (simp add: power2_eq_iff)

lemma fourth_root:
  fixes z :: gf
  assumes "z \<noteq> 0"
  shows "z ^ quarter \<in> {1, - 1, sqrt_m1_gf, - sqrt_m1_gf}"
proof -
  have "((z ^ quarter) ^ 2) ^ 2 = 1 ^ 2"
    using gf_fermat4 [OF assms] by (simp add: power_mult [symmetric])
  then have "(z ^ quarter) ^ 2 = 1 ^ 2 \<or> (z ^ quarter) ^ 2 = sqrt_m1_gf ^ 2"
    using gf_square_cancel sqrt_m1_square by fastforce
  then show ?thesis using gf_square_cancel by blast
qed

text \<open>Neither 2 nor \<open>-1 / 2\<close> is a square, so the denominator \<open>1 + 2 u\<^sup>2\<close> is never 0.\<close>

lemma two_not_square: "(r :: gf) ^ 2 \<noteq> 2"
proof
  assume r: "r ^ 2 = 2"
  define k where "k = (1 + sqrt_m1_gf) / r"
  have "k ^ 2 = sqrt_m1_gf"
    using sqrt_m1_square by (simp add: k_def power_divide r power2_sum)
  then have k4: "k ^ 4 = - 1" using sqrt_m1_square by (metis mult_2 numeral_Bit0 power_mult power2_eq_square numeral_times_numeral mult_numeral_1 power_even_eq)
  then have "k \<noteq> 0" by auto
  from gf_fermat4 [OF this] have "(k ^ 4) ^ quarter = 1"
    by (simp add: power_mult [symmetric])
  then show False using gf_two(2) neg_one_odd_power [OF quarter_exponents(3), where 'a = gf ] by (metis k4)
qed

lemma denominator_nonzero: "1 + 2 * (u :: gf) ^ 2 \<noteq> 0"
proof
  assume *: "1 + 2 * u ^ 2 = 0"
  then have "u \<noteq> 0" by auto
  from * have "2 * u ^ 2 = sqrt_m1_gf ^ 2" unfolding sqrt_m1_square by (simp add: eq_neg_iff_add_eq_0 add.commute)
  then have "(sqrt_m1_gf / u) ^ 2 = 2" using \<open>u \<noteq> 0\<close> by (simp add: power_divide field_simps)
  then show False by (simp add: two_not_square)
qed

section \<open>The curve and the map of RFC 9380\<close>

text \<open>
  curve25519 is \<open>y\<^sup>2 = x\<^sup>3 + J x\<^sup>2 + x\<close> with \<open>J = 486662\<close>; the map of section 6.7.1 of the RFC, with the
  non-square 2 the RFC chooses for this curve.
\<close>

definition curve_rhs :: "gf \<Rightarrow> gf" where
  "curve_rhs x = x ^ 3 + 486662 * x ^ 2 + x"

definition is_square :: "gf \<Rightarrow> bool" where
  "is_square z \<longleftrightarrow> (\<exists>y. y ^ 2 = z)"

definition elligator2 :: "gf \<Rightarrow> gf" where
  "elligator2 u =
     (let x1 = - 486662 * inverse (1 + 2 * u ^ 2); x1 = (if x1 = 0 then - 486662 else x1); x2 = - x1 - 486662
      in if is_square (curve_rhs x1) then x1 else x2)"

lemma curve_candidates:
  assumes d: "d = 1 + (t :: gf)" "d \<noteq> 0"
  shows "curve_rhs (- 486662 / d) = (486662 * t * (- 486662) + d ^ 2) * (- 486662) / d ^ 3"
    and "- (- 486662 / d) - 486662 = - 486662 * t / d"
    and "curve_rhs (- 486662 * t / d) = t * curve_rhs (- 486662 / d)"
proof -
  define J :: gf where "J = 486662"
  have t: "t = d - 1" using d(1) by simp
  show "curve_rhs (- 486662 / d) = (486662 * t * (- 486662) + d ^ 2) * (- 486662) / d ^ 3"
    unfolding curve_rhs_def J_def [symmetric] t using d(2)
    by (simp add: field_simps power3_eq_cube power2_eq_square)
  show "- (- 486662 / d) - 486662 = - 486662 * t / d"
    unfolding J_def [symmetric] t using d(2) by (simp add: field_simps)
  show "curve_rhs (- 486662 * t / d) = t * curve_rhs (- 486662 / d)"
    unfolding curve_rhs_def J_def [symmetric] t using d(2)
    by (simp add: field_simps power3_eq_cube power2_eq_square)
qed

text \<open>
  The source's candidate \<open>y\<close> for a root of \<open>n / d\<close>: its square is \<open>n / d\<close> up to a fourth root of unity, so after
  the second attempt \<open>y \<sqdot> sqrt(-1)\<close> the test succeeds exactly for squares, and otherwise \<open>2 n / d\<close> is one.
\<close>

definition candidate :: "gf \<Rightarrow> gf \<Rightarrow> gf" where
  "candidate d n = (d ^ 7 * n) ^ (2 ^ 252 - 3) * (d ^ 3 * n)"

definition second_try :: "gf \<Rightarrow> gf \<Rightarrow> gf" where
  "second_try d n = (let y = candidate d n in if y ^ 2 * d = n then y else y * sqrt_m1_gf)"

lemma candidate_square: "candidate d n ^ 2 * d = n * (d ^ 7 * n) ^ quarter"
proof -
  define z where "z = d ^ 7 * n"
  define k :: nat where "k = 2 ^ 252 - 3"
  have q: "quarter = 2 * k + 1" using quarter_exponents(2) by (simp add: k_def)
  have "z ^ quarter = (z ^ k) ^ 2 * z" unfolding q by (simp add: power_mult [symmetric] mult.commute)
  moreover have "candidate d n = z ^ k * (d ^ 3 * n)" by (simp add: candidate_def z_def k_def)
  ultimately show ?thesis
    by (simp add: z_def [symmetric] power_mult_distrib) (simp add: z_def power2_eq_square power_numeral_reduce ac_simps)
qed

lemma second_try_root:
  assumes d: "d \<noteq> 0"
  shows "second_try d n ^ 2 * d = n \<longleftrightarrow> n = 0 \<or> (d ^ 7 * n) ^ quarter \<in> {1, - 1}"
proof -
  have sq: "(y * sqrt_m1_gf) ^ 2 * d = - (y ^ 2 * d)" for y
    using sqrt_m1_square by (simp add: power_mult_distrib)
  have "- (n * s) = n \<longleftrightarrow> n = 0 \<or> s = - 1" for s
    by (metis add.inverse_inverse mult_cancel_left1 mult_minus_right)
  then show ?thesis
    unfolding second_try_def Let_def by (auto simp: sq candidate_square split: if_splits)
qed

lemma square_iff_try:
  assumes d: "d \<noteq> 0"
  shows "is_square (n / d) \<longleftrightarrow> second_try d n ^ 2 * d = n"
proof
  assume "is_square (n / d)"
  then obtain r where r: "r ^ 2 = n / d" by (auto simp: is_square_def)
  show "second_try d n ^ 2 * d = n"
  proof (cases "n = 0")
    case False
    have n: "n = r ^ 2 * d" using r d by simp
    have "d ^ 7 * n = (d ^ 4 * r) ^ 2"
      unfolding n by (simp add: power_mult_distrib power_numeral_reduce ac_simps)
    then have "((d ^ 7 * n) ^ quarter) ^ 2 = (d ^ 4 * r) ^ (4 * quarter)"
      by (simp add: power_mult [symmetric] mult.commute)
    also have "\<dots> = 1 ^ 2" using False d r by (subst gf_fermat4) auto
    finally show ?thesis unfolding second_try_root [OF d] using gf_square_cancel by blast
  qed (use second_try_root [OF d, of n] in blast)
next
  assume "second_try d n ^ 2 * d = n"
  then have "second_try d n ^ 2 = n / d" using d by (simp add: field_simps)
  then show "is_square (n / d)" by (auto simp: is_square_def)
qed

lemma twice_square:
  assumes d: "d \<noteq> 0" and "\<not> is_square (n / d)"
  shows "is_square (2 * (n / d))"
proof -
  let ?y = "candidate d n" and ?i = sqrt_m1_gf
  have no: "n \<noteq> 0" "(d ^ 7 * n) ^ quarter \<notin> {1, - 1}"
    using assms(2) unfolding square_iff_try [OF d] second_try_root [OF d] by blast+
  have "d ^ 7 * n \<noteq> 0" using d no(1) by simp
  from fourth_root [OF this] no(2) have "(d ^ 7 * n) ^ quarter = ?i \<or> (d ^ 7 * n) ^ quarter = - ?i" by blast
  then have "?y ^ 2 * d = n * ?i \<or> ?y ^ 2 * d = - (n * ?i)" using candidate_square [of d n] by auto
  then have y: "?y ^ 2 = n / d * ?i \<or> ?y ^ 2 = - (n / d * ?i)" using d by (auto simp: field_simps)
  have i: "?i * ?i = - 1" using sqrt_m1_square by (simp add: power2_eq_square)
  have "((1 + ?i) * ?y) ^ 2 = 2 * ?i * ?y ^ 2"
    by (simp add: power_mult_distrib power2_sum sqrt_m1_square)
  moreover have "(?i * (1 + ?i) * ?y) ^ 2 = - (2 * ?i * ?y ^ 2)"
    by (simp add: power_mult_distrib power2_sum sqrt_m1_square)
  moreover have "2 * ?i * (n / d * ?i) = 2 * (n / d) * (?i * ?i)" by (simp add: ac_simps)
  then have "2 * ?i * (n / d * ?i) = - (2 * (n / d))" unfolding i by simp
  ultimately show ?thesis unfolding is_square_def using y by (metis add.inverse_inverse mult_minus_right)
qed

section \<open>The straight-line program computes the map\<close>

text \<open>The element of the field that five limbs stand for.\<close>

definition gf_of :: "fe \<Rightarrow> gf" where
  "gf_of f = of_int (fe_val f)"

lemma gf_of_rep: "rep n f x \<Longrightarrow> gf_of f = of_int x"
  by (simp add: rep_def fv_def gf_of_def of_int_gf_eq)

lemma of_int_mod_p: "(of_int (x mod p25519) :: gf) = of_int x"
  by (simp add: of_int_gf_eq)

lemma is_root_gf: "is_root d n y \<longleftrightarrow> (of_int y :: gf) ^ 2 * of_int d = of_int n"
  unfolding is_root_def of_int_gf_eq [symmetric] by simp

lemma of_int_J: "(of_int (- 486662) :: gf) = - 486662" "(486662 :: gf) \<noteq> 0"
proof -
  have "(of_int 486662 :: gf) \<noteq> of_int 0" unfolding of_int_gf_eq by (simp add: p25519_def)
  then show "(486662 :: gf) \<noteq> 0" by simp
qed simp

lemma elligator2_cases:
  fixes u :: gf
  defines "t \<equiv> 2 * u ^ 2"
  defines "d \<equiv> t + 1"
  defines "n \<equiv> (486662 * t * (- 486662) + d ^ 2) * (- 486662)"
  shows "elligator2 u = (if second_try (d ^ 3) n ^ 2 * d ^ 3 = n then - 486662 / d else - 486662 * t / d)"
proof -
  have d: "d = 1 + t" "d \<noteq> 0" using denominator_nonzero [of u] by (simp_all add: d_def t_def add.commute)
  note c = curve_candidates [OF d]
  have x1: "- 486662 * inverse (1 + 2 * u ^ 2) = - 486662 / d"
    by (simp add: d(1) t_def divide_inverse)
  have "- 486662 / d \<noteq> 0" using d(2) of_int_J(2) by simp
  then have "elligator2 u = (if is_square (curve_rhs (- 486662 / d)) then - 486662 / d else - (- 486662 / d) - 486662)"
    by (simp only: elligator2_def Let_def x1 if_False)
  also have "is_square (curve_rhs (- 486662 / d)) \<longleftrightarrow> second_try (d ^ 3) n ^ 2 * d ^ 3 = n"
    unfolding c(1) n_def [symmetric] using d(2) by (intro square_iff_try) simp
  finally show ?thesis unfolding c(2) .
qed

lemma elligator2_x_gf: "of_int (elligator2_x u) = elligator2 (of_int u)"
proof -
  define t where "t = 2 * u ^ 2"
  define d where "d = t + 1"
  define gx1 where "gx1 = (486662 * t * (- 486662) + d ^ 2) * (- 486662)"
  define y11 where "y11 = ((d ^ 3) ^ 7 * gx1) ^ (2 ^ 252 - 3) * ((d ^ 3) ^ 3 * gx1)"
  define y1 where "y1 = (if is_root (d ^ 3) gx1 y11 then y11 else y11 * i25519)"
  define xn where "xn = (if is_root (d ^ 3) gx1 y1 then - 486662 else (- 486662) * t)"
  have ex: "elligator2_x u = (xn * d ^ (P25519 - 2)) mod p25519"
  proof -
    have e: "P25519 - 2 = 2 ^ 255 - 21" by (simp add: P25519_def)
    show ?thesis unfolding e by (simp only: elligator2_x_def Let_def t_def d_def gx1_def y11_def y1_def xn_def)
  qed
  let ?D = "of_int d :: gf" and ?N = "of_int gx1 :: gf" and ?t = "of_int t :: gf"
  have y11: "of_int y11 = candidate (?D ^ 3) ?N"
    unfolding y11_def candidate_def by (simp only: of_int_mult of_int_power)
  have y1: "of_int y1 = second_try (?D ^ 3) ?N"
    by (simp add: y1_def second_try_def Let_def is_root_gf y11 sqrt_m1_gf_def)
  have "of_int (elligator2_x u) = of_int xn * ?D ^ (P25519 - 2)"
    unfolding ex of_int_mod_p by (simp only: of_int_mult of_int_power)
  also have "\<dots> = (if second_try (?D ^ 3) ?N ^ 2 * ?D ^ 3 = ?N then - 486662 / ?D else - 486662 * ?t / ?D)"
    by (simp add: xn_def is_root_gf y1 divide_gf_def)
  also have "\<dots> = elligator2 (of_int u)"
    unfolding elligator2_cases by (simp add: t_def d_def gx1_def)
  finally show ?thesis .
qed

lemma elligator2_on_curve: "is_square (curve_rhs (elligator2 u))"
proof -
  define t where "t = 2 * u ^ 2"
  define d where "d = t + 1"
  define n where "n = (486662 * t * (- 486662) + d ^ 2) * (- 486662)"
  have d: "d = 1 + t" "d \<noteq> 0" using denominator_nonzero [of u] by (simp_all add: d_def t_def add.commute)
  note c = curve_candidates [OF d]
  have d3: "d ^ 3 \<noteq> 0" using d(2) by simp
  note e = elligator2_cases [of u, folded t_def, folded d_def, folded n_def, folded square_iff_try [OF d3]]
  show ?thesis
  proof (cases "is_square (n / d ^ 3)")
    case True
    then show ?thesis by (simp only: e if_True c(1) n_def)
  next
    case False
    from twice_square [OF d3 False] obtain y where y: "y ^ 2 = 2 * (n / d ^ 3)" by (auto simp: is_square_def)
    then have "(u * y) ^ 2 = t * (n / d ^ 3)" by (simp add: power_mult_distrib t_def)
    then have "is_square (t * (n / d ^ 3))" unfolding is_square_def by blast
    then show ?thesis using False by (simp only: e if_False c(1,3) n_def)
  qed
qed

lemma map_gf:
  assumes "length input = 32"
  shows "map_to_curve25519 input = bytes_of 32 (gf_rep (elligator2 (of_int (le_value input mod 2 ^ 255))))"
proof -
  let ?u = "le_value input mod 2 ^ 255"
  have "gf_rep (elligator2 (of_int ?u)) = elligator2_x ?u"
    unfolding elligator2_x_gf [symmetric] gf_rep_of_int by (simp only: elligator2_x_def Let_def mod_mod_trivial)
  then show ?thesis by (simp only: map_to_curve25519_value [OF assms])
qed

lemma le_value_gf: "of_int (le_value (bytes_of 32 (gf_rep x))) = x"
proof -
  have "gf_rep x < 2 ^ 255" by (rule less_trans [OF gf_rep_range(2)]) (simp add: p25519_def)
  then show ?thesis using gf_rep_range(1) by (simp only: bytes_of_inj of_int_gf_rep)
qed

lemma map_on_curve:
  assumes "length input = 32"
  shows "\<exists>y. y ^ 2 = curve_rhs (of_int (le_value (map_to_curve25519 input)))"
  unfolding map_gf [OF assms] le_value_gf using elligator2_on_curve by (simp only: is_square_def)

text \<open>
  C18: on every 32-byte input \<open>map_to_curve25519\<close> returns the little-endian bytes of the Elligator2 map of
  RFC 9380 (section 6.7.1, \<open>Z = 2\<close>) at the low 255 bits of the input, and what it returns is the \<open>x\<close>
  coordinate of a point of curve25519.
\<close>

theorem map_to_curve25519_elligator2:
  assumes "length input = 32"
  shows "map_to_curve25519 input = bytes_of 32 (gf_rep (elligator2 (of_int (le_value input mod 2 ^ 255))))
    \<and> (\<exists>y. y ^ 2 = curve_rhs (of_int (le_value (map_to_curve25519 input))))"
  using map_gf [OF assms] map_on_curve [OF assms] by blast

theorem map_to_curve25519_elligator2_witness:
  "map_to_curve25519 (replicate 32 0) = bytes_of 32 (gf_rep (elligator2 0))
    \<and> (\<exists>y. y ^ 2 = curve_rhs (of_int (le_value (map_to_curve25519 (replicate 32 0)))))"
proof -
  have z: "le_value (replicate 32 0) mod 2 ^ 255 = 0" by (simp add: numeral_eq_Suc)
  show ?thesis by (rule map_to_curve25519_elligator2 [OF length_replicate [of 32 0], unfolded z of_int_0])
qed

text \<open>
  C36: the addition chains divide and take the square-root power in the field: \<open>invert\<close> is the inverse of
  the field (and 0 for 0), so that a product with it is a quotient, and \<open>pow_p58\<close> the power \<open>(p - 5) / 8\<close>.
\<close>

theorem inversion_in_field:
  assumes "below (2 ^ 54) a" "below (2 ^ 54) b"
  shows "gf_of (invert a) = inverse (gf_of a) \<and> gf_of (fe_mul b (invert a)) = gf_of b / gf_of a
    \<and> (gf_of a \<noteq> 0 \<longrightarrow> gf_of (fe_mul a (invert a)) = 1)
    \<and> gf_of (pow_p58 a) = gf_of a ^ ((P25519 - 5) div 8)"
proof -
  have e: "P25519 - 2 = 2 ^ 255 - 21" "(P25519 - 5) div 8 = 2 ^ 252 - 3" by (simp_all add: P25519_def)
  have r: "rep (2 ^ 54) a (fe_val a)" "rep (2 ^ 54) b (fe_val b)" using assms by (simp_all add: rep_def fv_def)
  note inv = rep_pow [OF r(1) order_refl, folded e]
  have i: "gf_of (invert a) = inverse (gf_of a)"
    using gf_of_rep [OF inv(1)] by (simp add: gf_of_def inverse_gf_def)
  have m: "gf_of (fe_mul x (invert a)) = gf_of x * inverse (gf_of a)" if "rep (2 ^ 54) x (fe_val x)" for x
    using gf_of_rep [OF rep_mul [OF that inv(1) order_refl order_refl]] by (simp add: gf_of_def inverse_gf_def)
  have "gf_of (pow_p58 a) = gf_of a ^ ((P25519 - 5) div 8)"
    using gf_of_rep [OF inv(2)] by (simp add: gf_of_def)
  then show ?thesis using i m r by (simp add: divide_inverse)
qed

theorem inversion_in_field_witness:
  "gf_of (invert (Fe 2 0 0 0 0)) = inverse (gf_of (Fe 2 0 0 0 0))
    \<and> gf_of (fe_mul (Fe 5 1 0 0 0) (invert (Fe 2 0 0 0 0))) = gf_of (Fe 5 1 0 0 0) / gf_of (Fe 2 0 0 0 0)"
  using inversion_in_field [of "Fe 2 0 0 0 0" "Fe 5 1 0 0 0"] by (simp add: below_def)

end
