(* ===== verification/Elligator_Vectors.thy ===== *)
theory Elligator_Vectors
  imports Field25519
begin

text \<open>
  The test vectors of \<^verbatim>\<open>thp/elligator2.rs\<close>: six inputs and the outputs the device computes for
  them.  The limb program is not run on them; the map it was proved to compute is evaluated in the field
  with certificates, a square root of the curve's right-hand side at the first candidate or of its
  double when the second candidate is the answer.
\<close>

text \<open>The bytes of a 64-digit hexadecimal string, as the test's \<^verbatim>\<open>hex32\<close>, with the string as a numeral.\<close>

definition hex32 :: "int \<Rightarrow> bytes" where
  "hex32 n = rev (bytes_of 32 n)"

definition elligator2_vectors :: "(int \<times> int) list" where
  "elligator2_vectors =
    [(0x0000000000000000000000000000000000000000000000000000000000000000,
      0x0000000000000000000000000000000000000000000000000000000000000000),
     (0x66665895c5bc6e44ba8d65fd9307092e3244bf2c18877832bd568cb3a2d38a12,
      0x04d44290d13100b2c25290c9343d70c12ed4813487a07ac1176daa5925e7975e),
     (0x673a505e107189ee54ca93310ac42e4545e9e59050aaac6f8b5f64295c8ec02f,
      0x242ae39ef158ed60f20b89396d7d7eef5374aba15dc312a6aea6d1e57cacf85e),
     (0x990b30e04e1c3620b4162b91a33429bddb9f1b70f1da6e5f76385ed3f98ab131,
      0x998e98021eb4ee653effaa992f3fae4b834de777a953271baaa1fa3fef6b776e),
     (0x341a60725b482dd0de2e25a585b208433044bc0a1ba762442df3a0e888ca063c,
      0x683a71d7fca4fc6ad3d4690108be808c2e50a5af3174486741d0a83af52aeb01),
     (0x922688fa428d42bc1fa8806998fbc5959ae801817e85a42a45e8ec25a0d7541a,
      0x696f341266c64bcfa7afa834f8c34b2730be11c932e08474d1a22f26ed82410b)]"

section \<open>Certificates\<close>

text \<open>
  A candidate with its certificate: quotients that show that \<open>w\<close> is \<open>u\<^sup>2\<close>, that \<open>x\<close> solves the equation
  of the first candidate, that \<open>s\<close> is \<open>x\<^sup>2\<close> and \<open>g\<close> the right-hand side of the curve at \<open>x\<close>.
\<close>

definition first_candidate :: "int \<Rightarrow> int \<Rightarrow> int \<Rightarrow> int \<times> int \<times> int \<times> int \<times> int \<times> int \<Rightarrow> bool" where
  "first_candidate u x g = (\<lambda>(w, s, k1, k2, k3, k4). u * u = k1 * p25519 + w \<and> x * (1 + 2 * w) + 486662 = k2 * p25519
     \<and> x * x = k3 * p25519 + s \<and> x * (s + 486662 * x + 1) = k4 * p25519 + g)"

lemma gf_quotient: "a = k * p25519 + b \<Longrightarrow> (of_int a :: gf) = of_int b"
  unfolding of_int_gf_eq by simp

lemma first_candidateD:
  assumes "first_candidate u x g cert"
  shows "- 486662 * inverse (1 + 2 * (of_int u :: gf) ^ 2) = of_int x" "(of_int x :: gf) \<noteq> 0" "curve_rhs (of_int x) = of_int g"
proof -
  obtain w s k1 k2 k3 k4 where "cert = (w, s, k1, k2, k3, k4)" by (cases cert)
  with assms have "(of_int (u * u) :: gf) = of_int w" "(of_int (x * (1 + 2 * w) + 486662) :: gf) = of_int 0"
      "(of_int (x * x) :: gf) = of_int s" "(of_int (x * (s + 486662 * x + 1)) :: gf) = of_int g"
    using gf_quotient [of "u * u" k1 w] gf_quotient [of "x * (1 + 2 * w) + 486662" k2 0] gf_quotient [of "x * x" k3 s]
      gf_quotient [of "x * (s + 486662 * x + 1)" k4 g] by (simp_all add: first_candidate_def)
  then have w: "(of_int u :: gf) ^ 2 = of_int w" and x: "of_int x * (1 + 2 * of_int w :: gf) = - 486662"
      and g: "of_int x * ((of_int x) ^ 2 + 486662 * of_int x + 1) = (of_int g :: gf)"
    by (simp_all add: power2_eq_square add_eq_0_iff2)
  have nz: "1 + 2 * (of_int u :: gf) ^ 2 \<noteq> 0" by (rule denominator_nonzero)
  show 1: "- 486662 * inverse (1 + 2 * (of_int u :: gf) ^ 2) = of_int x"
    unfolding x [symmetric, folded w] mult.assoc using nz by simp
  show "(of_int x :: gf) \<noteq> 0"
    unfolding 1 [symmetric] using of_int_J(2) nz by simp
  show "curve_rhs (of_int x) = of_int g"
    unfolding curve_rhs_def g [symmetric] by (simp add: power2_eq_square power3_eq_cube algebra_simps)
qed

text \<open>A square root of \<open>g\<close> makes the first candidate the answer, one of \<open>2 g\<close> the second.\<close>

lemma first_is_answer:
  assumes "first_candidate u x g cert" "y * y = k * p25519 + g"
  shows "elligator2 (of_int u) = of_int x"
proof -
  have "(of_int y :: gf) ^ 2 = curve_rhs (of_int x)"
    using gf_quotient [OF assms(2)] first_candidateD(3) [OF assms(1)] by (simp add: power2_eq_square)
  then have "is_square (curve_rhs (of_int x))" unfolding is_square_def by blast
  with first_candidateD [OF assms(1)] show ?thesis by (simp add: elligator2_def Let_def)
qed

lemma second_is_answer:
  assumes "first_candidate u x g cert" "r * r = k * p25519 + 2 * g" "r mod p25519 \<noteq> 0"
  shows "elligator2 (of_int u) = of_int (- x - 486662)"
proof -
  let ?r = "of_int r :: gf" and ?g = "curve_rhs (of_int x)"
  have r: "?r ^ 2 = 2 * ?g"
    using gf_quotient [OF assms(2)] first_candidateD(3) [OF assms(1)] by (simp add: power2_eq_square)
  have nz: "?r \<noteq> 0" using assms(3) of_int_gf_eq [of r 0] by simp
  have "\<not> is_square ?g"
  proof
    assume "is_square ?g"
    then obtain s where s: "s ^ 2 = ?g" unfolding is_square_def by blast
    with r have "?r ^ 2 = 2 * s ^ 2" by simp
    with nz have "s \<noteq> 0" by auto
    with \<open>?r ^ 2 = 2 * s ^ 2\<close> have "(?r / s) ^ 2 = 2" by (simp add: power_divide)
    with two_not_square show False by blast
  qed
  with first_candidateD [OF assms(1)] show ?thesis by (simp add: elligator2_def Let_def)
qed

lemma map_value:
  assumes "elligator2 (of_int u) = of_int x" "0 \<le> u" "u < 2 ^ 255" "0 \<le> v" "v < p25519" "x mod p25519 = v"
    and "hex32 n = bytes_of 32 u" "hex32 m = bytes_of 32 v"
  shows "map_to_curve25519 (hex32 n) = hex32 m"
proof -
  have "length (bytes_of 32 u) = 32" by (simp add: bytes_of_map)
  moreover have "le_value (bytes_of 32 u) mod 2 ^ 255 = u" using assms(2,3) by (simp add: bytes_of_inj)
  ultimately show ?thesis using map_gf [of "bytes_of 32 u"] assms(1,6-8) by (simp only: gf_rep_of_int)
qed

section \<open>The vectors\<close>

definition field_round_trips_bytes :: bool where
  "field_round_trips_bytes \<longleftrightarrow>
     (let b = hex32 0x66665895c5bc6e44ba8d65fd9307092e3244bf2c18877832bd568cb3a2d38a12
      in fe_to_bytes (fe_from_bytes b) = b[31 := b ! 31 AND 0x7f])"

lemma candidate_1: "first_candidate 0x0
    0x7ffffffffffffffffffffffffffffffffffffffffffffffffffffffffff892e7
    0x7ffffffffffffffffffffffffffffffffffffffffffffffffffffffffff892e7
    (0x0,
      0x3724c21c24,
      0x0,
      0x1,
      0x7ffffffffffffffffffffffffffffffffffffffffffffffffffffffffff125e1,
      0x3b682ffffffffffffffffffffffffffffffffffffffffffffffffffffffc8dab0cc6a)"
  by (simp add: first_candidate_def p25519_def)

lemma vector_1:
  "map_to_curve25519 (hex32 0x0000000000000000000000000000000000000000000000000000000000000000) =
    hex32 0x0000000000000000000000000000000000000000000000000000000000000000"
  by (rule map_value [OF second_is_answer [OF candidate_1, where r = "0x4fea6c8a2c4843d23600e10335d7d58b8640744e2f080f7c06ed7a209978ad8d"
        and k = "0x31e50b4fc3e4dbd0f0d558c98d5aa7f6df75b503092a20ea6fdc2513117a97e7"], where
      v = "0x0"])
    (code_simp | simp add: p25519_def)+

lemma candidate_2: "first_candidate 0x128ad3a2b38c56bd327887182cbf44322e090793fd658dba446ebcc595586666
    0x216818daa65592e83e855f78cb7e2bd13e8fc2cb366fad3d4dffce2e6fb5bee3
    0x3cffba653d38a3cd9b5b4fe2a8715a6d1be061f21dc842d3739fb8757c6329cf
    (0x249f832f580928330dbe1bcdffce49c8758aae909b7f21cdded1906e07e72d62,
      0xc8a2b523d5bc3b16a1ab2b1be1a19312d035286f735142548554ed7a4b1f2bd,
      0x2afa217773dd5c2633527a658fec5493986bc13b01326b423c48882fc76d40a,
      0x131dd112860b1610c4cf8067b6e9c489b3e5ca4d40b45221eca3f33c617dd5e9,
      0x8b8017925e5deadfc5c0abc8e8aa82aae886d0871e4c584d25c1e902c992b3c,
      0x40be9a86792094557bf39e862664da2b38f3cbee267e1251654ab7b9083a5814dcc5)"
  by (simp add: first_candidate_def p25519_def)

lemma vector_2:
  "map_to_curve25519 (hex32 0x66665895c5bc6e44ba8d65fd9307092e3244bf2c18877832bd568cb3a2d38a12) =
    hex32 0x04d44290d13100b2c25290c9343d70c12ed4813487a07ac1176daa5925e7975e"
  by (rule map_value [OF second_is_answer [OF candidate_2, where r = "0x2e75f78f6376097cc81e341a0670d3bbe9a6386d8c87e0d21e0a272ceda9f296"
        and k = "0x10dd36a7806aaf171d9757542d196f857d625adcb440c8e6c2c41e2d6c77489e"], where
      v = "0x5e97e72559aa6d17c17aa0873481d42ec1703d34c99052c2b20031d19042d404"])
    (code_simp | simp add: p25519_def)+

lemma candidate_3: "first_candidate 0x2fc08e5c29645f8b6facaa5090e5e945452ec40a3193ca54ee8971105e503a67
    0x5ef8ac7ce5d1a6aea612c35da1ab7453ef7e7d6d39890bf260ed58f19ee32a24
    0x2d3594ecd894fbad708bad92fe1359d2a9d8c58a94575d7fdcbb37d7a20785be
    (0x267139ea5ca0b587f71e860862d6c67ff0b61d697bbc514fd19952cbe3b6693c,
      0x69a5109fc15512d0ee4f19a534d971ac74e3489927c8faf4759e39cb36beda4b,
      0x11d08a376136a17b49fb2734a2edcae80aa47861fdc7927894ca6cd616d7c469,
      0x390bab6bf544197ccba359e5e54c087c774b49a681ebe945ad38f39cb9d57af2,
      0x46772074bdf69cb8bb78e826d74bd8821b48e825d8ab31203f8fbbcfbcd71b39,
      0x20b4491301fbf28fda27de3ffdedb57ef6802f953a88ffb252edd781282eae5b1225a)"
  by (simp add: first_candidate_def p25519_def)

lemma vector_3:
  "map_to_curve25519 (hex32 0x673a505e107189ee54ca93310ac42e4545e9e59050aaac6f8b5f64295c8ec02f) =
    hex32 0x242ae39ef158ed60f20b89396d7d7eef5374aba15dc312a6aea6d1e57cacf85e"
  by (rule map_value [OF first_is_answer [OF candidate_3, where y = "0x1b08d84da25dd8ba60094f4c0a68aa06449fe4d2aced04a8208927a72f30c68a"
        and k = "0x5b5bbdd37ba163c9a23845f159ab12c2d12dde184322dd73b46101592f69e7e"], where
      v = "0x5ef8ac7ce5d1a6aea612c35da1ab7453ef7e7d6d39890bf260ed58f19ee32a24"])
    (code_simp | simp add: p25519_def)+

lemma candidate_4: "first_candidate 0x31b18af9d35e38765f6edaf1701b9fdbbd2934a3912b16b420361c4ee0300b99
    0x6e776bef3ffaa1aa1b2753a977e74d834bae3f2f99aaff3e65eeb41e02988e99
    0x3b5a4bfb62e9437d966415911327fd969f15835f4aef183b5d2bfe045d3f80c3
    (0x2387ba77f0ede0b34c1a2d185f387898bd448f7037046546f8e0b33cc18cbd38,
      0xa6770833d9051a61b42ca08d6c6d4e61f42c38aa2c9a5364968ed71076f0fd1,
      0x134ae4aa37a54b2ba9cca009fa59457ce00c0ce9e26684b75d7bcac5ede053fd,
      0x3d5394c89b3e72b5ba8cc9e0a412196667b515e964e03d749e5472b3a0c682eb,
      0x5f55b0ee41d57a09092cd371bb4fd6f8f8446c6a5243ced44715c4dd86a5f220,
      0x2c3f197d5fe1513864abe9c81591bc0105006c0233ba7f1834522f342cff1fad2a059)"
  by (simp add: first_candidate_def p25519_def)

lemma vector_4:
  "map_to_curve25519 (hex32 0x990b30e04e1c3620b4162b91a33429bddb9f1b70f1da6e5f76385ed3f98ab131) =
    hex32 0x998e98021eb4ee653effaa992f3fae4b834de777a953271baaa1fa3fef6b776e"
  by (rule map_value [OF first_is_answer [OF candidate_4, where y = "0x4ca34632be797dbc0741e0838504892badd873eba43fd9324cc64ea384dadb05"
        and k = "0x2de2b3a131ecf72e4f61b9d01e7f0823033d699a2cee65cdfd11dfd35704bbee"], where
      v = "0x6e776bef3ffaa1aa1b2753a977e74d834bae3f2f99aaff3e65eeb41e02988e99"])
    (code_simp | simp add: p25519_def)+

lemma candidate_5: "first_candidate 0x3c06ca88e8a0f32d4462a71b0abc44304308b285a5252eded02d485b72601a34
    0x1eb2af53aa8d04167487431afa5502e8c80be080169d4d36afca4fcd7713a68
    0x5af89d500643dccb290b3e648e56de4300e893f4f3509abb6f1782dd3918c1e
    (0x4cac163b6570adee39272fc1689f9ce5fecd51c5225cbc4feb1d6e7dca91c648,
      0x40df3119b1959d585b41deba1075e69714d1dfd90c8ef021bc0627dea209402,
      0x1c265e3c976563bd38aec1d78cb878f9418e41852f32e075fb1684524e5ccc68,
      0x24c6bb1475083c677b866149a8d8bf28fcd9372fbfcb78776ae549b4a8fdfe6,
      0x75cbb9fc8cb6f278e61619eea6a50c2bc8e07a9078e3d00d6c6ec8effdb76,
      0x36abd8fcca8b36d238be41b2ebf4fb226c71e93dd72adcb7658b1f8519ed54abc2)"
  by (simp add: first_candidate_def p25519_def)

lemma vector_5:
  "map_to_curve25519 (hex32 0x341a60725b482dd0de2e25a585b208433044bc0a1ba762442df3a0e888ca063c) =
    hex32 0x683a71d7fca4fc6ad3d4690108be808c2e50a5af3174486741d0a83af52aeb01"
  by (rule map_value [OF first_is_answer [OF candidate_5, where y = "0x4b54278a874f38e60fc9392051347c1ec873b2b72ec8c08081a1a55f34b6a333"
        and k = "0x2c54d5aa48996f08e0fcb5cb20d9d1b58e5ffd54f1b444cba7af5ceee05e80d7"], where
      v = "0x1eb2af53aa8d04167487431afa5502e8c80be080169d4d36afca4fcd7713a68"])
    (code_simp | simp add: p25519_def)+

lemma candidate_6: "first_candidate 0x1a54d7a025ece8452aa4857e8101e89a95c5fb986980a81fbc428d42fa882692
    0x74be7d12d9d05d2e8b7b1fcd36ee41cfd8b43c07cb57505830b43999edc4237e
    0x6ddb4e6063b609b4e182d852e283e3a099d34b53120ab591a2dd4f30d45d2699
    (0x74a85536dee3a824562bcf66369d7ce46987168304ab06dffd3f4f1a6ddf6ba6,
      0x24cd9b2bfac6e8c1ada6b6ff8e381add71753f35dc6a0a646f92647b9ebbc44e,
      0x56aafd57cd6cd13abe4831807640a72d679f04a68fad86080a2f7cb2c0c9e56,
      0xd4cc522b91b0053ccd9cc85e00327689399657dd0c80ce11b879608d4bd2e61c,
      0x6a7a5e2df4f71faaaa3c2bcefd912733d143c5e27a607a389fdba326d6fe51ce,
      0x316b14dca92eb3990d15ed234eef82adc894bb7bfa12147b4f08a1997bb50da5884c5)"
  by (simp add: first_candidate_def p25519_def)

lemma vector_6:
  "map_to_curve25519 (hex32 0x922688fa428d42bc1fa8806998fbc5959ae801817e85a42a45e8ec25a0d7541a) =
    hex32 0x696f341266c64bcfa7afa834f8c34b2730be11c932e08474d1a22f26ed82410b"
  by (rule map_value [OF second_is_answer [OF candidate_6, where r = "0x4e6aeca1b8162bf193540f8ba818e5e06dea74780db88e8a976029650a7dfaf4"
        and k = "0x300aa9b6b9a90d6b163b93563ea94115b7d2af5b6f7cbedba9801fcd73644116"], where
      v = "0xb4182ed262fa2d17484e032c911be30274bc3f834a8afa7cf4bc66612346f69"])
    (code_simp | simp add: p25519_def)+

lemma round_trip_test: field_round_trips_bytes
proof -
  define v where "v = (0x128ad3a2b38c56bd327887182cbf44322e090793fd658dba446ebcc595586666 :: int)"
  have b: "hex32 0x66665895c5bc6e44ba8d65fd9307092e3244bf2c18877832bd568cb3a2d38a12 = bytes_of 32 v"
    unfolding v_def by code_simp
  have len: "length (bytes_of 32 v) = 32" by (simp add: bytes_of_map)
  have "fv (fe_from_bytes (bytes_of 32 v)) = v"
    using from_bytes_val(1) [OF len] by (simp add: fv_def bytes_of_inj v_def p25519_def)
  moreover have "bytes_of 32 v ! 31 AND 0x7f = bytes_of 32 v ! 31"
    by (simp add: bytes_of_map v_def)
  ultimately show ?thesis
    unfolding field_round_trips_bytes_def Let_def b by (simp add: to_bytes_val)
qed


end
