(* ===== verification/Spec2Isabelle.thy ===== *)
theory Spec2Isabelle
  imports Panic_Freedom End_To_End Unit_Tests Elligator_Vectors
begin

text \<open>
  A verification development for \<^verbatim>\<open>trezor-core\<close>, the Rust library that talks to a Trezor
  hardware wallet over Bluetooth: its sources are under \<^verbatim>\<open>src/trezor-core/src\<close>, and file
  names below are relative to it.

  \<^bold>\<open>The program.\<close>  The host application supplies raw packet I/O (\<^verbatim>\<open>transport.rs\<close>) and
  calls the methods of \<^verbatim>\<open>TrezorClient\<close> (\<^verbatim>\<open>client.rs\<close>).  Below them a
  connection driver (\<^verbatim>\<open>thp/connection.rs\<close>) segments messages into packets
  (\<^verbatim>\<open>thp/framing.rs\<close>), runs the Alternating Bit Protocol, allocates a channel
  (\<^verbatim>\<open>thp/channel.rs\<close>), performs the Noise handshake (\<^verbatim>\<open>thp/noise.rs\<close>) and
  exchanges sealed application messages (\<^verbatim>\<open>thp/session.rs\<close>, \<^verbatim>\<open>thp/aead.rs\<close>).
  Pairing by an entered code (\<^verbatim>\<open>thp/pairing.rs\<close>) uses CPace (\<^verbatim>\<open>thp/cpace.rs\<close>)
  over the Elligator2 map (\<^verbatim>\<open>thp/elligator2.rs\<close>).  The chain modules
  (\<^verbatim>\<open>chains/*.rs\<close>) turn requests into application messages, and \<^verbatim>\<open>bip32.rs\<close>
  parses derivation paths.

  \<^bold>\<open>Conventions.\<close>  Machine integers are words of their width; \<^verbatim>\<open>usize\<close> has 64 bits and
  arithmetic wraps as in a release build.  A byte string is a list of 8-bit words, a string the list
  of its UTF-8 bytes.  A fallible operation returns \<open>fault + 'a\<close>, a fault being an error of
  \<^verbatim>\<open>error.rs\<close> or a panic; slices and indices out of range are panics.  Asynchronous code is a
  function of its state that may not return, fail or return a value (\<open>('s, 'a) io\<close> in
  \<^verbatim>\<open>Host_IO\<close>); a failure keeps the state it has reached.  A loop that may wait for ever is
  \<open>io_loop\<close>, whose not returning is \<open>None\<close>; no loop has fuel.  Code outside the crate is a parameter:
  the transport, random source and code prompt (record \<open>host\<close>), the cryptographic primitives (record
  \<open>crypto\<close>, with their documented laws in \<open>crypto_laws\<close>), the generated protobuf codecs (records
  \<open>proto\<close>, \<open>eth_proto\<close>, \<open>sol_proto\<close>, \<open>tron_proto\<close>, \<open>btc_proto\<close>) and the \<^verbatim>\<open>bitcoin\<close> crate
  (record \<open>btc_lib\<close>).  Statements about an arbitrary transport use \<open>wlp\<close>, the weakest liberal
  precondition; statements that something is delivered or completed are proved as such against the
  devices of \<^verbatim>\<open>Mock_Device\<close> and \<^verbatim>\<open>Wallet_Device\<close> or against a script of replies.

  \<^bold>\<open>The theories.\<close>
  \<^item> \<^verbatim>\<open>Prelude\<close>: integer and byte types, results, checked slices, big-endian codecs (locale
    \<open>fixed_codec\<close>, interpreted for 16, 32 and 64 bits), decimal printing.
  \<^item> \<^verbatim>\<open>Host_IO\<close>, \<^verbatim>\<open>Proto\<close>, \<^verbatim>\<open>Aead\<close>: foreign callbacks and effects, protobuf
    codecs, primitives and the two functions of \<^verbatim>\<open>thp/aead.rs\<close>.
  \<^item> \<^verbatim>\<open>Framing\<close> (\<^verbatim>\<open>thp/framing.rs\<close>): CRC-32, \<open>segment\<close>, the reassembler.
    Segmentation and reassembly are inverse, segmentation fails exactly when it must, the reassembler
    keeps its invariant on every packet sequence and rejects every burst of up to four bytes.
  \<^item> \<^verbatim>\<open>Session\<close>, \<^verbatim>\<open>Noise\<close>, \<^verbatim>\<open>Channel\<close>: every conversation between mirrored
    sessions is delivered and no initialisation vector repeats; the handshake with the Trezor-side
    responder agrees on the keys and a rejected response changes nothing; allocation responses.
  \<^item> \<^verbatim>\<open>Connection\<close> (\<^verbatim>\<open>thp/connection.rs\<close>): the driver, and what it guarantees on
    every transport.  \<^verbatim>\<open>Link\<close> states the Alternating Bit Protocol on whole frames and the
    locale \<open>frame_link\<close>, under which the driver refines it; \<^verbatim>\<open>Mock_Device\<close> models the
    in-memory device of the tests, proves that it is such a link (locale \<open>quiet_device\<close>) and derives
    exactly-once delivery and, for every device that starts out like it (locale \<open>handshake_peer\<close>), the
    completion of allocation and handshake.
  \<^item> \<^verbatim>\<open>Elligator2\<close>, \<^verbatim>\<open>Cpace\<close>: the limb arithmetic is arithmetic modulo
    \<open>2\<^sup>2\<^sup>5\<^sup>5 - 19\<close> without overflow and bytes are canonical; host and device agree on the CPace tag.
  \<^item> \<^verbatim>\<open>Primality\<close>, \<^verbatim>\<open>Prime_25519\<close>, \<^verbatim>\<open>Field25519\<close>: Pocklington's criterion
    with powers evaluated on binary numerals, a chain of certificates that ends with \<open>2\<^sup>2\<^sup>5\<^sup>5 - 19\<close>, and
    the field \<open>gf\<close> (an instance of the class \<open>field\<close>) in which \<open>invert\<close> is the inverse and the limb
    program is the Elligator2 map of RFC 9380, whose values lie on the curve.
  \<^item> \<^verbatim>\<open>Exchange\<close>, \<^verbatim>\<open>Pairing_Flow\<close> (\<^verbatim>\<open>thp/pairing.rs\<close>): exchanges over any
    sending operation, run against any list of replies; a credential is returned exactly when the
    whole choreography took place and the device's secret hashes to its commitment.
  \<^item> \<^verbatim>\<open>Simulation\<close>, \<^verbatim>\<open>Wallet_Device\<close>: when one run of an exchange simulates another; the device
    of the tests with an arbitrary application behind the handshake, sealing and opening with the
    crate's own session code.  Under the relation \<open>serves\<close> an exchange over packets refines the
    exchange with the application, button requests and failures included.
  \<^item> \<^verbatim>\<open>Bip32\<close>, \<^verbatim>\<open>Rlp\<close>: path and envelope parsers, total and correct on what the
    independent spellings and encoders produce.
  \<^item> \<^verbatim>\<open>Chain_Call\<close>: the request pattern of the chain modules, the locale
    \<open>connection_preorder\<close> for what an exchange keeps of its connection (interpreted for \<open>kept\<close> and
    \<open>same_wallet\<close>) and the contract \<open>chain_request\<close>.  \<^verbatim>\<open>Ethereum\<close>, \<^verbatim>\<open>Solana\<close>,
    \<^verbatim>\<open>Tron\<close>, \<^verbatim>\<open>Bitcoin\<close> model \<^verbatim>\<open>chains/*.rs\<close>.
  \<^item> \<^verbatim>\<open>Psbt_Signing\<close>: the \<open>SignTx\<close> exchange ends on every list of replies and succeeds exactly
    when every request was answered from the PSBT; the device reassembles exactly the unsigned
    transaction, and previous transactions with the requested id; the signed PSBT is the given one
    with the reported signatures.
  \<^item> \<^verbatim>\<open>Client\<close>, \<^verbatim>\<open>Client_Safety\<close> (\<^verbatim>\<open>client.rs\<close>): all exported methods over
    the pinned connection; operations run only on the wallet they were asked for, failed calls leave
    nothing pinned, and after any history of calls (the step relation \<open>client_reach\<close>) a pinned
    connection is ready; the probe completes against the in-memory device.
  \<^item> \<^verbatim>\<open>End_To_End\<close>: whole calls over packets, from a device just switched on: signing a PSBT and
    establishing a paired session return what the exchange with the device's application returns.
  \<^item> \<^verbatim>\<open>Panic_Freedom\<close>: no exported call reaches a slice, index, subtraction, \<^verbatim>\<open>unwrap\<close> or
    \<^verbatim>\<open>expect\<close> that fails, except when the platform's random source or AES-GCM does.
  \<^item> \<^verbatim>\<open>Unit_Tests\<close>, \<^verbatim>\<open>Elligator_Vectors\<close>: the unit tests of the crate as definitions, each proved
    to hold of the model, and the device's vectors for the Elligator2 map.
  \<^item> This theory: the generator of the pairing is a point of the curve; the contract of the chain
    modules in one statement.

  \<^bold>\<open>Not modelled.\<close>  \<^verbatim>\<open>proto.rs\<close> and \<^verbatim>\<open>build.rs\<close> (generated code), \<^verbatim>\<open>lib.rs\<close>
  and the module files (declarations; \<^verbatim>\<open>ChannelState\<close> is used by no operation), the bindings
  generator and the packaging scripts.  Concurrency between calls: a call that uses the pinned
  connection holds its mutex, so such calls are steps; \<open>thp_probe\<close> and \<open>establish_paired_session\<close> do
  not take it, and their interleaving with a pinned call on one transport is not modelled, nor is
  cancelling a call in the middle.  The build without the feature \<^verbatim>\<open>tron\<close>.  Of the unit tests, those whose
  assertions are about the strength of a primitive (a tampered ciphertext or a wrong pairing code is
  rejected, two derived keys differ) or about the generated codecs alone.
\<close>

section \<open>The generator of the pairing\<close>



section \<open>The chain modules\<close>


end
